(* ===== verification/Prelude.thy ===== *)
theory Prelude
  imports Main "HOL-Library.Word" "HOL-Library.Monad_Syntax"
begin

text \<open>
  What every component of the development shares: the names of the machine integers, the
  C++ vector with its bounds, byte images of words, counted loops, and the lemma collections
  the component proofs hand to the simplifier.

  A value \<open>None\<close> of an \<open>option\<close> result stands for undefined behaviour of the C++ code (a
  read or a write outside a vector, a cast of a value that does not fit): the program has no
  meaning from there on, and a theorem that a definition returns \<open>Some\<close> excludes it.
\<close>

unbundle bit_operations_syntax

named_theorems fnv_simps \<open>the step of the hash and its inverse\<close>
named_theorems vec_simps \<open>reads and writes of vectors within their bounds\<close>
named_theorems text_simps \<open>printing and parsing\<close>

section \<open>Machine integers\<close>

type_synonym u8 = "8 word"
type_synonym u16 = "16 word"
type_synonym u32 = "32 word"
type_synonym u64 = "64 word"

section \<open>Vectors\<close>

definition vec_get :: "'a list \<Rightarrow> nat \<Rightarrow> 'a option" where
  "vec_get xs i = (if i < length xs then Some (xs ! i) else None)"

definition vec_set :: "'a list \<Rightarrow> nat \<Rightarrow> 'a \<Rightarrow> 'a list option" where
  "vec_set xs i x = (if i < length xs then Some (xs[i := x]) else None)"

lemma vec_get_in [vec_simps]: "i < length xs \<Longrightarrow> vec_get xs i = Some (xs ! i)"
  by (simp add: vec_get_def)

lemma vec_get_out [vec_simps]: "length xs \<le> i \<Longrightarrow> vec_get xs i = None"
  by (simp add: vec_get_def)

lemma vec_set_in [vec_simps]: "i < length xs \<Longrightarrow> vec_set xs i x = Some (xs[i := x])"
  by (simp add: vec_set_def)

lemma vec_set_out [vec_simps]: "length xs \<le> i \<Longrightarrow> vec_set xs i x = None"
  by (simp add: vec_set_def)

section \<open>Counted loops\<close>

text \<open>
  \<open>for (x : xs) s = f x s\<close>: the body may have undefined behaviour, which ends the loop.
\<close>

fun for_each :: "'a list \<Rightarrow> ('a \<Rightarrow> 's \<Rightarrow> 's option) \<Rightarrow> 's \<Rightarrow> 's option" where
  "for_each [] f s = Some s"
| "for_each (x # xs) f s = (case f x s of None \<Rightarrow> None | Some s' \<Rightarrow> for_each xs f s')"

lemma for_each_append:
  "for_each (xs @ ys) f s = (case for_each xs f s of None \<Rightarrow> None | Some t \<Rightarrow> for_each ys f t)"
  by (induction xs arbitrary: s) (auto split: option.splits)

text \<open>
  The rule every loop proof uses: an invariant indexed by the number of completed iterations.
\<close>

lemma for_each_upt_invariant:
  assumes start: "I m s"
    and step: "\<And>i t. m \<le> i \<Longrightarrow> i < n \<Longrightarrow> I i t \<Longrightarrow> \<exists>t'. f i t = Some t' \<and> I (Suc i) t'"
    and "m \<le> n"
  shows "\<exists>t. for_each [m..<n] f s = Some t \<and> I n t"
  using \<open>m \<le> n\<close> step
proof (induction n rule: dec_induct)
  case base
  with start show ?case by simp
next
  case (step k)
  have "\<exists>t. for_each [m..<k] f s = Some t \<and> I k t"
    by (rule step.IH) (use step.prems in auto)
  then obtain t where "for_each [m..<k] f s = Some t" "I k t" by blast
  moreover obtain t' where "f k t = Some t'" "I (Suc k) t'"
    using step.prems [of k t] step.hyps \<open>I k t\<close> by auto
  ultimately show ?case using step.hyps by (auto simp: for_each_append)
qed

section \<open>Bytes of a word\<close>

text \<open>The bytes of a value in memory, least significant first, as x86-64 stores them.\<close>

definition le_bytes :: "nat \<Rightarrow> 'a::len word \<Rightarrow> u8 list" where
  "le_bytes n w = map (\<lambda>i. ucast (drop_bit (8 * i) w)) [0..<n]"

lemma length_le_bytes [simp]: "length (le_bytes n w) = n"
  by (simp add: le_bytes_def)

lemma le_bytes_nth [simp]: "i < n \<Longrightarrow> le_bytes n w ! i = ucast (drop_bit (8 * i) w)"
  by (simp add: le_bytes_def)

lemma le_bytes_4:
  "le_bytes 4 w = [ucast w, ucast (drop_bit 8 w), ucast (drop_bit 16 w), ucast (drop_bit 24 w)]"
proof -
  have "[0..<4] = [0, 1, 2, 3 :: nat]" by (simp add: upt_rec)
  then show ?thesis by (simp add: le_bytes_def)
qed

text \<open>A run of equally long blocks, and the position of a block's bytes in it.\<close>

lemma length_concat_blocks:
  "(\<And>x. length (f x) = n) \<Longrightarrow> length (concat (map f xs)) = n * length xs"
  by (induction xs) auto

lemma nth_concat_blocks:
  assumes len: "\<And>x. length (f x) = n" and "k < n * length xs"
  shows "concat (map f xs) ! k = f (xs ! (k div n)) ! (k mod n)"
  using assms(2)
proof (induction xs arbitrary: k)
  case Nil
  then show ?case by simp
next
  case (Cons x xs)
  have "0 < n" using Cons.prems by (cases n) auto
  show ?case
  proof (cases "k < n")
    case True
    then show ?thesis by (simp add: nth_append len)
  next
    case False
    then have "k - n < n * length xs" using Cons.prems by simp
    then have "concat (map f xs) ! (k - n) = f (xs ! ((k - n) div n)) ! ((k - n) mod n)"
      by (rule Cons.IH)
    moreover have "k div n = Suc ((k - n) div n)" "k mod n = (k - n) mod n"
      using False \<open>0 < n\<close> by (simp_all add: le_div_geq le_mod_geq)
    ultimately show ?thesis using False by (simp add: nth_append len)
  qed
qed

section \<open>Words that differ in the low byte only\<close>

lemma xor_low_byte_eq_drop:
  fixes x y :: "'a::len word"
  shows "drop_bit 8 (x XOR y) = 0 \<longleftrightarrow> drop_bit 8 x = drop_bit 8 y"
  by (auto simp: bit_eq_iff bit_simps)

lemma less_256_iff: "(x :: u64) < 256 \<longleftrightarrow> drop_bit 8 x = 0"
  by (simp add: drop_bit_eq_div word_less_nat_alt unat_eq_0 [symmetric] unat_div div_eq_0_iff
    del: unat_eq_0)

lemma ucast_byte_less [simp]: "(ucast (b :: u8) :: u64) < 256"
  by (auto simp: less_256_iff bit_eq_iff bit_simps dest: bit_imp_le_length)

lemma ucast_byte_inject [simp]: "(ucast (a :: u8) :: u64) = ucast b \<longleftrightarrow> a = b"
  using bit_imp_le_length [of a] bit_imp_le_length [of b]
  by (fastforce simp: bit_eq_iff bit_simps)

lemma ucast_byte_of_low:
  assumes "(x :: u64) < 256"
  shows "ucast (ucast x :: u8) = x"
proof -
  have "n < 8" if "bit x n" for n
    using assms that bit_imp_le_length [of x n]
    by (cases "n < 8") (auto simp: less_256_iff bit_eq_iff bit_simps dest!: spec [of _ "n - 8"])
  then show ?thesis by (auto simp: bit_eq_iff bit_simps)
qed

end
