(* ===== verification/Fnv.thy ===== *)
theory Fnv
  imports Prelude
begin

text \<open>
  The FNV-1a hash of sdcprobe.cpp: its constants, one step, the inverse of the step, and the
  arithmetic that the reverse analysis rests on. The interface the analysis uses is the locale
  \<open>invertible_mixer\<close>; \<open>fnv\<close> interprets it on the code's step.
\<close>

section \<open>The hash and its inverse step\<close>

definition k_fnv_basis :: u64 where
  "k_fnv_basis = 14695981039346656037"

definition k_fnv_prime :: u64 where
  "k_fnv_prime = 1099511628211"

definition k_fnv_prime_inverse :: u64 where
  "k_fnv_prime_inverse = 0xce965057aff6957b"

text \<open>The body of every hashing loop: \<open>hash ^= byte; hash *= k_fnv_prime\<close>.\<close>

definition fnv_step :: "u64 \<Rightarrow> u8 \<Rightarrow> u64" where
  "fnv_step hash byte = (hash XOR ucast byte) * k_fnv_prime"

text \<open>The body of the backward loop: \<open>(h * k_fnv_prime_inverse) ^ byte\<close>.\<close>

definition fnv_unstep :: "u64 \<Rightarrow> u8 \<Rightarrow> u64" where
  "fnv_unstep hash byte = (hash * k_fnv_prime_inverse) XOR ucast byte"

text \<open>The \<open>static_assert\<close> of the source.\<close>

lemma prime_inverse: "k_fnv_prime * k_fnv_prime_inverse = 1"
  by (simp add: k_fnv_prime_def k_fnv_prime_inverse_def)

lemma inverse_prime: "k_fnv_prime_inverse * k_fnv_prime = 1"
  using prime_inverse by (simp add: mult.commute)

lemma fnv_unstep_step [fnv_simps]: "fnv_unstep (fnv_step h b) b = h"
  by (simp add: fnv_step_def fnv_unstep_def mult.assoc prime_inverse xor.assoc)

lemma fnv_step_unstep [fnv_simps]: "fnv_step (fnv_unstep h b) b = h"
  by (simp add: fnv_step_def fnv_unstep_def mult.assoc inverse_prime xor.assoc)

section \<open>Mixers with an inverse\<close>

text \<open>
  What the reverse analysis needs of a hash: a step, its inverse, a way to read two states
  that agree after the step as a single misread byte, and that one step spreads such a small
  difference over the whole state.
\<close>

locale invertible_mixer =
  fixes step :: "'h \<Rightarrow> 'b \<Rightarrow> 'h" and unstep :: "'h \<Rightarrow> 'b \<Rightarrow> 'h"
  assumes unstep_step: "unstep (step h b) b = h"
    and step_unstep: "step (unstep h b) b = h"
begin

lemma step_inject: "step h b = step h' b \<longleftrightarrow> h = h'"
  by (metis unstep_step)

lemma step_eq_iff_unstep: "step h b = h' \<longleftrightarrow> h = unstep h' b"
  by (metis unstep_step step_unstep)

lemma foldl_inject: "foldl step h bs = foldl step h' bs \<longleftrightarrow> h = h'"
  by (induction bs arbitrary: h h') (auto simp: step_inject)

text \<open>Running the inverse over a stream from the back undoes the forward run.\<close>

lemma foldr_unstep: "foldr (\<lambda>b h. unstep h b) bs (foldl step h bs) = h"
  by (induction bs arbitrary: h) (auto simp: unstep_step)

lemma foldl_step: "foldl step (foldr (\<lambda>b h. unstep h b) bs h) bs = h"
  by (induction bs arbitrary: h) (auto simp: step_unstep)

lemma foldl_eq_iff: "foldl step h bs = h' \<longleftrightarrow> h = foldr (\<lambda>b h. unstep h b) bs h'"
  by (metis foldl_step foldl_inject)

end

interpretation fnv: invertible_mixer fnv_step fnv_unstep
  by unfold_locales (simp_all add: fnv_simps)

section \<open>Small differences spread\<close>

text \<open>Two states that differ, and only in the low byte: what one misread byte leaves behind.\<close>

definition low_diff :: "u64 \<Rightarrow> u64 \<Rightarrow> bool" where
  "low_diff x y \<longleftrightarrow> x XOR y \<noteq> 0 \<and> x XOR y < 256"

lemma low_diff_sym: "low_diff x y \<longleftrightarrow> low_diff y x"
  by (simp add: low_diff_def xor.commute)

lemma low_diff_xor [simp]: "low_diff (x XOR c) (y XOR c) \<longleftrightarrow> low_diff x y"
proof -
  have "(x XOR c) XOR (y XOR c) = x XOR y"
    by (simp add: bit_eq_iff bit_simps) blast
  then show ?thesis by (simp add: low_diff_def)
qed

lemma low_diff_bytes [simp]:
  "low_diff (x XOR ucast (a :: u8)) (x XOR ucast b) \<longleftrightarrow> a \<noteq> b"
proof -
  have eq: "(x XOR ucast a) XOR (x XOR ucast b) = (ucast (a XOR b) :: u64)"
    by (simp add: bit_eq_iff bit_simps) blast
  have "(ucast (a XOR b) :: u64) = 0 \<longleftrightarrow> a = b"
    using ucast_byte_inject [of "a XOR b" 0] by (simp add: bit_eq_iff bit_simps)
  then show ?thesis by (simp add: low_diff_def eq)
qed

lemma xor_byte_inject [simp]: "x XOR ucast (a :: u8) = x XOR ucast b \<longleftrightarrow> a = b" for x :: u64
  using low_diff_bytes [of x a b] by (auto simp: low_diff_def)

lemma uint_word_eqI_iff: "x = y \<longleftrightarrow> uint x = uint y" for x y :: u64
  by (metis word_of_int_uint)

lemma drop_bit_8_eq_uint: "drop_bit 8 (x :: u64) = drop_bit 8 y \<longleftrightarrow> uint x div 256 = uint y div 256"
  by (simp add: drop_bit_eq_div uint_word_eqI_iff uint_div)

lemma same_page_diff:
  fixes a b :: int
  assumes "a div 256 = b div 256"
  shows "\<bar>a - b\<bar> \<le> 255"
proof -
  have "a = 256 * (a div 256) + a mod 256" "b = 256 * (b div 256) + b mod 256" by simp_all
  moreover have "0 \<le> a mod 256" "a mod 256 < 256" "0 \<le> b mod 256" "b mod 256 < 256" by simp_all
  ultimately show ?thesis using assms by linarith
qed

lemma low_diff_uint:
  assumes "low_diff x y"
  shows "uint x - uint y \<noteq> 0" and "- 255 \<le> uint x - uint y" and "uint x - uint y \<le> 255"
proof -
  have "x \<noteq> y" using assms by (auto simp: low_diff_def)
  then show "uint x - uint y \<noteq> 0" by (simp add: uint_word_eqI_iff)
  have "drop_bit 8 x = drop_bit 8 y"
    using assms xor_low_byte_eq_drop [of x y]
    by (simp add: low_diff_def less_256_iff del: drop_bit_xor)
  then have "\<bar>uint x - uint y\<bar> \<le> 255"
    by (intro same_page_diff) (simp add: drop_bit_8_eq_uint)
  then show "- 255 \<le> uint x - uint y" and "uint x - uint y \<le> 255" by linarith+
qed

text \<open>
  One step of the hash on two states, over the integers: the difference is multiplied by the
  prime, modulo \<open>2 ^ 64\<close>, after the XOR has moved it by at most 510.
\<close>

lemma uint_xor_byte_near: "\<bar>uint (x XOR ucast (b :: u8) :: u64) - uint x\<bar> \<le> 255"
proof -
  have "drop_bit 8 (ucast b :: u64) = 0"
    using ucast_byte_less [of b] by (simp add: less_256_iff)
  then have "drop_bit 8 (x XOR ucast b) = drop_bit 8 x"
    by (simp only: drop_bit_xor xor.right_neutral)
  then show ?thesis by (intro same_page_diff) (simp only: drop_bit_8_eq_uint)
qed

lemma prime_mult_diff:
  "\<exists>t. uint (x * k_fnv_prime) - uint (y * k_fnv_prime)
       = (uint x - uint y) * 1099511628211 + t * 18446744073709551616"
proof -
  have m: "uint (z * k_fnv_prime)
      = uint z * 1099511628211 - 18446744073709551616 * (uint z * 1099511628211 div 18446744073709551616)"
    for z :: u64
    by (simp add: uint_word_ariths k_fnv_prime_def minus_mult_div_eq_mod)
  show ?thesis
    by (rule exI [of _ "uint y * 1099511628211 div 18446744073709551616
        - uint x * 1099511628211 div 18446744073709551616"]) (simp add: m ring_distribs)
qed

lemma fnv_step_diff:
  obtains d t where "- 510 \<le> d" and "d \<le> 510"
    and "uint (fnv_step x b) - uint (fnv_step y b)
       = (uint x - uint y + d) * 1099511628211 + t * 18446744073709551616"
proof -
  let ?x = "x XOR ucast b" and ?y = "y XOR ucast b"
  obtain t where t: "uint (?x * k_fnv_prime) - uint (?y * k_fnv_prime)
       = (uint ?x - uint ?y) * 1099511628211 + t * 18446744073709551616"
    using prime_mult_diff by blast
  define d where "d = (uint ?x - uint x) - (uint ?y - uint y)"
  show thesis
  proof (rule that)
    show "- 510 \<le> d" and "d \<le> 510"
      using uint_xor_byte_near [of x b] uint_xor_byte_near [of y b] by (simp_all add: d_def)
    show "uint (fnv_step x b) - uint (fnv_step y b)
        = (uint x - uint y + d) * 1099511628211 + t * 18446744073709551616"
      using t by (simp add: fnv_step_def d_def)
  qed
qed

lemma fnv_step_diff_low:
  assumes "low_diff x y"
  obtains e t where "e \<noteq> 0" and "- 255 \<le> e" and "e \<le> 255"
    and "uint (fnv_step x b) - uint (fnv_step y b) = e * 1099511628211 + t * 18446744073709551616"
proof -
  let ?x = "x XOR ucast b" and ?y = "y XOR ucast b"
  obtain t where t: "uint (?x * k_fnv_prime) - uint (?y * k_fnv_prime)
       = (uint ?x - uint ?y) * 1099511628211 + t * 18446744073709551616"
    using prime_mult_diff by blast
  have "low_diff ?x ?y" using assms by simp
  note d = low_diff_uint [OF this]
  show thesis
    by (rule that [OF d]) (use t in \<open>simp add: fnv_step_def\<close>)
qed

text \<open>
  A small value modulo \<open>2 ^ 64\<close> written with a part above bit 40 and a part below: the
  lower part cannot reach bit 40, so it is the value, and the upper part is a multiple of
  \<open>2 ^ 24\<close>.
\<close>

lemma carry_free:
  fixes c f r s :: int
  assumes eq: "f = c * 1099511627776 + r + s * 18446744073709551616"
    and "- 255 \<le> f" and "f \<le> 255"
    and "- 549755813888 \<le> r" and "r \<le> 549755813888"
  shows "c + s * 16777216 = 0" and "f = r"
proof -
  have "c + s * 16777216 < 1" using assms by linarith
  moreover have "- 1 < c + s * 16777216" using assms by linarith
  ultimately show "c + s * 16777216 = 0" by linarith
  then show "f = r" using eq by linarith
qed

text \<open>
  No low-byte difference survives one, two or three steps of the hash: the multiplication
  carries it to bit 40 and above, and three XORs with bytes are too small to bring it back.
\<close>

lemma low_diff_spread_1:
  assumes "low_diff x y"
  shows "\<not> low_diff (fnv_step x a) (fnv_step y a)"
proof
  assume "low_diff (fnv_step x a) (fnv_step y a)"
  note f = low_diff_uint [OF this]
  obtain e t where e: "e \<noteq> 0" "- 255 \<le> e" "e \<le> 255"
    and eq: "uint (fnv_step x a) - uint (fnv_step y a) = e * 1099511628211 + t * 18446744073709551616"
    using fnv_step_diff_low [OF assms] .
  have "t = 0" using e f eq by linarith
  with e f eq show False by linarith
qed

lemma low_diff_spread_2:
  assumes "low_diff x y"
  shows "\<not> low_diff (fnv_step (fnv_step x a) b) (fnv_step (fnv_step y a) b)" (is "\<not> low_diff ?x2 ?y2")
proof
  assume "low_diff ?x2 ?y2"
  note f = low_diff_uint [OF this]
  obtain e t where e: "e \<noteq> 0" "- 255 \<le> e" "e \<le> 255"
    and eq1: "uint (fnv_step x a) - uint (fnv_step y a) = e * 1099511628211 + t * 18446744073709551616"
    using fnv_step_diff_low [OF assms] .
  obtain d u where d: "- 510 \<le> d" "d \<le> 510" and eq2: "uint ?x2 - uint ?y2
      = (uint (fnv_step x a) - uint (fnv_step y a) + d) * 1099511628211 + u * 18446744073709551616"
    by (rule fnv_step_diff)
  define s where "s = u + t * 1099511628211 + e * 65536"
  have eq: "uint ?x2 - uint ?y2 = (870 * e + d) * 1099511627776 + (189225 * e + 435 * d)
      + s * 18446744073709551616"
    by (simp add: eq2 eq1 s_def algebra_simps)
  have "189225 * e + 435 * d \<le> 549755813888" using e(3) d by linarith
  moreover have "- 549755813888 \<le> 189225 * e + 435 * d" using e(2) d by linarith
  ultimately have z: "870 * e + d + s * 16777216 = 0"
    using carry_free(1) [OF eq f(2,3)] by simp
  have "s < 1" using z e(2,3) d by linarith
  moreover have "- 1 < s" using z e(2,3) d by linarith
  ultimately have "s = 0" by linarith
  then show False using z e(1) d by linarith
qed

lemma low_diff_spread_3:
  assumes "low_diff x y"
  shows "\<not> low_diff (fnv_step (fnv_step (fnv_step x a) b) c) (fnv_step (fnv_step (fnv_step y a) b) c)"
    (is "\<not> low_diff ?x3 ?y3")
proof
  let ?x2 = "fnv_step (fnv_step x a) b" and ?y2 = "fnv_step (fnv_step y a) b"
  assume "low_diff ?x3 ?y3"
  note f = low_diff_uint [OF this]
  obtain e t where e: "e \<noteq> 0" "- 255 \<le> e" "e \<le> 255"
    and eq1: "uint (fnv_step x a) - uint (fnv_step y a) = e * 1099511628211 + t * 18446744073709551616"
    using fnv_step_diff_low [OF assms] .
  obtain d u where d: "- 510 \<le> d" "d \<le> 510" and eq2: "uint ?x2 - uint ?y2
      = (uint (fnv_step x a) - uint (fnv_step y a) + d) * 1099511628211 + u * 18446744073709551616"
    by (rule fnv_step_diff)
  obtain g v where g: "- 510 \<le> g" "g \<le> 510" and eq3: "uint ?x3 - uint ?y3
      = (uint ?x2 - uint ?y2 + g) * 1099511628211 + v * 18446744073709551616"
    by (rule fnv_step_diff)
  define r where "r = uint ?x3 - uint ?y3
      - ((567675 * e + 870 * d + g) * 1099511627776 + (82312875 * e + 189225 * d + 435 * g))"
  have "r mod 18446744073709551616 = 0"
    by (simp add: r_def eq3 eq2 eq1 algebra_simps mod_simps)
  then obtain s where eq: "uint ?x3 - uint ?y3
      = (567675 * e + 870 * d + g) * 1099511627776 + (82312875 * e + 189225 * d + 435 * g)
      + s * 18446744073709551616"
    unfolding r_def by (auto simp: mod_eq_0_iff_dvd dvd_def algebra_simps)
  have lo: "82312875 * e + 189225 * d + 435 * g \<le> 549755813888" using e(3) d g by linarith
  have hi: "- 549755813888 \<le> 82312875 * e + 189225 * d + 435 * g" using e(2) d g by linarith
  have z: "567675 * e + 870 * d + g + s * 16777216 = 0"
    by (rule carry_free(1) [OF eq f(2,3) hi lo])
  have r: "uint ?x3 - uint ?y3 = 82312875 * e + 189225 * d + 435 * g"
    by (rule carry_free(2) [OF eq f(2,3) hi lo])
  have "e < 2" using r f(2,3) d g by linarith
  moreover have "- 2 < e" using r f(2,3) d g by linarith
  ultimately have e1: "e = 1 \<or> e = - 1" using e(1) by linarith
  have "s < 1" using z e1 d g by linarith
  moreover have "- 1 < s" using z e1 d g by linarith
  ultimately have "s = 0" by linarith
  then show False using z r f(2,3) e1 d g by linarith
qed

text \<open>The three lemmas together, for a run of one to three bytes.\<close>

lemma low_diff_spread:
  assumes "low_diff x y" and "1 \<le> length bs" and "length bs \<le> 3"
  shows "\<not> low_diff (foldl fnv_step x bs) (foldl fnv_step y bs)"
proof -
  consider a where "bs = [a]" | a b where "bs = [a, b]" | a b c where "bs = [a, b, c]"
    using assms(2,3) by (auto simp: le_Suc_eq numeral_3_eq_3 length_Suc_conv)
  then show ?thesis
    by cases (use assms(1) low_diff_spread_1 low_diff_spread_2 low_diff_spread_3 in simp_all)
qed

lemma fnv_step_inject_xor: "fnv_step x c = fnv_step y c' \<longleftrightarrow> x XOR ucast c = y XOR ucast c'"
proof -
  have "fnv_step z d = fnv_step (z XOR ucast d) 0" for z d by (simp add: fnv_step_def)
  then show ?thesis using fnv.step_inject by metis
qed

lemma xor_bytes_low_diff:
  fixes c c' :: u8
  assumes "x XOR ucast c = y XOR ucast c'" and "x \<noteq> y"
  shows "low_diff x y"
proof -
  define z where "z = x XOR ucast c"
  have "x = z XOR ucast c" by (simp add: z_def xor.assoc)
  moreover have "y = z XOR ucast c'" unfolding z_def assms(1) by (simp add: xor.assoc)
  ultimately show ?thesis using assms(2) by auto
qed

end
