(* ===== verification/Ieee.thy ===== *)
theory Ieee
  imports Complex_Main Prelude
begin

text \<open>
  The floating-point arithmetic the sources use: IEEE 754 binary32 (\<open>float\<close>) and binary64
  (\<open>double\<close>) with rounding to nearest even, on bit patterns. The build fixes
  \<open>-ffp-contract=off -fno-fast-math\<close> and targets x86-64, so every operation of the source is
  one correctly rounded operation of these formats.

  A finite value is kept exactly, as a sign, a natural mantissa and a binary exponent;
  \<open>round_to\<close> brings an exact value back to a format. The bits of a NaN are the quiet NaN of
  x86 (\<open>fp_nan\<close>): payloads are not modelled, and no computation of the sources on finite
  coordinates produces one.
\<close>

section \<open>Formats and values\<close>

record format =
  ebits :: nat
  mbits :: nat

definition binary32 :: format where
  "binary32 = \<lparr>ebits = 8, mbits = 23\<rparr>"

definition binary64 :: format where
  "binary64 = \<lparr>ebits = 11, mbits = 52\<rparr>"

type_synonym f32 = u32
type_synonym f64 = u64

text \<open>\<open>Fin s m e\<close> is \<open>(-1)\<^sup>s * m * 2\<^sup>e\<close>.\<close>

datatype fp = Nan | Inf bool | Fin bool nat int

definition emin :: "format \<Rightarrow> int" where
  \<comment> \<open>exponent of the last bit of a subnormal number\<close>
  "emin F = 2 - 2 ^ (ebits F - 1) - int (mbits F)"

definition fp_decode :: "format \<Rightarrow> nat \<Rightarrow> fp" where
  "fp_decode F n =
     (let frac = n mod 2 ^ mbits F;
          ex = n div 2 ^ mbits F mod 2 ^ ebits F;
          s = odd (n div 2 ^ (mbits F + ebits F))
      in if ex = 2 ^ ebits F - 1 then (if frac = 0 then Inf s else Nan)
         else if ex = 0 then Fin s frac (emin F)
         else Fin s (2 ^ mbits F + frac) (emin F + int ex - 1))"

definition fp_pack :: "format \<Rightarrow> bool \<Rightarrow> nat \<Rightarrow> nat" where
  "fp_pack F s n = (if s then 2 ^ (mbits F + ebits F) else 0) + n"

definition fp_inf_bits :: "format \<Rightarrow> nat" where
  "fp_inf_bits F = (2 ^ ebits F - 1) * 2 ^ mbits F"

definition fp_nan :: "format \<Rightarrow> nat" where
  "fp_nan F = fp_pack F True (fp_inf_bits F + 2 ^ (mbits F - 1))"

section \<open>Rounding\<close>

fun bit_length :: "nat \<Rightarrow> nat" where
  "bit_length n = (if n = 0 then 0 else Suc (bit_length (n div 2)))"

declare bit_length.simps [simp del]

text \<open>\<open>m / 2\<^sup>k\<close>, rounded to the nearest natural number, ties to the even one.\<close>

definition shift_rne :: "nat \<Rightarrow> nat \<Rightarrow> nat" where
  "shift_rne m k =
     (let q = m div 2 ^ k; r = m mod 2 ^ k
      in if 2 * r < 2 ^ k \<or> (2 * r = 2 ^ k \<and> even q) then q else q + 1)"

text \<open>
  The bits of \<open>m * 2\<^sup>e\<close> without a sign. The unit of the result is \<open>2\<^sup>u\<close>; a mantissa that
  rounds up to a power of two carries into the exponent field, as it does in the encoding.
\<close>

definition round_bits :: "format \<Rightarrow> nat \<Rightarrow> int \<Rightarrow> nat" where
  "round_bits F m e =
     (if m = 0 then 0
      else let u = max (emin F) (e + int (bit_length m) - int (mbits F) - 1);
               q = (if u \<le> e then m * 2 ^ nat (e - u) else shift_rne m (nat (u - e)));
               n = q + nat (u - emin F) * 2 ^ mbits F
           in if fp_inf_bits F \<le> n then fp_inf_bits F else n)"

definition round_to :: "format \<Rightarrow> fp \<Rightarrow> nat" where
  "round_to F x =
     (case x of Nan \<Rightarrow> fp_nan F
      | Inf s \<Rightarrow> fp_pack F s (fp_inf_bits F)
      | Fin s m e \<Rightarrow> fp_pack F s (round_bits F m e))"

section \<open>Exact operations\<close>

definition signed_mant :: "bool \<Rightarrow> nat \<Rightarrow> int" where
  "signed_mant s m = (if s then - int m else int m)"

fun fp_neg :: "fp \<Rightarrow> fp" where
  "fp_neg Nan = Nan"
| "fp_neg (Inf s) = Inf (\<not> s)"
| "fp_neg (Fin s m e) = Fin (\<not> s) m e"

fun fp_add :: "fp \<Rightarrow> fp \<Rightarrow> fp" where
  "fp_add Nan _ = Nan"
| "fp_add _ Nan = Nan"
| "fp_add (Inf s) (Inf t) = (if s = t then Inf s else Nan)"
| "fp_add (Inf s) _ = Inf s"
| "fp_add _ (Inf s) = Inf s"
| "fp_add (Fin s m e) (Fin t n f) =
     (let g = min e f;
          z = signed_mant s m * 2 ^ nat (e - g) + signed_mant t n * 2 ^ nat (f - g)
      in if z = 0 then Fin (s \<and> t) 0 g else Fin (z < 0) (nat \<bar>z\<bar>) g)"

definition fp_sub :: "fp \<Rightarrow> fp \<Rightarrow> fp" where
  "fp_sub x y = fp_add x (fp_neg y)"

fun fp_mul :: "fp \<Rightarrow> fp \<Rightarrow> fp" where
  "fp_mul Nan _ = Nan"
| "fp_mul _ Nan = Nan"
| "fp_mul (Inf s) (Inf t) = Inf (s \<noteq> t)"
| "fp_mul (Inf s) (Fin t n f) = (if n = 0 then Nan else Inf (s \<noteq> t))"
| "fp_mul (Fin s m e) (Inf t) = (if m = 0 then Nan else Inf (s \<noteq> t))"
| "fp_mul (Fin s m e) (Fin t n f) = Fin (s \<noteq> t) (m * n) (e + f)"

text \<open>
  A quotient is not a binary fraction in general: it is computed with at least \<open>mbits + 3\<close>
  significant bits and a last bit that records whether anything was cut off, which is
  enough for the one rounding that follows.
\<close>

fun fp_div :: "format \<Rightarrow> fp \<Rightarrow> fp \<Rightarrow> fp" where
  "fp_div F Nan _ = Nan"
| "fp_div F _ Nan = Nan"
| "fp_div F (Inf s) (Inf t) = Nan"
| "fp_div F (Inf s) (Fin t n f) = Inf (s \<noteq> t)"
| "fp_div F (Fin s m e) (Inf t) = Fin (s \<noteq> t) 0 0"
| "fp_div F (Fin s m e) (Fin t n f) =
     (if n = 0 then (if m = 0 then Nan else Inf (s \<noteq> t))
      else let k = bit_length n + mbits F + 3;
               a = m * 2 ^ k
           in Fin (s \<noteq> t) (2 * (a div n) + (if a mod n = 0 then 0 else 1)) (e - f - int k - 1))"

fun fp_less :: "fp \<Rightarrow> fp \<Rightarrow> bool" where
  "fp_less Nan _ = False"
| "fp_less _ Nan = False"
| "fp_less (Inf s) (Inf t) = (s \<and> \<not> t)"
| "fp_less (Inf s) (Fin t n f) = s"
| "fp_less (Fin s m e) (Inf t) = (\<not> t)"
| "fp_less (Fin s m e) (Fin t n f) =
     (let g = min e f
      in signed_mant s m * 2 ^ nat (e - g) < signed_mant t n * 2 ^ nat (f - g))"

text \<open>The integer part, rounded towards zero (casts) and towards minus infinity (\<open>std::floor\<close>).\<close>

fun fp_trunc :: "fp \<Rightarrow> int option" where
  "fp_trunc (Fin s m e) =
     Some (signed_mant s (if 0 \<le> e then m * 2 ^ nat e else m div 2 ^ nat (- e)))"
| "fp_trunc _ = None"

fun fp_floor :: "fp \<Rightarrow> fp" where
  "fp_floor (Fin s m e) =
     (if 0 \<le> e then Fin s m e
      else let z = signed_mant s m div 2 ^ nat (- e)
           in if z = 0 then Fin s 0 0 else Fin (z < 0) (nat \<bar>z\<bar>) 0)"
| "fp_floor x = x"

section \<open>The operations of the sources\<close>

definition fp32 :: "f32 \<Rightarrow> fp" where "fp32 x = fp_decode binary32 (unat x)"
definition fp64 :: "f64 \<Rightarrow> fp" where "fp64 x = fp_decode binary64 (unat x)"
definition to_f32 :: "fp \<Rightarrow> f32" where "to_f32 x = of_nat (round_to binary32 x)"
definition to_f64 :: "fp \<Rightarrow> f64" where "to_f64 x = of_nat (round_to binary64 x)"

definition f32_add :: "f32 \<Rightarrow> f32 \<Rightarrow> f32" where "f32_add x y = to_f32 (fp_add (fp32 x) (fp32 y))"
definition f32_sub :: "f32 \<Rightarrow> f32 \<Rightarrow> f32" where "f32_sub x y = to_f32 (fp_sub (fp32 x) (fp32 y))"
definition f32_mul :: "f32 \<Rightarrow> f32 \<Rightarrow> f32" where "f32_mul x y = to_f32 (fp_mul (fp32 x) (fp32 y))"
definition f32_div :: "f32 \<Rightarrow> f32 \<Rightarrow> f32" where
  "f32_div x y = to_f32 (fp_div binary32 (fp32 x) (fp32 y))"
definition f32_less :: "f32 \<Rightarrow> f32 \<Rightarrow> bool" where "f32_less x y = fp_less (fp32 x) (fp32 y)"
definition f32_floor :: "f32 \<Rightarrow> f32" where "f32_floor x = to_f32 (fp_floor (fp32 x))"
definition f32_of_nat :: "nat \<Rightarrow> f32" where "f32_of_nat n = to_f32 (Fin False n 0)"

definition f64_add :: "f64 \<Rightarrow> f64 \<Rightarrow> f64" where "f64_add x y = to_f64 (fp_add (fp64 x) (fp64 y))"
definition f64_sub :: "f64 \<Rightarrow> f64 \<Rightarrow> f64" where "f64_sub x y = to_f64 (fp_sub (fp64 x) (fp64 y))"
definition f64_mul :: "f64 \<Rightarrow> f64 \<Rightarrow> f64" where "f64_mul x y = to_f64 (fp_mul (fp64 x) (fp64 y))"
definition f64_div :: "f64 \<Rightarrow> f64 \<Rightarrow> f64" where
  "f64_div x y = to_f64 (fp_div binary64 (fp64 x) (fp64 y))"
definition f64_less :: "f64 \<Rightarrow> f64 \<Rightarrow> bool" where "f64_less x y = fp_less (fp64 x) (fp64 y)"
definition f64_of_nat :: "nat \<Rightarrow> f64" where "f64_of_nat n = to_f64 (Fin False n 0)"
definition f32_of_f64 :: "f64 \<Rightarrow> f32" where "f32_of_f64 x = to_f32 (fp64 x)"

text \<open>
  A cast to \<open>int32_t\<close> or \<open>int\<close>: undefined behaviour for a NaN, an infinity, and a value whose
  integer part does not fit.
\<close>

definition int32_of_fp :: "fp \<Rightarrow> int option" where
  "int32_of_fp x =
     (case fp_trunc x of None \<Rightarrow> None
      | Some z \<Rightarrow> if - (2 ^ 31) \<le> z \<and> z < 2 ^ 31 then Some z else None)"

section \<open>Encoding and decoding\<close>

lemma bit_length_le_iff: "bit_length n \<le> k \<longleftrightarrow> n < 2 ^ k"
proof (induction n arbitrary: k rule: bit_length.induct)
  case (1 n)
  show ?case
  proof (cases "n = 0")
    case True
    then show ?thesis by (simp add: bit_length.simps)
  next
    case False
    then show ?thesis
      using "1" [OF False, of "k - 1"]
      by (cases k) (simp_all add: bit_length.simps [of n] less_mult_imp_div_less div_less_iff_less_mult mult.commute)
  qed
qed

lemma less_bit_length_iff: "k < bit_length n \<longleftrightarrow> 2 ^ k \<le> n"
  by (metis bit_length_le_iff not_less)

text \<open>
  The pairs of mantissa and exponent that decoding produces: the mantissa fits, and it is
  normalised unless the exponent is the least one.
\<close>

definition canonical :: "format \<Rightarrow> nat \<Rightarrow> int \<Rightarrow> bool" where
  "canonical F m e \<longleftrightarrow> m < 2 ^ (mbits F + 1) \<and> emin F \<le> e \<and> (e = emin F \<or> 2 ^ mbits F \<le> m)
     \<and> e \<le> emin F + 2 ^ ebits F - 3"

lemma fp_decode_pack:
  assumes "n < fp_inf_bits F"
  shows "fp_decode F (fp_pack F s n) =
    (if n div 2 ^ mbits F = 0 then Fin s (n mod 2 ^ mbits F) (emin F)
     else Fin s (2 ^ mbits F + n mod 2 ^ mbits F) (emin F + int (n div 2 ^ mbits F) - 1))"
proof -
  let ?M = "2 ^ mbits F :: nat" and ?E = "2 ^ ebits F :: nat"
  have ex: "n div ?M < ?E - 1"
    using assms by (simp add: fp_inf_bits_def div_less_iff_less_mult)
  then have n: "n < ?M * ?E"
    using assms by (simp add: fp_inf_bits_def algebra_simps)
  have p: "fp_pack F s n = n + (if s then 1 else 0) * (?M * ?E)"
    by (simp add: fp_pack_def power_add)
  have "fp_pack F s n mod ?M = n mod ?M"
    unfolding p by (metis mod_mult_self2 mult.assoc mult.commute)
  moreover have "fp_pack F s n div ?M = n div ?M + (if s then 1 else 0) * ?E"
    unfolding p by (simp add: mult.assoc [symmetric] mult.commute [of _ ?M])
  moreover have "odd (fp_pack F s n div 2 ^ (mbits F + ebits F)) = s"
    unfolding p power_add using n by (auto simp: div_mult_self2)
  ultimately show ?thesis
    using ex by (auto simp: fp_decode_def Let_def)
qed

lemma canonical_bits:
  assumes "canonical F m e"
  defines "n \<equiv> m + nat (e - emin F) * 2 ^ mbits F"
  shows "n < fp_inf_bits F" and "fp_decode F (fp_pack F s n) = Fin s m e"
proof -
  let ?M = "2 ^ mbits F :: nat" and ?E = "2 ^ ebits F :: nat" and ?k = "nat (e - emin F)"
  have "emin F \<le> e" "e \<le> emin F + 2 ^ ebits F - 3" and m: "m < 2 * ?M"
    using assms by (simp_all add: canonical_def)
  then have e: "e = emin F + int ?k" and "int (?k + 3) \<le> int ?E" by simp_all
  then have k: "?k + 3 \<le> ?E" by (simp only: of_nat_le_iff)
  have split: "n div ?M = m div ?M + ?k" "n mod ?M = m mod ?M"
    by (simp_all add: n_def)
  have "(?k + 2) * ?M \<le> (?E - 1) * ?M" using k by (intro mult_le_mono1) simp
  then show bound: "n < fp_inf_bits F"
    using m by (simp add: n_def fp_inf_bits_def algebra_simps)
  show "fp_decode F (fp_pack F s n) = Fin s m e"
  proof (cases "?M \<le> m")
    case True
    then have "m div ?M = 1" "m mod ?M = m - ?M"
      using m by (simp_all add: div_if le_mod_geq)
    then show ?thesis
      using True e by (simp add: fp_decode_pack [OF bound] split)
  next
    case False
    then have "e = emin F" using assms by (simp add: canonical_def)
    with False show ?thesis by (simp add: fp_decode_pack [OF bound] split)
  qed
qed

text \<open>A value that fits the format is encoded exactly, with its mantissa normalised.\<close>

definition norm_exp :: "format \<Rightarrow> nat \<Rightarrow> int \<Rightarrow> int" where
  "norm_exp F m e = max (emin F) (e + int (bit_length m) - int (mbits F) - 1)"

lemma norm_canonical:
  assumes "m < 2 ^ (mbits F + 1)" and "emin F \<le> e" and "e \<le> emin F + 2 ^ ebits F - 3" and "m \<noteq> 0"
  shows "norm_exp F m e \<le> e" and "canonical F (m * 2 ^ nat (e - norm_exp F m e)) (norm_exp F m e)"
proof -
  let ?b = "bit_length m" and ?u = "norm_exp F m e"
  have b: "?b \<le> mbits F + 1" using assms(1) by (simp add: bit_length_le_iff)
  show le: "?u \<le> e" using assms(2) b by (simp add: norm_exp_def)
  let ?s = "nat (e - ?u)"
  have s: "?s \<le> mbits F + 1 - ?b" "?u \<noteq> emin F \<Longrightarrow> ?s = mbits F + 1 - ?b"
    using b assms(2) by (auto simp: norm_exp_def nat_diff_distrib)
  have "m < 2 ^ ?b" by (simp add: bit_length_le_iff [symmetric])
  then have "m * 2 ^ ?s < 2 ^ ?b * 2 ^ ?s" by simp
  also have "\<dots> \<le> 2 ^ (mbits F + 1)"
    unfolding power_add [symmetric] using s(1) b by (intro power_increasing) simp_all
  finally have small: "m * 2 ^ ?s < 2 ^ (mbits F + 1)" .
  have big: "2 ^ mbits F \<le> m * 2 ^ ?s" if "?u \<noteq> emin F"
  proof -
    have pos: "0 < ?b" using assms(4) less_bit_length_iff [of 0 m] by simp
    then have "2 ^ (?b - 1) \<le> m" using less_bit_length_iff [of "?b - 1" m] by simp
    then have "2 ^ (?b - 1) * 2 ^ ?s \<le> m * 2 ^ ?s" by simp
    moreover have "?b - 1 + ?s = mbits F" using s(2) [OF that] pos b by simp
    ultimately show ?thesis by (simp add: power_add [symmetric])
  qed
  have "emin F \<le> ?u" by (simp add: norm_exp_def)
  with small le assms(3) big show "canonical F (m * 2 ^ ?s) ?u"
    unfolding canonical_def by linarith
qed

lemma round_bits_eq:
  "m \<noteq> 0 \<Longrightarrow> round_bits F m e = min (fp_inf_bits F)
     ((if norm_exp F m e \<le> e then m * 2 ^ nat (e - norm_exp F m e)
       else shift_rne m (nat (norm_exp F m e - e))) + nat (norm_exp F m e - emin F) * 2 ^ mbits F)"
  by (simp add: round_bits_def norm_exp_def Let_def min_def)

lemma round_exact:
  assumes "m < 2 ^ (mbits F + 1)" and "emin F \<le> e" and "e \<le> emin F + 2 ^ ebits F - 3" and "m \<noteq> 0"
  shows "fp_decode F (round_to F (Fin s m e)) =
    Fin s (m * 2 ^ nat (e - norm_exp F m e)) (norm_exp F m e)"
proof -
  note c = canonical_bits [OF norm_canonical(2) [OF assms]]
  show ?thesis
    using c norm_canonical(1) [OF assms] assms(4)
    by (simp add: round_to_def round_bits_eq min_def not_le)
qed

lemma canonical_norm_exp: "canonical F m e \<Longrightarrow> m \<noteq> 0 \<Longrightarrow> norm_exp F m e = e"
  using bit_length_le_iff [of m "mbits F + 1"] less_bit_length_iff [of "mbits F" m]
  by (auto simp: canonical_def norm_exp_def)

lemma round_zero: "0 < ebits F \<Longrightarrow> fp_decode F (round_to F (Fin s 0 e)) = Fin s 0 (emin F)"
  using fp_decode_pack [of 0 F s] one_less_power [of "2 :: nat" "ebits F"]
  by (simp add: round_to_def round_bits_def fp_inf_bits_def)

lemma decode_canonical:
  assumes "2 \<le> ebits F" and dec: "fp_decode F n = Fin s m e"
  shows "canonical F m e"
proof -
  define ex where "ex = n div 2 ^ mbits F mod 2 ^ ebits F"
  define frac where "frac = n mod 2 ^ mbits F"
  have four: "4 \<le> (2 :: int) ^ ebits F"
    using power_increasing [OF assms(1), of "2 :: int"] by simp
  have "ex < 2 ^ ebits F" and frac: "frac < 2 ^ mbits F" by (simp_all add: ex_def frac_def)
  moreover have ex: "ex \<noteq> 2 ^ ebits F - 1" "ex = 0 \<Longrightarrow> m = frac \<and> e = emin F"
    "ex \<noteq> 0 \<Longrightarrow> m = 2 ^ mbits F + frac \<and> e = emin F + int ex - 1"
    using dec by (auto simp: fp_decode_def Let_def ex_def frac_def split: if_splits)
  ultimately have "ex + 2 \<le> 2 ^ ebits F" by linarith
  then have "int (ex + 2) \<le> int (2 ^ ebits F)" by (simp only: of_nat_le_iff)
  then show ?thesis
    using ex frac four by (cases "ex = 0") (simp_all add: canonical_def)
qed

lemma formats_ok [simp]: "2 \<le> ebits binary32" "2 \<le> ebits binary64"
  by (simp_all add: binary32_def binary64_def)

lemma round_to_bound:
  assumes "1 \<le> mbits F" and "1 \<le> ebits F"
  shows "round_to F x < 2 ^ (1 + mbits F + ebits F)"
proof -
  let ?M = "2 ^ mbits F :: nat" and ?E = "2 ^ ebits F :: nat"
  have one: "1 \<le> ?M" "1 \<le> ?E" by simp_all
  have pack: "fp_pack F s n < 2 ^ (1 + mbits F + ebits F)" if "n < ?M * ?E" for s n
    using that by (simp add: fp_pack_def power_add mult.commute)
  have inf: "fp_inf_bits F + ?M = ?M * ?E"
    using one by (simp add: fp_inf_bits_def algebra_simps)
  have half: "0 < (2 :: nat) ^ (mbits F - 1)" "2 ^ (mbits F - 1) < ?M"
    using assms by simp_all
  have "round_bits F m e \<le> fp_inf_bits F" for m e
    by (simp add: round_bits_def Let_def)
  then have "round_bits F m e < ?M * ?E" for m e
    using inf one by (metis add_le_cancel_left add_lessD1 le_less_trans less_add_one
        less_le_trans nat_add_left_cancel_less not_less)
  moreover have "fp_inf_bits F < ?M * ?E" "fp_inf_bits F + 2 ^ (mbits F - 1) < ?M * ?E"
    using inf half by linarith+
  ultimately show ?thesis
    by (cases x) (simp_all only: round_to_def fp_nan_def fp.case pack)
qed

lemma fp32_to_f32: "fp32 (to_f32 x) = fp_decode binary32 (round_to binary32 x)"
  using round_to_bound [of binary32 x]
  by (simp add: fp32_def to_f32_def binary32_def unat_of_nat take_bit_nat_eq_self_iff)

lemma fp64_to_f64: "fp64 (to_f64 x) = fp_decode binary64 (round_to binary64 x)"
  using round_to_bound [of binary64 x]
  by (simp add: fp64_def to_f64_def binary64_def unat_of_nat take_bit_nat_eq_self_iff)

text \<open>Rounding a value that fits keeps its integer part.\<close>

lemma fp_trunc_shift: "fp_trunc (Fin s (m * 2 ^ k) (e - int k)) = fp_trunc (Fin s m e)"
proof -
  consider "int k \<le> e" | "0 \<le> e" "e < int k" | "e < 0" by linarith
  then show ?thesis
  proof cases
    case 1
    then have "nat e = k + nat (e - int k)" by simp
    with 1 show ?thesis by (simp add: power_add mult.assoc)
  next
    case 2
    then have "k = nat e + nat (int k - e)" by simp
    then have "m * 2 ^ k = m * 2 ^ nat e * 2 ^ nat (int k - e)"
      by (metis mult.assoc power_add)
    then have "m * 2 ^ k div 2 ^ nat (int k - e) = m * 2 ^ nat e"
      by (simp only: nonzero_mult_div_cancel_right power_not_zero) simp
    with 2 show ?thesis by simp
  next
    case 3
    then have "nat (int k - e) = nat (- e) + k" by simp
    with 3 show ?thesis by (simp add: power_add)
  qed
qed

lemma fp_trunc_round:
  assumes "2 \<le> ebits F" "m < 2 ^ (mbits F + 1)" "emin F \<le> e" "e \<le> emin F + 2 ^ ebits F - 3"
  shows "fp_trunc (fp_decode F (round_to F (Fin s m e))) = fp_trunc (Fin s m e)"
proof (cases "m = 0")
  case True
  then show ?thesis using assms(1) by (simp add: round_zero)
next
  case False
  define k where "k = nat (e - norm_exp F m e)"
  have "norm_exp F m e = e - int k"
    using norm_canonical(1) [OF assms(2-4) False] by (simp add: k_def)
  then show ?thesis
    using round_exact [OF assms(2-4) False] fp_trunc_shift [of s m k e] by (simp add: k_def)
qed

section \<open>Rounding depends on the value only\<close>

lemma bit_length_shift: "m \<noteq> 0 \<Longrightarrow> bit_length (m * 2 ^ j) = bit_length m + j"
proof -
  assume m: "m \<noteq> 0"
  have "bit_length (m * 2 ^ j) \<le> bit_length m + j"
    using bit_length_le_iff [of m "bit_length m"] by (simp add: bit_length_le_iff power_add)
  moreover have pos: "0 < bit_length m" using m less_bit_length_iff [of 0 m] by simp
  moreover have "2 ^ (bit_length m - 1) \<le> m"
    using pos by (simp only: less_bit_length_iff [symmetric])
  then have "bit_length m - 1 + j < bit_length (m * 2 ^ j)"
    by (simp add: less_bit_length_iff power_add)
  ultimately show ?thesis by linarith
qed

lemma shift_rne_exact: "shift_rne (m * 2 ^ k) k = m"
  by (simp add: shift_rne_def)

lemma shift_rne_shift: "shift_rne (m * 2 ^ j) (k + j) = shift_rne m k"
proof -
  have "m * 2 ^ j div 2 ^ (k + j) = m div 2 ^ k"
    by (simp add: power_add mult.commute [of "2 ^ k"] div_mult2_eq)
  moreover have "m * 2 ^ j mod 2 ^ (k + j) = m mod 2 ^ k * 2 ^ j"
    by (simp add: power_add mult_mod_left)
  moreover have "(2 * (r * 2 ^ j) < 2 ^ (k + j)) = (2 * r < 2 ^ k)"
    "(2 * (r * 2 ^ j) = 2 ^ (k + j)) = (2 * r = 2 ^ k)" for r :: nat
    by (simp_all add: power_add mult.assoc [symmetric])
  ultimately show ?thesis by (simp add: shift_rne_def Let_def)
qed

lemma round_bits_shift: "round_bits F (m * 2 ^ j) e = round_bits F m (e + int j)"
proof (cases "m = 0")
  case True
  then show ?thesis by (simp add: round_bits_def)
next
  case False
  let ?u = "norm_exp F m (e + int j)"
  have u: "norm_exp F (m * 2 ^ j) e = ?u"
    using False by (simp add: norm_exp_def bit_length_shift algebra_simps)
  consider "?u \<le> e" | "e < ?u" "?u \<le> e + int j" | "e + int j < ?u" by linarith
  then have q: "(if ?u \<le> e then m * 2 ^ j * 2 ^ nat (e - ?u) else shift_rne (m * 2 ^ j) (nat (?u - e)))
    = (if ?u \<le> e + int j then m * 2 ^ nat (e + int j - ?u)
       else shift_rne m (nat (?u - (e + int j))))"
  proof cases
    case 1
    then have "nat (e + int j - ?u) = j + nat (e - ?u)" by simp
    with 1 show ?thesis by (simp add: power_add mult.assoc)
  next
    case 2
    then have "j = nat (e + int j - ?u) + nat (?u - e)" by simp
    then have "m * 2 ^ j = m * 2 ^ nat (e + int j - ?u) * 2 ^ nat (?u - e)"
      by (metis mult.assoc power_add)
    then have "shift_rne (m * 2 ^ j) (nat (?u - e)) = m * 2 ^ nat (e + int j - ?u)"
      by (simp only: shift_rne_exact)
    with 2 show ?thesis by simp
  next
    case 3
    then have "nat (?u - e) = nat (?u - (e + int j)) + j" by simp
    with 3 show ?thesis by (simp add: shift_rne_shift)
  qed
  have "m * 2 ^ j \<noteq> 0" using False by simp
  then show ?thesis
    by (simp only: round_bits_eq [OF False] round_bits_eq [OF \<open>m * 2 ^ j \<noteq> 0\<close>] u q)
qed

lemma round_to_shift: "round_to F (Fin s (m * 2 ^ j) e) = round_to F (Fin s m (e + int j))"
  by (simp add: round_to_def round_bits_shift)

section \<open>The real value\<close>

definition fp_value :: "fp \<Rightarrow> real" where
  "fp_value x = (case x of Fin s m e \<Rightarrow> (if s then - 1 else 1) * real m * 2 powi e | _ \<Rightarrow> 0)"

lemma fp_value_Fin [simp]: "fp_value (Fin s m e) = (if s then - 1 else 1) * real m * 2 powi e"
  by (simp add: fp_value_def)

lemma fp_value_round:
  assumes "2 \<le> ebits F" "m < 2 ^ (mbits F + 1)" "emin F \<le> e" "e \<le> emin F + 2 ^ ebits F - 3"
  shows "fp_value (fp_decode F (round_to F (Fin s m e))) = fp_value (Fin s m e)"
proof (cases "m = 0")
  case True
  then show ?thesis using assms(1) by (simp add: round_zero)
next
  case False
  define k where "k = nat (e - norm_exp F m e)"
  have "norm_exp F m e = e - int k"
    using norm_canonical(1) [OF assms(2-4) False] by (simp add: k_def)
  then have "fp_decode F (round_to F (Fin s m e)) = Fin s (m * 2 ^ k) (e - int k)"
    using round_exact [OF assms(2-4) False] by (simp add: k_def)
  then show ?thesis by (simp add: power_int_diff)
qed

section \<open>Exact sums\<close>

text \<open>
  \<open>represents x A e\<close>: the pattern \<open>x\<close> is the number \<open>A * 2\<^sup>e\<close>. Sums of such numbers are exact
  as long as the mantissa fits.
\<close>

definition represents :: "f32 \<Rightarrow> nat \<Rightarrow> int \<Rightarrow> bool" where
  "represents x A e \<longleftrightarrow> (\<exists>k. fp32 x = Fin False (A * 2 ^ k) (e - int k))"

lemma represents_to_f32:
  assumes "A < 2 ^ 24" "- 149 \<le> e" "e \<le> 104" "A \<noteq> 0"
  shows "represents (to_f32 (Fin False A e)) A e"
proof -
  have f: "A < 2 ^ (mbits binary32 + 1)" "emin binary32 \<le> e" "e \<le> emin binary32 + 2 ^ ebits binary32 - 3"
    using assms by (simp_all add: binary32_def emin_def)
  note r = round_exact [OF f assms(4), of False] norm_canonical(1) [OF f assms(4)]
  show ?thesis
    unfolding represents_def fp32_to_f32
    by (rule exI [of _ "nat (e - norm_exp binary32 A e)"]) (use r in simp)
qed

lemma fp_add_aligned:
  assumes "A + B \<noteq> 0"
  shows "\<exists>k. fp_add (Fin False (A * 2 ^ i) (e - int i)) (Fin False (B * 2 ^ j) (e - int j))
    = Fin False ((A + B) * 2 ^ k) (e - int k)"
proof -
  let ?g = "min (e - int i) (e - int j)"
  let ?k = "max i j"
  have g: "?g = e - int ?k" by (simp add: min_def max_def)
  have "A * 2 ^ i * 2 ^ nat (e - int i - ?g) = A * 2 ^ ?k"
    "B * 2 ^ j * 2 ^ nat (e - int j - ?g) = B * 2 ^ ?k"
    unfolding g by (auto simp: mult.assoc power_add [symmetric] max_def nat_diff_distrib')
  then have "int A * 2 ^ i * 2 ^ nat (e - int i - ?g) + int B * 2 ^ j * 2 ^ nat (e - int j - ?g)
      = int ((A + B) * 2 ^ ?k)"
    by (metis (no_types, lifting) of_nat_add of_nat_mult of_nat_numeral of_nat_power add_mult_distrib)
  moreover define N where "N = (A + B) * 2 ^ ?k"
  ultimately have z: "int A * 2 ^ i * 2 ^ nat (e - int i - ?g)
      + int B * 2 ^ j * 2 ^ nat (e - int j - ?g) = int N" and "N \<noteq> 0"
    using assms by simp_all
  then show ?thesis
    by (intro exI [of _ ?k])
      (simp add: Let_def signed_mant_def z g [symmetric] N_def [symmetric])
qed

lemma represents_add:
  assumes "represents x A e" "represents y B e" "A + B < 2 ^ 24" "A + B \<noteq> 0" "- 149 \<le> e" "e \<le> 104"
  shows "represents (f32_add x y) (A + B) e"
proof -
  obtain i j where "fp32 x = Fin False (A * 2 ^ i) (e - int i)"
    "fp32 y = Fin False (B * 2 ^ j) (e - int j)"
    using assms(1,2) by (auto simp: represents_def)
  then obtain k where "fp_add (fp32 x) (fp32 y) = Fin False ((A + B) * 2 ^ k) (e - int k)"
    using fp_add_aligned [OF assms(4)] by metis
  then have "f32_add x y = to_f32 (Fin False (A + B) e)"
    by (simp add: f32_add_def to_f32_def round_to_shift)
  then show ?thesis using represents_to_f32 [OF assms(3,5,6,4)] by simp
qed

lemma represents_zero: "- 149 \<le> e \<Longrightarrow> represents 0 0 e"
  unfolding represents_def
  by (rule exI [of _ "nat (e + 149)"]) (simp add: fp32_def fp_decode_def binary32_def emin_def)

lemma represents_positive: "represents x A e \<Longrightarrow> A \<noteq> 0 \<Longrightarrow> f32_less 0 x"
  by (auto simp: represents_def f32_less_def Let_def signed_mant_def fp32_def [of 0] fp_decode_def
      binary32_def emin_def)

end
