(* ===== verification/Text.thy ===== *)
theory Text
  imports Ieee
begin

text \<open>
  The parts of the C and C++ libraries the program uses on text: the conversions of printf and
  \<open>std::to_string\<close>, \<open>strtol\<close> and \<open>strtoul\<close> with the width of \<open>long\<close> of each platform, and the
  program's own \<open>trim\<close>, \<open>equals_ignore_case\<close> and \<open>skip_leading_spaces\<close> (sdcprobe.cpp). Text is a list of
  characters; a C string ends at its first NUL. The lemmas say that a number printed in decimal
  is read back by \<open>strtol\<close> on either platform.
\<close>

section \<open>Platforms\<close>

text \<open>The two platforms the program builds for; \<open>long\<close> has 64 bits on one and 32 on the other.\<close>

datatype platform = Linux | Windows

text \<open>There are only the two, so a statement about every platform can be evaluated.\<close>

instantiation platform :: enum
begin

definition enum_platform :: "platform list" where "enum_platform = [Linux, Windows]"
definition enum_all_platform :: "(platform \<Rightarrow> bool) \<Rightarrow> bool" where "enum_all_platform P = (P Linux \<and> P Windows)"
definition enum_ex_platform :: "(platform \<Rightarrow> bool) \<Rightarrow> bool" where "enum_ex_platform P = (P Linux \<or> P Windows)"

instance
proof
  have UNIV_platform: "(UNIV :: platform set) = {Linux, Windows}" by (auto intro: platform.exhaust)
  then show "(UNIV :: platform set) = set enum_class.enum" by (simp add: enum_platform_def)
  show "distinct (enum_class.enum :: platform list)" by (simp add: enum_platform_def)
  fix P :: "platform \<Rightarrow> bool"
  show "enum_class.enum_all P \<longleftrightarrow> Ball UNIV P" "enum_class.enum_ex P \<longleftrightarrow> Bex UNIV P"
    by (simp_all add: enum_all_platform_def enum_ex_platform_def UNIV_platform)
qed

end

fun long_max :: "platform \<Rightarrow> int" where
  "long_max Linux = 9223372036854775807"
| "long_max Windows = 2147483647"

definition long_min :: "platform \<Rightarrow> int" where
  "long_min pl = - long_max pl - 1"

definition ulong_max :: "platform \<Rightarrow> int" where
  "ulong_max pl = 2 * long_max pl + 1"

section \<open>Printing\<close>

definition newline :: char where "newline = CHR 0x0A"
definition quote :: char where "quote = CHR 0x27"

definition digit_char :: "nat \<Rightarrow> char" where
  "digit_char d = (if d < 10 then char_of (48 + d) else char_of (87 + d))"

fun digits :: "nat \<Rightarrow> nat \<Rightarrow> string" where
  \<comment> \<open>the numeral of a number in base \<open>b + 2\<close>, most significant digit first\<close>
  "digits b n = (if n < b + 2 then [digit_char n] else digits b (n div (b + 2)) @ [digit_char (n mod (b + 2))])"

declare digits.simps [simp del]

definition dec :: "nat \<Rightarrow> string" where
  \<comment> \<open>\<open>%u\<close>, \<open>%llu\<close>, \<open>std::to_string\<close>\<close>
  "dec n = digits 8 n"

definition dec_int :: "int \<Rightarrow> string" where
  \<comment> \<open>\<open>%d\<close>, \<open>%lld\<close>\<close>
  "dec_int n = (if n < 0 then ''-'' @ dec (nat (- n)) else dec (nat n))"

definition hex :: "nat \<Rightarrow> string" where
  \<comment> \<open>\<open>%llx\<close>\<close>
  "hex n = digits 14 n"

definition pad_left :: "char \<Rightarrow> nat \<Rightarrow> string \<Rightarrow> string" where
  \<comment> \<open>\<open>%5lld\<close> with a space, \<open>%02x\<close> with a zero\<close>
  "pad_left c w s = replicate (w - length s) c @ s"

definition pad_right :: "nat \<Rightarrow> string \<Rightarrow> string" where
  \<comment> \<open>\<open>%-5u\<close>\<close>
  "pad_right w s = s @ replicate (w - length s) (CHR '' '')"

definition hex0 :: "nat \<Rightarrow> nat \<Rightarrow> string" where
  \<comment> \<open>\<open>%02x\<close>, \<open>%016llx\<close>\<close>
  "hex0 w n = pad_left (CHR ''0'') w (hex n)"

definition scaled :: "nat \<Rightarrow> nat \<Rightarrow> int \<Rightarrow> nat" where
  \<comment> \<open>\<open>m * 2 ^ e * 10 ^ p\<close> to the nearest integer, ties to even\<close>
  "scaled p m e = (if 0 \<le> e then m * 2 ^ nat e * 10 ^ p else shift_rne (m * 10 ^ p) (nat (- e)))"

fun fixed :: "nat \<Rightarrow> fp \<Rightarrow> string" where
  \<comment> \<open>\<open>%.0f\<close>, \<open>%.1f\<close>, \<open>%.2f\<close>\<close>
  "fixed p Nan = ''nan''"
| "fixed p (Inf s) = (if s then ''-inf'' else ''inf'')"
| "fixed p (Fin s m e) =
     (let n = scaled p m e;
          whole = dec (n div 10 ^ p);
          frac = (if p = 0 then [] else ''.'' @ pad_left (CHR ''0'') p (dec (n mod 10 ^ p)))
      in (if s then ''-'' else []) @ whole @ frac)"

section \<open>Reading numbers\<close>

definition c_str :: "string \<Rightarrow> string" where
  "c_str s = takeWhile (\<lambda>c. c \<noteq> CHR 0x00) s"

definition isspace :: "char \<Rightarrow> bool" where
  "isspace c \<longleftrightarrow> c \<in> {CHR '' '', CHR 0x09, CHR 0x0A, CHR 0x0B, CHR 0x0C, CHR 0x0D}"

definition isdigit :: "char \<Rightarrow> bool" where
  "isdigit c \<longleftrightarrow> 48 \<le> (of_char c :: nat) \<and> (of_char c :: nat) < 58"

definition digits_value :: "string \<Rightarrow> nat" where
  "digits_value s = foldl (\<lambda>n c. 10 * n + (of_char c - 48)) 0 s"

fun strip_sign :: "string \<Rightarrow> bool \<times> string" where
  "strip_sign [] = (False, [])"
| "strip_sign (c # s) = (if c = CHR ''-'' then (True, s) else if c = CHR ''+'' then (False, s) else (False, c # s))"

definition strtol :: "platform \<Rightarrow> string \<Rightarrow> int \<times> string" where
  \<comment> \<open>the value, saturated to the range of \<open>long\<close>, and the text \<open>end\<close> points at\<close>
  "strtol pl text =
     (let (neg, s) = strip_sign (dropWhile isspace text);
          ds = takeWhile isdigit s;
          v = int (digits_value ds)
      in if ds = [] then (0, text)
         else (max (long_min pl) (min (long_max pl) (if neg then - v else v)), dropWhile isdigit s))"

definition strtoul :: "platform \<Rightarrow> string \<Rightarrow> int" where
  \<comment> \<open>the value only: the code passes no \<open>end\<close>. A minus sign negates in the unsigned type.\<close>
  "strtoul pl text =
     (let (neg, s) = strip_sign (dropWhile isspace text);
          v = int (digits_value (takeWhile isdigit s))
      in if ulong_max pl < v then ulong_max pl
         else if neg then (- v) mod (ulong_max pl + 1) else v)"

section \<open>The program's own text functions\<close>

definition is_blank :: "char \<Rightarrow> bool" where
  "is_blank c \<longleftrightarrow> c = CHR '' '' \<or> c = CHR 0x09 \<or> c = CHR 0x0D \<or> c = CHR 0x0A"

function trim_first :: "string \<Rightarrow> nat \<Rightarrow> nat" where
  "trim_first text first =
     (if first < length text \<and> is_blank (text ! first) then trim_first text (first + 1) else first)"
  by pat_completeness auto
termination by (relation "measure (\<lambda>(text, first). length text - first)") auto

declare trim_first.simps [simp del]

fun trim_last :: "string \<Rightarrow> nat \<Rightarrow> nat \<Rightarrow> nat" where
  "trim_last text first stop =
     (if stop > first \<and> is_blank (text ! (stop - 1)) then trim_last text first (stop - 1) else stop)"

declare trim_last.simps [simp del]

definition trim :: "string \<Rightarrow> string" where
  "trim text =
     (let first = trim_first text 0;
          stop = trim_last text first (length text)
      in take (stop - first) (drop first text))"

definition lower :: "char \<Rightarrow> char" where
  "lower a = (if 65 \<le> (of_char a :: nat) \<and> (of_char a :: nat) \<le> 90 then char_of (of_char a - 65 + 97 :: nat) else a)"

fun equals_ignore_case :: "string \<Rightarrow> string \<Rightarrow> bool" where
  "equals_ignore_case [] [] = True"
| "equals_ignore_case (a # text) (b # literal) =
     (if lower a \<noteq> lower b then False else equals_ignore_case text literal)"
| "equals_ignore_case _ _ = False"

fun skip_leading_spaces :: "string \<Rightarrow> string" where
  "skip_leading_spaces (c # text) = (if c = CHR '' '' then skip_leading_spaces text else c # text)"
| "skip_leading_spaces [] = []"

section \<open>Lemmas\<close>

lemma of_char_digit: "d < 10 \<Longrightarrow> of_char (char_of (48 + d :: nat)) = 48 + d"
  by (simp add: of_char_of)

lemma isdigit_digit: "d < 10 \<Longrightarrow> isdigit (digit_char d)"
  by (simp add: isdigit_def digit_char_def of_char_digit)

lemma dec_rec: "dec n = (if n < 10 then [digit_char n] else dec (n div 10) @ [digit_char (n mod 10)])"
  unfolding dec_def by (subst digits.simps) simp

lemma dec_induct [case_names small step]:
  assumes "\<And>n. n < 10 \<Longrightarrow> P n" and "\<And>n. \<not> n < 10 \<Longrightarrow> P (n div 10) \<Longrightarrow> P n"
  shows "P (n :: nat)"
proof (induction n rule: less_induct)
  case (less n)
  show ?case by (cases "n < 10") (use assms less in auto)
qed

lemma dec_isdigit: "list_all isdigit (dec n)"
  by (induction n rule: dec_induct; subst dec_rec) (simp_all add: isdigit_digit)

lemma dec_nonempty [simp]: "dec n \<noteq> []"
  by (subst dec_rec) simp

lemma dec_value [simp]: "digits_value (dec n) = n"
proof (induction n rule: dec_induct)
  case (small n)
  then show ?case by (subst dec_rec) (simp add: digits_value_def digit_char_def of_char_digit)
next
  case (step n)
  have "n mod 10 < 10" by simp
  then show ?case
    using step by (subst dec_rec) (simp add: digits_value_def digit_char_def of_char_digit)
qed

lemma dec_inject [simp]: "dec m = dec n \<longleftrightarrow> m = n"
  by (metis dec_value)

lemma isdigit_plain:
  assumes "isdigit c"
  shows "\<not> isspace c" "c \<noteq> CHR ''-''" "c \<noteq> CHR ''+''" "c \<noteq> CHR 0x00" "c \<noteq> CHR '' ''"
    "c \<noteq> CHR '',''" "c \<noteq> CHR '';''" "\<not> is_blank c" "c \<noteq> CHR ''a''" "c \<noteq> CHR ''A''" "lower c = c"
  using assms by (auto simp: isdigit_def isspace_def is_blank_def lower_def)

lemma takeWhile_all: "list_all P xs \<Longrightarrow> takeWhile P (xs @ ys) = xs @ takeWhile P ys"
  by (induction xs) simp_all

lemma dropWhile_all: "list_all P xs \<Longrightarrow> dropWhile P (xs @ ys) = dropWhile P ys"
  by (induction xs) simp_all

lemma c_str_plain: "CHR 0x00 \<notin> set s \<Longrightarrow> c_str s = s"
  unfolding c_str_def by (rule takeWhile_eq_all_conv [THEN iffD2]) blast

lemma strtol_dec:
  assumes "int n \<le> long_max pl" and "\<And>c. rest \<noteq> [] \<Longrightarrow> c = hd rest \<Longrightarrow> \<not> isdigit c"
  shows "strtol pl (dec n @ rest) = (int n, rest)"
proof -
  obtain d ds where d: "dec n = d # ds" by (cases "dec n") auto
  then have "isdigit d" using dec_isdigit [of n] by simp
  then have sign: "strip_sign (dropWhile isspace (dec n @ rest)) = (False, dec n @ rest)"
    by (simp add: d isdigit_plain)
  have "takeWhile isdigit rest = []" "dropWhile isdigit rest = rest"
    using assms(2) by (cases rest; simp)+
  then have "takeWhile isdigit (dec n @ rest) = dec n" "dropWhile isdigit (dec n @ rest) = rest"
    using dec_isdigit [of n] by (simp_all add: takeWhile_all dropWhile_all)
  moreover have "long_min pl \<le> int n" using assms(1) by (cases pl) (simp_all add: long_min_def)
  ultimately show ?thesis using assms(1) by (simp add: strtol_def sign Let_def)
qed

lemma strtol_range: "long_min pl \<le> fst (strtol pl s) \<and> fst (strtol pl s) \<le> long_max pl"
  by (cases pl) (auto simp: strtol_def long_min_def Let_def split: prod.splits)

lemma trim_first_eq: "first \<le> length text \<Longrightarrow>
    trim_first text first \<le> length text \<and> drop (trim_first text first) text = dropWhile is_blank (drop first text)"
proof (induction "text" first rule: trim_first.induct)
  case (1 "text" first)
  show ?case
  proof (cases "first < length text")
    case True
    then have "drop first text = text ! first # drop (Suc first) text" by (simp add: Cons_nth_drop_Suc)
    with 1 True show ?thesis by (simp add: trim_first.simps [of "text" first])
  next
    case False
    then have "trim_first text first = first" by (subst trim_first.simps) simp
    with False 1(2) show ?thesis by simp
  qed
qed

lemma trim_last_eq: "first \<le> stop \<Longrightarrow> stop \<le> length text \<Longrightarrow>
    take (trim_last text first stop - first) (drop first text)
      = rev (dropWhile is_blank (rev (take (stop - first) (drop first text))))"
proof (induction "text" first stop rule: trim_last.induct)
  case (1 "text" first stop)
  show ?case
  proof (cases "first < stop")
    case True
    then have "take (stop - first) (drop first text)
        = take (stop - 1 - first) (drop first text) @ [text ! (stop - 1)]"
      using 1(3) take_Suc_conv_app_nth [of "stop - 1 - first" "drop first text"]
      by (simp add: Suc_diff_Suc)
    with 1 True show ?thesis by (simp add: trim_last.simps [of "text" first stop])
  next
    case False
    then have "trim_last text first stop = stop" by (subst trim_last.simps) simp
    with False 1(2) show ?thesis by simp
  qed
qed

text \<open>\<open>trim\<close> strips the blanks at both ends.\<close>

lemma trim_eq: "trim text = rev (dropWhile is_blank (rev (dropWhile is_blank text)))"
proof -
  have first: "trim_first text 0 \<le> length text" "drop (trim_first text 0) text = dropWhile is_blank text"
    using trim_first_eq [of 0 "text"] by simp_all
  then have "take (length text - trim_first text 0) (dropWhile is_blank text) = dropWhile is_blank text"
    by (metis length_drop order_refl take_all)
  with first trim_last_eq [of "trim_first text 0" "length text" "text"] show ?thesis
    by (simp add: trim_def Let_def)
qed

lemma trim_plain:
  assumes "text \<noteq> []" and "\<not> is_blank (hd text)" and "\<not> is_blank (last text)"
  shows "trim text = text"
proof -
  have "dropWhile is_blank text = text" using assms by (cases "text") simp_all
  moreover have "dropWhile is_blank (rev text) = rev text"
    using assms by (cases "text" rule: rev_cases) simp_all
  ultimately show ?thesis by (simp add: trim_eq)
qed

lemma trim_nil [simp]: "trim [] = []"
  by (simp add: trim_eq)

lemma equals_ignore_case_eq: "equals_ignore_case text literal \<longleftrightarrow> map lower text = map lower literal"
  by (induction "text" literal rule: equals_ignore_case.induct) auto

text \<open>Where the value is small, the width of \<open>long\<close> does not show.\<close>

lemma strtol_small:
  assumes "strtol pl s = (v, e)" and "0 \<le> v" "v \<le> 4095"
  shows "strtol pl' s = (v, e)"
  using assms
  by (cases pl; cases pl')
    (auto simp: strtol_def long_min_def Let_def max_def min_def split: prod.splits if_splits)

lemma strtol_end: "strtol pl s = (v, e) \<Longrightarrow> \<exists>v'. strtol pl' s = (v', e)"
  by (auto simp: strtol_def Let_def split: prod.splits if_splits)

end
