(* ===== verification/Selection.thy ===== *)
theory Selection
  imports Text
begin

text \<open>
  The choice of probes and of cores (sdcprobe.cpp): \<open>parse_probe_selection\<close>,
  \<open>parse_cpu_selection\<close> and \<open>format_cpu_list\<close>, over the record of a logical processor of
  platform.hpp. An error is the message the code shows. The lemmas say what an accepted
  selection is, and that a printed list of cores is read back as the same list.
\<close>

section \<open>Probes\<close>

record probe_selection =
  sel_ch :: bool
  sel_rbx :: bool

definition probe_selection_init :: probe_selection where
  "probe_selection_init = \<lparr>sel_ch = True, sel_rbx = False\<rparr>"

definition probe_selection_name :: "probe_selection \<Rightarrow> string" where
  "probe_selection_name probes =
     (if sel_ch probes \<and> sel_rbx probes then ''all''
      else if sel_rbx probes then ''rbx'' else ''ch'')"

definition parse_probe_selection :: "string \<Rightarrow> probe_selection \<Rightarrow> probe_selection option" where
  \<comment> \<open>None: refused, and \<open>out\<close> keeps what it holds\<close>
  "parse_probe_selection input out =
     (let text = trim input in
      if text = [] then Some out
      else if equals_ignore_case text ''ch'' then Some (out\<lparr>sel_ch := True, sel_rbx := False\<rparr>)
      else if equals_ignore_case text ''rbx'' then Some (out\<lparr>sel_ch := False, sel_rbx := True\<rparr>)
      else if equals_ignore_case text ''all'' \<or> equals_ignore_case text ''both''
        then Some (out\<lparr>sel_ch := True, sel_rbx := True\<rparr>)
      else None)"

section \<open>Cores\<close>

record cpu_info =
  ci_index :: u32
  ci_group :: u16
  ci_in_group :: u32

definition k_max_core_index :: int where "k_max_core_index = 4095"

definition normalize :: "string \<Rightarrow> string" where
  "normalize text = map (\<lambda>c. if c = CHR '','' \<or> c = CHR '';'' then CHR '' '' else c) text"

definition cannot_parse :: "string \<Rightarrow> string" where
  "cannot_parse token = ''cannot parse '' @ [quote] @ token @ [quote]"

definition split_dash :: "string \<Rightarrow> (string \<times> string) option" where
  \<comment> \<open>the texts around the first dash, if there is one and it is not the first character\<close>
  "split_dash token =
     (let low_text = takeWhile (\<lambda>c. c \<noteq> CHR ''-'') token
      in if low_text = token \<or> low_text = [] then None
         else Some (low_text, drop (length low_text + 1) token))"

definition token_range :: "platform \<Rightarrow> string \<Rightarrow> string + int \<times> int" where
  "token_range pl token =
     (case split_dash token of
        Some (low_text, high_text) \<Rightarrow>
          (let (low, end_low) = strtol pl (c_str low_text) in
           if end_low \<noteq> [] \<or> low_text = [] then Inl (cannot_parse token)
           else let (high, end_high) = strtol pl (c_str high_text) in
             if end_high \<noteq> [] \<or> high_text = [] then Inl (cannot_parse token)
             else if high < low
               then Inl (''range '' @ [quote] @ token @ [quote] @ '' runs backwards'')
             else Inr (low, high))
      | None \<Rightarrow>
          (let (low, end_low) = strtol pl (c_str token) in
           if end_low \<noteq> [] then Inl (cannot_parse token) else Inr (low, low)))"

definition parse_token :: "platform \<Rightarrow> string \<Rightarrow> string + u32 list" where
  "parse_token pl token =
     (case token_range pl token of
        Inl err \<Rightarrow> Inl err
      | Inr (low, high) \<Rightarrow>
          if low < 0 then Inl (''negative core number in '' @ [quote] @ token @ [quote])
          else if k_max_core_index < high
            then Inl (''core number in '' @ [quote] @ token @ [quote] @ '' exceeds ''
                       @ dec_int k_max_core_index)
          else Inr (map word_of_int [low..high]))"

function parse_tokens :: "platform \<Rightarrow> string \<Rightarrow> u32 list \<Rightarrow> string + u32 list" where
  "parse_tokens pl normalized wanted =
     (let s = dropWhile (\<lambda>c. c = CHR '' '') normalized in
      if s = [] then Inr wanted
      else case parse_token pl (takeWhile (\<lambda>c. c \<noteq> CHR '' '') s) of
             Inl err \<Rightarrow> Inl err
           | Inr values \<Rightarrow> parse_tokens pl (dropWhile (\<lambda>c. c \<noteq> CHR '' '') s) (wanted @ values))"
  by pat_completeness auto
termination
proof (relation "measure (\<lambda>(_, normalized, _). length normalized)")
  fix normalized s :: string
  assume s: "s = dropWhile (\<lambda>c. c = CHR '' '') normalized" and "s \<noteq> []"
  then obtain c t where c: "s = c # t" by (meson list.exhaust)
  then have "c \<noteq> CHR '' ''" using s hd_dropWhile [of "\<lambda>c. c = CHR '' ''" normalized] by auto
  then have "length (dropWhile (\<lambda>c. c \<noteq> CHR '' '') s) < length s"
    unfolding c by (simp add: le_imp_less_Suc length_dropWhile_le)
  also have "length s \<le> length normalized" unfolding s by (rule length_dropWhile_le)
  finally show "((pl, dropWhile (\<lambda>c. c \<noteq> CHR '' '') s, w), (pl, normalized, w'))
      \<in> measure (\<lambda>(_, normalized, _). length normalized)" for pl w pl' w'
    by simp
qed simp

declare parse_tokens.simps [simp del]

definition find_cpu :: "u32 \<Rightarrow> cpu_info list \<Rightarrow> cpu_info option" where
  "find_cpu index cpus = find (\<lambda>cpu. ci_index cpu = index) cpus"

fun select_cpus :: "cpu_info list \<Rightarrow> u32 list \<Rightarrow> cpu_info list \<Rightarrow> string + cpu_info list" where
  "select_cpus available [] out = Inr out"
| "select_cpus available (index # wanted) out =
     (case find_cpu index available of
        None \<Rightarrow> Inl (''core '' @ dec (unat index) @ '' is not available to this process'')
      | Some found \<Rightarrow>
          select_cpus available wanted (if find_cpu index out = None then out @ [found] else out))"

definition parse_cpu_selection :: "platform \<Rightarrow> string \<Rightarrow> cpu_info list \<Rightarrow> string + cpu_info list" where
  "parse_cpu_selection pl input available =
     (let text = trim input in
      if text = [] \<or> equals_ignore_case text ''all'' then Inr available
      else case parse_tokens pl (normalize text) [] of
             Inl err \<Rightarrow> Inl err
           | Inr wanted \<Rightarrow>
               if wanted = [] then Inl ''no cores given'' else select_cpus available wanted [])"

section \<open>Printing a list of cores\<close>

function run_end :: "cpu_info list \<Rightarrow> nat \<Rightarrow> nat" where
  "run_end cpus j =
     (if j + 1 < length cpus \<and> ci_index (cpus ! (j + 1)) = ci_index (cpus ! j) + 1
      then run_end cpus (j + 1) else j)"
  by pat_completeness auto
termination by (relation "measure (\<lambda>(cpus, j). length cpus - j)") auto

declare run_end.simps [simp del]

lemma run_end_ge: "j \<le> run_end cpus j"
  by (induction cpus j rule: run_end.induct) (subst run_end.simps, auto)

function format_from :: "cpu_info list \<Rightarrow> nat \<Rightarrow> string \<Rightarrow> string" where
  "format_from cpus i text =
     (if i < length cpus then
        let j = run_end cpus i;
            text = (if text = [] then text else text @ '','');
            text = text @ dec (unat (ci_index (cpus ! i)));
            text = (if j > i then text @ ''-'' @ dec (unat (ci_index (cpus ! j))) else text)
        in format_from cpus (j + 1) text
      else text)"
  by pat_completeness auto
termination
  by (relation "measure (\<lambda>(cpus, i, _). length cpus - i)")
    (auto simp: diff_less_mono2 le_imp_less_Suc run_end_ge)

declare format_from.simps [simp del]

definition format_cpu_list :: "cpu_info list \<Rightarrow> string" where
  "format_cpu_list cpus = (if cpus = [] then ''(none)'' else format_from cpus 0 [])"

section \<open>What is accepted\<close>

lemma find_cpu_SomeD: "find_cpu index cpus = Some cpu \<Longrightarrow> cpu \<in> set cpus \<and> ci_index cpu = index"
  by (auto simp: find_cpu_def find_Some_iff)

lemma find_cpu_None: "find_cpu index cpus = None \<longleftrightarrow> index \<notin> set (map ci_index cpus)"
  by (auto simp: find_cpu_def find_None_iff)

lemma select_cpus_ok:
  assumes "select_cpus available wanted out = Inr res" and "distinct (map ci_index out)"
    and "set out \<subseteq> set available"
  shows "distinct (map ci_index res) \<and> set res \<subseteq> set available
    \<and> ci_index ` set res = ci_index ` set out \<union> set wanted"
  using assms
proof (induction available wanted out rule: select_cpus.induct)
  case (2 available index wanted out)
  obtain found where found: "find_cpu index available = Some found"
    using 2(2) by (auto split: option.splits)
  then have "found \<in> set available" "ci_index found = index" by (auto dest: find_cpu_SomeD)
  with 2(1) [OF found] 2(2-4) found show ?case
    by (auto simp: find_cpu_None split: if_splits)
qed simp

lemma parse_token_range:
  assumes "parse_token pl token = Inr values" and "v \<in> set values"
  shows "unat v \<le> 4095"
proof -
  obtain low high where "token_range pl token = Inr (low, high)" "0 \<le> low" "high \<le> 4095"
      "values = map word_of_int [low..high]"
    using assms(1) by (auto simp: parse_token_def k_max_core_index_def split: sum.splits if_splits)
  then obtain i where i: "v = word_of_int i" "0 \<le> i" "i \<le> 4095" using assms(2) by auto
  then obtain n where "i = int n" using nonneg_int_cases by blast
  with i show ?thesis by (simp add: unat_of_nat take_bit_nat_eq_self_iff)
qed

lemma parse_tokens_cases:
  assumes "parse_tokens pl normalized wanted = Inr res"
  obtains (finished) "dropWhile (\<lambda>c. c = CHR '' '') normalized = []" "res = wanted"
    | (token) s vals where "s = dropWhile (\<lambda>c. c = CHR '' '') normalized" "s \<noteq> []"
        "parse_token pl (takeWhile (\<lambda>c. c \<noteq> CHR '' '') s) = Inr vals"
        "parse_tokens pl (dropWhile (\<lambda>c. c \<noteq> CHR '' '') s) (wanted @ vals) = Inr res"
proof (cases "dropWhile (\<lambda>c. c = CHR '' '') normalized = []")
  case True
  then show ?thesis using assms finished by (simp add: parse_tokens.simps [of _ normalized])
next
  case False
  then show ?thesis
    using assms token [OF refl False]
    by (simp only: parse_tokens.simps [of _ normalized] Let_def if_False split: sum.splits) simp
qed

lemma parse_tokens_range:
  "parse_tokens pl normalized wanted = Inr res \<Longrightarrow> \<forall>v\<in>set wanted. unat v \<le> 4095
    \<Longrightarrow> \<forall>v\<in>set res. unat v \<le> 4095"
proof (induction pl normalized wanted rule: parse_tokens.induct)
  case (1 pl normalized wanted)
  from 1(2) show ?case
  proof (cases rule: parse_tokens_cases)
    case finished
    with 1(3) show ?thesis by simp
  next
    case (token s vals)
    have "\<forall>v\<in>set (wanted @ vals). unat v \<le> 4095"
      using 1(3) parse_token_range [OF token(3)] by auto
    with 1(1) [OF token(1-4)] show ?thesis .
  qed
qed

lemma selection_fit:
  assumes "parse_cpu_selection pl input available = Inr out" and "available \<noteq> []"
    and "distinct (map ci_index available)"
  shows "out \<noteq> [] \<and> distinct (map ci_index out) \<and> set out \<subseteq> set available
    \<and> (out = available \<or> (\<forall>cpu\<in>set out. unat (ci_index cpu) \<le> 4095))"
proof (cases "trim input = [] \<or> equals_ignore_case (trim input) ''all''")
  case True
  with assms show ?thesis by (simp add: parse_cpu_selection_def Let_def)
next
  case False
  then obtain wanted where w: "parse_tokens pl (normalize (trim input)) [] = Inr wanted" "wanted \<noteq> []"
      "select_cpus available wanted [] = Inr out"
    using assms(1) by (auto simp: parse_cpu_selection_def Let_def split: sum.splits if_splits)
  have "\<forall>v\<in>set wanted. unat v \<le> 4095" using parse_tokens_range [OF w(1)] by simp
  with select_cpus_ok [OF w(3)] w(2) show ?thesis by auto
qed

text \<open>
  Property C36: an accepted core list is fit for a sweep: it is not empty, no core is in it
  twice, every core is one of those available, and a list given by numbers holds only numbers
  up to 4095.
\<close>

theorem selection_sound:
  assumes "parse_cpu_selection pl input available = Inr out" and "available \<noteq> []"
    and "distinct (map ci_index available)"
  shows "out \<noteq> [] \<and> distinct (map ci_index out) \<and> set out \<subseteq> set available
    \<and> (out = available \<or> (\<forall>cpu\<in>set out. unat (ci_index cpu) \<le> 4095))"
  using assms by (rule selection_fit)

section \<open>One grammar on both platforms\<close>

lemma token_range_dash:
  assumes "split_dash token = Some (lt, ht)"
  shows "token_range pl token = Inr (low, high) \<longleftrightarrow>
    strtol pl (c_str lt) = (low, []) \<and> lt \<noteq> [] \<and> strtol pl (c_str ht) = (high, []) \<and> ht \<noteq> [] \<and> low \<le> high"
proof -
  obtain a as b bs where "strtol pl (c_str lt) = (a, as)" "strtol pl (c_str ht) = (b, bs)"
    by (meson surj_pair)
  then show ?thesis by (auto simp: token_range_def assms)
qed

lemma token_range_plain:
  assumes "split_dash token = None"
  shows "token_range pl token = Inr (low, high) \<longleftrightarrow> strtol pl (c_str token) = (low, []) \<and> high = low"
proof -
  obtain a as where "strtol pl (c_str token) = (a, as)" by (meson surj_pair)
  then show ?thesis by (auto simp: token_range_def assms)
qed

lemma parse_token_Inr:
  "parse_token pl token = Inr values \<longleftrightarrow>
     (\<exists>low high. token_range pl token = Inr (low, high) \<and> 0 \<le> low \<and> high \<le> 4095
        \<and> values = map word_of_int [low..high])"
  by (cases "token_range pl token") (auto simp: parse_token_def k_max_core_index_def split: if_splits)

lemma parse_token_platform:
  assumes "parse_token pl token = Inr values"
  shows "parse_token pl' token = Inr values"
proof -
  obtain low high where r: "token_range pl token = Inr (low, high)" "0 \<le> low" "high \<le> 4095"
      "values = map word_of_int [low..high]"
    using assms by (auto simp: parse_token_Inr)
  have "token_range pl' token = Inr (low, high)"
  proof (cases "split_dash token")
    case None
    with r strtol_small [of pl "c_str token" low "[]" pl'] show ?thesis
      by (simp add: token_range_plain)
  next
    case (Some texts)
    then obtain lt ht where t: "split_dash token = Some (lt, ht)" by (cases texts) simp
    with r strtol_small [of pl "c_str lt" low "[]" pl'] strtol_small [of pl "c_str ht" high "[]" pl']
    show ?thesis by (simp add: token_range_dash [OF t])
  qed
  with r show ?thesis by (auto simp: parse_token_Inr)
qed

lemma parse_tokens_platform:
  "parse_tokens pl normalized wanted = Inr res \<Longrightarrow> parse_tokens pl' normalized wanted = Inr res"
proof (induction pl normalized wanted rule: parse_tokens.induct)
  case (1 pl normalized wanted)
  from 1(2) show ?case
  proof (cases rule: parse_tokens_cases)
    case finished
    then show ?thesis by (simp add: parse_tokens.simps [of _ normalized])
  next
    case (token s vals)
    with 1(1) [OF token(1-4)] parse_token_platform [OF token(3), of pl'] show ?thesis
      by (subst parse_tokens.simps) (simp add: Let_def del: dropWhile_eq_Nil_conv)
  qed
qed

text \<open>
  Which core lists are accepted, and as what, does not depend on the width of
  \<open>long\<close>: a list accepted on one platform is accepted on the other with the same result.
\<close>

lemma selection_portable:
  assumes "parse_cpu_selection pl input available = Inr out"
  shows "parse_cpu_selection pl' input available = Inr out"
  using assms parse_tokens_platform [of pl "normalize (trim input)" "[]" _ pl']
  by (auto simp: parse_cpu_selection_def Let_def split: sum.splits if_splits)

section \<open>A printed list is read back\<close>

text \<open>The text of the run that starts at core \<open>i\<close>, and of the runs that follow, comma first.\<close>

definition run_text :: "cpu_info list \<Rightarrow> nat \<Rightarrow> string" where
  "run_text cpus i =
     (let j = run_end cpus i in
      dec (unat (ci_index (cpus ! i))) @ (if j > i then ''-'' @ dec (unat (ci_index (cpus ! j))) else []))"

function tail_text :: "cpu_info list \<Rightarrow> nat \<Rightarrow> string" where
  "tail_text cpus i =
     (if i < length cpus then '','' @ run_text cpus i @ tail_text cpus (run_end cpus i + 1) else [])"
  by pat_completeness auto
termination
  by (relation "measure (\<lambda>(cpus, i). length cpus - i)")
    (auto simp: diff_less_mono2 le_imp_less_Suc run_end_ge)

declare tail_text.simps [simp del]

lemma run_text_nonempty [simp]: "run_text cpus i \<noteq> []"
  by (simp add: run_text_def Let_def)

lemma format_from_tail: "text \<noteq> [] \<Longrightarrow> format_from cpus i text = text @ tail_text cpus i"
proof (induction cpus i "text" rule: format_from.induct)
  case (1 cpus i "text")
  show ?case
  proof (cases "i < length cpus")
    case True
    have "format_from cpus i text = format_from cpus (run_end cpus i + 1) (text @ '','' @ run_text cpus i)"
      using True 1(2) by (subst format_from.simps) (simp add: run_text_def Let_def)
    also have "\<dots> = (text @ '','' @ run_text cpus i) @ tail_text cpus (run_end cpus i + 1)"
      using 1(1) [OF True refl refl refl refl] 1(2) by (cases "i < run_end cpus i") (simp_all add: run_text_def Let_def)
    finally show ?thesis using True by (simp add: tail_text.simps [of cpus i])
  next
    case False
    then show ?thesis by (simp add: format_from.simps [of cpus i] tail_text.simps [of cpus i])
  qed
qed

lemma format_cpu_list_runs:
  assumes "cpus \<noteq> []"
  shows "format_cpu_list cpus = run_text cpus 0 @ tail_text cpus (run_end cpus 0 + 1)"
proof -
  have "format_cpu_list cpus = format_from cpus (run_end cpus 0 + 1) (run_text cpus 0)"
    using assms by (simp add: format_cpu_list_def, subst format_from.simps) (simp add: run_text_def Let_def)
  then show ?thesis by (simp add: format_from_tail)
qed

text \<open>What a run covers.\<close>

definition small_cpus :: "cpu_info list \<Rightarrow> bool" where
  "small_cpus cpus \<longleftrightarrow> (\<forall>cpu\<in>set cpus. unat (ci_index cpu) \<le> 4095)"

lemma small_nth: "small_cpus cpus \<Longrightarrow> i < length cpus \<Longrightarrow> unat (ci_index (cpus ! i)) \<le> 4095"
  by (simp add: small_cpus_def)

lemma run_end_run:
  "small_cpus cpus \<Longrightarrow> i < length cpus \<Longrightarrow> run_end cpus i < length cpus
    \<and> (\<forall>k\<le>run_end cpus i - i. unat (ci_index (cpus ! (i + k))) = unat (ci_index (cpus ! i)) + k)"
proof (induction cpus i rule: run_end.induct)
  case (1 cpus i)
  show ?case
  proof (cases "i + 1 < length cpus \<and> ci_index (cpus ! (i + 1)) = ci_index (cpus ! i) + 1")
    case True
    then have more: "run_end cpus i = run_end cpus (i + 1)" by (subst run_end.simps) simp
    have step: "unat (ci_index (cpus ! (i + 1))) = unat (ci_index (cpus ! i)) + 1"
      using True small_nth [OF 1(2,3)] by (simp add: unat_word_ariths)
    have IH: "run_end cpus (i + 1) < length cpus"
      "\<forall>k\<le>run_end cpus (i + 1) - (i + 1). unat (ci_index (cpus ! (i + 1 + k))) = unat (ci_index (cpus ! (i + 1))) + k"
      using 1(1) [OF True 1(2)] True by simp_all
    have "unat (ci_index (cpus ! (i + k))) = unat (ci_index (cpus ! i)) + k"
      if "k \<le> run_end cpus i - i" for k
      using that IH(2) step more by (cases k) (auto dest: spec [of _ "k - 1"])
    with IH(1) more show ?thesis by simp
  next
    case False
    then have "run_end cpus i = i" by (subst run_end.simps) (simp only: if_False)
    with 1(3) show ?thesis by simp
  qed
qed

lemma run_end_in:
  assumes "small_cpus cpus" "i < length cpus"
  shows "run_end cpus i < length cpus" "i \<le> run_end cpus i"
    "unat (ci_index (cpus ! run_end cpus i)) = unat (ci_index (cpus ! i)) + (run_end cpus i - i)"
  using run_end_run [OF assms] run_end_ge [of i cpus] by auto

lemma unat_of_nat_back: "of_nat (unat w) = w" for w :: u32
  by simp

lemma run_indices:
  assumes "small_cpus cpus" "i < length cpus"
  shows "map word_of_int [int (unat (ci_index (cpus ! i)))..int (unat (ci_index (cpus ! run_end cpus i)))]
    = map ci_index (take (run_end cpus i + 1 - i) (drop i cpus))"
proof (rule nth_equalityI)
  note in_run = run_end_in [OF assms]
  let ?a = "unat (ci_index (cpus ! i))" and ?m = "run_end cpus i - i"
  have len: "length [int ?a..int (?a + ?m)] = ?m + 1" by simp
  show "length (map word_of_int [int ?a..int (unat (ci_index (cpus ! run_end cpus i)))])
      = length (map ci_index (take (run_end cpus i + 1 - i) (drop i cpus)))"
    using in_run by simp
  fix k
  assume "k < length (map word_of_int [int ?a..int (unat (ci_index (cpus ! run_end cpus i)))] :: u32 list)"
  then have k: "k \<le> ?m" using in_run by simp
  then have "unat (ci_index (cpus ! (i + k))) = ?a + k" using run_end_run [OF assms] by simp
  then have "word_of_int (int ?a + int k) = ci_index (cpus ! (i + k))"
    by (metis of_nat_add of_int_of_nat_eq unat_of_nat_back)
  then show "map word_of_int [int ?a..int (unat (ci_index (cpus ! run_end cpus i)))] ! k
      = map ci_index (take (run_end cpus i + 1 - i) (drop i cpus)) ! k"
    using k in_run by (simp add: nth_upto)
qed

text \<open>The text of a run is one token.\<close>

lemma not_digits [simp]: "\<not> isdigit (CHR '' '')" "\<not> isdigit (CHR '','')" "\<not> isdigit (CHR '';'')"
  "\<not> isdigit (CHR ''-'')"
  by (simp_all add: isdigit_def)

lemma dec_chars: "c \<in> set (dec n) \<Longrightarrow> isdigit c"
  using dec_isdigit [of n] by (auto simp: list_all_iff)

lemma c_str_dec [simp]: "c_str (dec n) = dec n"
  by (rule c_str_plain) (use dec_chars isdigit_plain in blast)

lemma run_text_chars: "c \<in> set (run_text cpus i) \<Longrightarrow> isdigit c \<or> c = CHR ''-''"
  by (auto simp: run_text_def Let_def split: if_splits dest: dec_chars)

lemma takeWhile_dec: "takeWhile (\<lambda>c. c \<noteq> CHR ''-'') (dec n @ s) = dec n @ takeWhile (\<lambda>c. c \<noteq> CHR ''-'') s"
  by (rule takeWhile_append2) (use dec_chars isdigit_plain in blast)

lemma number_tokens:
  assumes "n \<le> 4095"
  shows "token_range pl (dec n) = Inr (int n, int n)"
    and "m \<le> n \<Longrightarrow> token_range pl (dec m @ ''-'' @ dec n) = Inr (int m, int n)"
proof -
  have num: "strtol pl (dec n) = (int n, [])" if "n \<le> 4095" for n
    using strtol_dec [of n pl "[]"] that by (cases pl) simp_all
  have "split_dash (dec n) = None"
    using takeWhile_dec [of n "[]"] by (simp add: split_dash_def)
  then show "token_range pl (dec n) = Inr (int n, int n)"
    using assms by (simp add: token_range_plain num)
  have "split_dash (dec m @ ''-'' @ dec n) = Some (dec m, dec n)"
    by (simp add: split_dash_def takeWhile_dec Let_def)
  then show "token_range pl (dec m @ ''-'' @ dec n) = Inr (int m, int n)" if "m \<le> n"
    using assms that by (simp add: token_range_dash num)
qed

lemma parse_run:
  assumes "small_cpus cpus" "i < length cpus"
  shows "parse_token pl (run_text cpus i) = Inr (map ci_index (take (run_end cpus i + 1 - i) (drop i cpus)))"
proof -
  let ?j = "run_end cpus i"
  note in_run = run_end_in [OF assms]
  let ?a = "unat (ci_index (cpus ! i))" and ?b = "unat (ci_index (cpus ! ?j))"
  have b: "?b \<le> 4095" "?a \<le> ?b" using small_nth [OF assms(1) in_run(1)] in_run(3) by simp_all
  have "token_range pl (run_text cpus i) = Inr (int ?a, int ?b)"
  proof (cases "?j > i")
    case True
    then have "run_text cpus i = dec ?a @ ''-'' @ dec ?b" by (simp add: run_text_def Let_def)
    then show ?thesis using number_tokens(2) [OF b(1,2), of pl] by (simp only:)
  next
    case False
    then have "?j = i" using in_run by simp
    then have "run_text cpus i = dec ?b" by (simp add: run_text_def Let_def)
    then show ?thesis using number_tokens(1) [OF b(1), of pl] \<open>?j = i\<close> by (simp only:)
  qed
  moreover have "int ?b \<le> 4095" using b(1) by linarith
  ultimately show ?thesis
    unfolding parse_token_Inr run_indices [OF assms, symmetric] by (intro exI conjI) auto
qed

lemma normalize_digits:
  assumes "\<And>c. c \<in> set s \<Longrightarrow> isdigit c \<or> c = CHR ''-''"
  shows "normalize s = s"
  unfolding normalize_def by (rule map_idI) (use assms in fastforce)

lemma run_text_plain:
  "takeWhile (\<lambda>c. c \<noteq> CHR '' '') (run_text cpus i @ s) = run_text cpus i @ takeWhile (\<lambda>c. c \<noteq> CHR '' '') s"
  "dropWhile (\<lambda>c. c \<noteq> CHR '' '') (run_text cpus i @ s) = dropWhile (\<lambda>c. c \<noteq> CHR '' '') s"
  "dropWhile (\<lambda>c. c = CHR '' '') (run_text cpus i @ s) = run_text cpus i @ s"
proof -
  have plain: "c \<noteq> CHR '' ''" if "c \<in> set (run_text cpus i)" for c
    using run_text_chars [OF that] isdigit_plain by auto
  then show "takeWhile (\<lambda>c. c \<noteq> CHR '' '') (run_text cpus i @ s) = run_text cpus i @ takeWhile (\<lambda>c. c \<noteq> CHR '' '') s"
    "dropWhile (\<lambda>c. c \<noteq> CHR '' '') (run_text cpus i @ s) = dropWhile (\<lambda>c. c \<noteq> CHR '' '') s"
    by (simp_all add: takeWhile_append2 dropWhile_append2)
  show "dropWhile (\<lambda>c. c = CHR '' '') (run_text cpus i @ s) = run_text cpus i @ s"
    using plain by (cases "run_text cpus i") auto
qed

lemma normalize_append [simp]: "normalize (s @ t) = normalize s @ normalize t"
  by (simp add: normalize_def)

lemma normalize_comma: "normalize (CHR '','' # s) = CHR '' '' # normalize s"
  by (simp add: normalize_def)

lemma normalize_run [simp]: "normalize (run_text cpus i) = run_text cpus i"
  by (rule normalize_digits) (rule run_text_chars)

lemma tail_head: "normalize (tail_text cpus i) = [] \<or> hd (normalize (tail_text cpus i)) = CHR '' ''"
  by (subst tail_text.simps, subst (2) tail_text.simps) (simp add: normalize_def)

lemma tail_stops:
  "takeWhile (\<lambda>c. c \<noteq> CHR '' '') (normalize (tail_text cpus i)) = []"
  "dropWhile (\<lambda>c. c \<noteq> CHR '' '') (normalize (tail_text cpus i)) = normalize (tail_text cpus i)"
  using tail_head [of cpus i] by (cases "normalize (tail_text cpus i)"; simp)+

lemma parse_run_tail:
  assumes "small_cpus cpus" "i < length cpus"
    and rest: "\<And>w. parse_tokens pl (normalize (tail_text cpus (run_end cpus i + 1))) w
      = Inr (w @ map ci_index (drop (run_end cpus i + 1) cpus))"
  shows "parse_tokens pl (run_text cpus i @ normalize (tail_text cpus (run_end cpus i + 1))) w
    = Inr (w @ map ci_index (drop i cpus))"
proof -
  have "drop i cpus = take (run_end cpus i + 1 - i) (drop i cpus) @ drop (run_end cpus i + 1) cpus"
    using run_end_in [OF assms(1,2)] by (metis (no_types) add.commute append_take_drop_id drop_drop
        le_add_diff_inverse2 trans_le_add1)
  then have "map ci_index (drop i cpus)
      = map ci_index (take (run_end cpus i + 1 - i) (drop i cpus)) @ map ci_index (drop (run_end cpus i + 1) cpus)"
    by (metis map_append)
  then show ?thesis
    by (subst parse_tokens.simps)
      (simp add: Let_def run_text_plain tail_stops parse_run [OF assms(1,2), simplified] rest [simplified] del: dropWhile_eq_Nil_conv)
qed

lemma parse_tail:
  "small_cpus cpus \<Longrightarrow> parse_tokens pl (normalize (tail_text cpus i)) w = Inr (w @ map ci_index (drop i cpus))"
proof (induction cpus i arbitrary: w rule: tail_text.induct)
  case (1 cpus i)
  show ?case
  proof (cases "i < length cpus")
    case True
    then have "normalize (tail_text cpus i)
        = CHR '' '' # run_text cpus i @ normalize (tail_text cpus (run_end cpus i + 1))"
      by (subst tail_text.simps) (simp add: normalize_comma)
    moreover have "parse_tokens pl (CHR '' '' # s) w = parse_tokens pl s w" for s
      by (simp only: parse_tokens.simps [of _ "CHR '' '' # s"] parse_tokens.simps [of _ s] dropWhile.simps if_True refl)
    ultimately show ?thesis
      using parse_run_tail [OF 1(2) True, of pl w] 1(1) [OF True 1(2)] by simp
  next
    case False
    then show ?thesis by (simp add: tail_text.simps [of cpus i] parse_tokens.simps [of _ "[]"] normalize_def)
  qed
qed

lemma select_all:
  "distinct (map ci_index (out @ cpus)) \<Longrightarrow> \<forall>cpu\<in>set cpus. find_cpu (ci_index cpu) available = Some cpu
    \<Longrightarrow> select_cpus available (map ci_index cpus) out = Inr (out @ cpus)"
proof (induction cpus arbitrary: out)
  case (Cons cpu cpus)
  then have "find_cpu (ci_index cpu) out = None" by (auto simp: find_cpu_None)
  with Cons show ?case by simp
qed simp

lemma dec_ends [simp]: "isdigit (hd (dec n))" "isdigit (last (dec n))"
  by (rule dec_chars [of _ n], simp)+

lemma last_run_text: "isdigit (last (run_text cpus i))"
  by (simp add: run_text_def Let_def)

lemma last_tail: "small_cpus cpus \<Longrightarrow> i < length cpus \<Longrightarrow> isdigit (last (tail_text cpus i))"
proof (induction cpus i rule: tail_text.induct)
  case (1 cpus i)
  then show ?case
    by (cases "run_end cpus i + 1 < length cpus")
      (simp_all add: last_run_text tail_text.simps [of cpus i] tail_text.simps [of cpus "Suc (run_end cpus i)"])
qed

text \<open>
  Property C35: a printed core list is read back. The compact form the header and the report
  show (\<open>0-7,16,20-23\<close>) is accepted by \<open>--cores\<close> on either platform and selects the same cores in
  the same order.
\<close>

theorem format_parse_roundtrip:
  assumes "cpus \<noteq> []" and "distinct (map ci_index cpus)" and "set cpus \<subseteq> set available"
    and "distinct (map ci_index available)" and "\<forall>cpu\<in>set cpus. unat (ci_index cpu) \<le> 4095"
  shows "parse_cpu_selection pl (format_cpu_list cpus) available = Inr cpus"
proof -
  have small: "small_cpus cpus" using assms(5) by (simp add: small_cpus_def)
  let ?text = "format_cpu_list cpus"
  have runs: "?text = run_text cpus 0 @ tail_text cpus (run_end cpus 0 + 1)"
    using assms(1) by (rule format_cpu_list_runs)
  have hd: "isdigit (hd ?text)" unfolding runs by (simp add: run_text_def Let_def)
  have last: "isdigit (last ?text)"
  proof (cases "run_end cpus 0 + 1 < length cpus")
    case True
    moreover from True have "tail_text cpus (run_end cpus 0 + 1) \<noteq> []" by (subst tail_text.simps) simp
    ultimately show ?thesis unfolding runs using last_tail [OF small] by simp
  next
    case False
    then show ?thesis unfolding runs by (simp add: tail_text.simps last_run_text)
  qed
  have "?text \<noteq> []" unfolding runs by simp
  then have trimmed: "trim ?text = ?text" using hd last by (intro trim_plain) (auto simp: isdigit_plain)
  have "hd (map lower ?text) = hd ?text" using \<open>?text \<noteq> []\<close> hd by (simp add: hd_map isdigit_plain(11))
  then have "\<not> equals_ignore_case ?text ''all''"
    using hd by (auto simp: equals_ignore_case_eq isdigit_def lower_def)
  moreover have "parse_tokens pl (normalize ?text) [] = Inr (map ci_index cpus)"
    using parse_run_tail [OF small _ parse_tail [OF small], of 0 pl "[]"] assms(1)
    by (simp add: runs)
  moreover have "find_cpu (ci_index cpu) available = Some cpu" if "cpu \<in> set cpus" for cpu
  proof -
    have "cpu \<in> set available" using assms(3) that by blast
    then obtain c where c: "find_cpu (ci_index cpu) available = Some c"
      by (cases "find_cpu (ci_index cpu) available") (auto simp: find_cpu_None)
    then have "c \<in> set available" "ci_index c = ci_index cpu" by (auto dest: find_cpu_SomeD)
    with \<open>cpu \<in> set available\<close> assms(4) have "c = cpu" by (auto simp: distinct_map inj_on_def)
    with c show ?thesis by simp
  qed
  then have "select_cpus available (map ci_index cpus) [] = Inr cpus"
    using select_all [of "[]" cpus available] assms(2) by simp
  ultimately show ?thesis
    using \<open>?text \<noteq> []\<close> assms(1) by (simp add: parse_cpu_selection_def trimmed Let_def)
qed

section \<open>Witnesses\<close>

definition four_cpus :: "cpu_info list" where
  "four_cpus = map (\<lambda>i. \<lparr>ci_index = i, ci_group = 0, ci_in_group = i\<rparr>) [0, 1, 2, 5]"

lemma format_parse_roundtrip_witness:
  "format_cpu_list four_cpus = ''0-2,5''
     \<and> parse_cpu_selection Windows (format_cpu_list four_cpus) four_cpus = Inr four_cpus"
proof
  show "format_cpu_list four_cpus = ''0-2,5''" by code_simp
  show "parse_cpu_selection Windows (format_cpu_list four_cpus) four_cpus = Inr four_cpus"
    by (rule format_parse_roundtrip) (auto simp: four_cpus_def)
qed

lemma two_cpus_parsed:
  "parse_cpu_selection Linux ''1, 0'' four_cpus = Inr [four_cpus ! 1, four_cpus ! 0]"
  by code_simp

lemma selection_sound_witness: "distinct (map ci_index [four_cpus ! 1, four_cpus ! 0])"
proof -
  have "four_cpus \<noteq> []" "distinct (map ci_index four_cpus)" by (simp_all add: four_cpus_def)
  then show ?thesis using selection_sound [OF two_cpus_parsed] by blast
qed

end
