(* ===== verification/Platform.thy ===== *)
theory Platform
  imports Selection
begin

text \<open>
  The platform layer (platform.cpp, platform.hpp), both of its halves: the logical processors
  available to the process, pinning and its verification, the interrupt flag, mapping memory at
  a fixed address, the thread pointer the payload reads, and the capture of hardware exceptions.
  What the operating system answers is an argument of each operation.
\<close>

section \<open>Interrupts\<close>

datatype console_event = Ctrl_C | Ctrl_Break | Ctrl_Close | Ctrl_Logoff | Ctrl_Shutdown | Ctrl_Other nat

fun on_interrupt :: "bool \<Rightarrow> bool" where
  \<comment> \<open>the new value of \<open>g_interrupt\<close>\<close>
  "on_interrupt g_interrupt = True"

fun on_console_ctrl :: "console_event \<Rightarrow> bool \<Rightarrow> bool \<times> bool" where
  \<comment> \<open>whether the event was handled, and \<open>g_interrupt\<close>\<close>
  "on_console_ctrl (Ctrl_Other n) g_interrupt = (False, g_interrupt)"
| "on_console_ctrl _ g_interrupt = (True, True)"

text \<open>
  What can ask the program to stop, and what a request does once the handlers are installed: the
  new value of \<open>g_interrupt\<close>, or None if the default action ends the process.
\<close>

datatype stop_request = Interrupt_Signal | Terminate_Signal | Console console_event

fun sdc_install_interrupt_handler :: "platform \<Rightarrow> stop_request \<Rightarrow> bool \<Rightarrow> bool option" where
  "sdc_install_interrupt_handler Linux Interrupt_Signal g_interrupt = Some (on_interrupt g_interrupt)"
| "sdc_install_interrupt_handler Linux Terminate_Signal g_interrupt = Some (on_interrupt g_interrupt)"
| "sdc_install_interrupt_handler Linux (Console event) g_interrupt = None"
| "sdc_install_interrupt_handler Windows Interrupt_Signal g_interrupt = Some (on_interrupt g_interrupt)"
| "sdc_install_interrupt_handler Windows Terminate_Signal g_interrupt = None"
| "sdc_install_interrupt_handler Windows (Console event) g_interrupt =
     (let (handled, g_interrupt) = on_console_ctrl event g_interrupt in if handled then Some g_interrupt else None)"

section \<open>Names\<close>

fun sdc_platform_name :: "platform \<Rightarrow> string" where
  "sdc_platform_name Windows = ''windows''"
| "sdc_platform_name Linux = ''linux''"

section \<open>Logical processors\<close>

definition k_cpu_setsize :: nat where "k_cpu_setsize = 1024"

definition plain_cpu :: "nat \<Rightarrow> cpu_info" where
  "plain_cpu cpu = \<lparr>ci_index = of_nat cpu, ci_group = 0, ci_in_group = of_nat cpu\<rparr>"

definition enumerate_linux :: "(nat \<Rightarrow> bool) option \<Rightarrow> int \<Rightarrow> cpu_info list" where
  \<comment> \<open>the answers of \<open>sched_getaffinity\<close> (None: it failed) and of \<open>sysconf\<close>\<close>
  "enumerate_linux affinity online =
     (let cpus = (case affinity of
                    None \<Rightarrow> []
                  | Some cpu_set \<Rightarrow> map plain_cpu (filter cpu_set [0..<k_cpu_setsize]))
      in if cpus \<noteq> [] then cpus else map plain_cpu [0..<nat online])"

definition enumerate_groups :: "nat \<Rightarrow> (nat \<Rightarrow> nat) \<Rightarrow> cpu_info list" where
  "enumerate_groups group_count count =
     snd (fold (\<lambda>group. fold (\<lambda>in_group (global_index, cpus).
            (global_index + 1,
             cpus @ [\<lparr>ci_index = global_index, ci_group = of_nat group, ci_in_group = of_nat in_group\<rparr>]))
          [0..<count group]) [0..<group_count] (0, []))"

definition enumerate_windows :: "nat \<Rightarrow> u64 option \<Rightarrow> (nat \<Rightarrow> nat) \<Rightarrow> cpu_info list" where
  \<comment> \<open>the number of processor groups, the process mask (None: the query failed) and the number
    of processors in each group\<close>
  "enumerate_windows group_count process_mask count =
     (case process_mask of
        Some bits \<Rightarrow>
          if group_count \<le> 1 \<and> bits \<noteq> 0 then map plain_cpu (filter (bit bits) [0..<64])
          else enumerate_groups group_count count
      | None \<Rightarrow> enumerate_groups group_count count)"

section \<open>Pinning\<close>

definition pin_mask_linux :: "cpu_info \<Rightarrow> nat set" where
  \<comment> \<open>the set asked for: \<open>CPU_SET\<close> ignores a number outside the set\<close>
  "pin_mask_linux cpu = (if unat (ci_in_group cpu) < k_cpu_setsize then {unat (ci_in_group cpu)} else {})"

definition pin_mask_windows :: "cpu_info \<Rightarrow> (u16 \<times> u64) option" where
  \<comment> \<open>the group and the mask; a shift by 64 or more is undefined\<close>
  "pin_mask_windows cpu =
     (if unat (ci_in_group cpu) < 64
      then Some (ci_group cpu, push_bit (unat (ci_in_group cpu)) 1) else None)"

definition pin_mismatch_linux :: "nat \<Rightarrow> nat \<Rightarrow> string" where
  \<comment> \<open>\<open>snprintf\<close> into 160 characters\<close>
  "pin_mismatch_linux n count =
     take 159 (''requested cpu '' @ dec n @ '', but affinity mask has '' @ dec count @ '' cpu(s)'')"

definition verify_pin_linux :: "(nat \<Rightarrow> bool) option \<Rightarrow> cpu_info \<Rightarrow> string" where
  "verify_pin_linux affinity cpu =
     (case affinity of
        None \<Rightarrow> ''sched_getaffinity failed''
      | Some cpu_set \<Rightarrow>
          let count = length (filter cpu_set [0..<k_cpu_setsize]);
              n = unat (ci_in_group cpu)
          in if count \<noteq> 1 \<or> \<not> (n < k_cpu_setsize \<and> cpu_set n)
             then pin_mismatch_linux n count else [])"

definition verify_pin_windows :: "u16 \<times> u32 \<Rightarrow> cpu_info \<Rightarrow> string" where
  \<comment> \<open>the group and number of the processor the thread runs on\<close>
  "verify_pin_windows current cpu =
     (if fst current \<noteq> ci_group cpu \<or> snd current \<noteq> ci_in_group cpu
      then take 159 (''requested group '' @ dec (unat (ci_group cpu)) @ '' cpu '' @ dec (unat (ci_in_group cpu))
             @ '', but running on group '' @ dec (unat (fst current)) @ '' cpu '' @ dec (unat (snd current)))
      else [])"

text \<open>The three operations as each platform's half of the file has them.\<close>

record cpu_answers =
  ca_affinity :: "(nat \<Rightarrow> bool) option"
  ca_online :: int
  ca_group_count :: nat
  ca_process_mask :: "u64 option"
  ca_count :: "nat \<Rightarrow> nat"

fun sdc_enumerate_cpus :: "platform \<Rightarrow> cpu_answers \<Rightarrow> cpu_info list" where
  "sdc_enumerate_cpus Windows a = enumerate_windows (ca_group_count a) (ca_process_mask a) (ca_count a)"
| "sdc_enumerate_cpus Linux a = enumerate_linux (ca_affinity a) (ca_online a)"

datatype affinity_request = Cpu_Set "nat set" | Group_Mask u16 u64

fun sdc_pin_to_cpu :: "platform \<Rightarrow> (affinity_request \<Rightarrow> bool) \<Rightarrow> cpu_info \<Rightarrow> bool option" where
  \<comment> \<open>the second argument: whether the system grants a request\<close>
  "sdc_pin_to_cpu Windows granted cpu =
     map_option (\<lambda>(group_number, affinity). granted (Group_Mask group_number affinity)) (pin_mask_windows cpu)"
| "sdc_pin_to_cpu Linux granted cpu = Some (granted (Cpu_Set (pin_mask_linux cpu)))"

record affinity_report =
  ar_affinity :: "(nat \<Rightarrow> bool) option"
  ar_current :: "u16 \<times> u32"

fun sdc_verify_pin :: "platform \<Rightarrow> affinity_report \<Rightarrow> cpu_info \<Rightarrow> string" where
  "sdc_verify_pin Windows rep cpu = verify_pin_windows (ar_current rep) cpu"
| "sdc_verify_pin Linux rep cpu = verify_pin_linux (ar_affinity rep) cpu"

section \<open>Memory at a fixed address\<close>

type_synonym regions = "(nat \<times> nat) list" \<comment> \<open>base and size of what is mapped\<close>

definition sdc_map_fixed :: "nat option \<Rightarrow> nat \<Rightarrow> nat \<Rightarrow> regions \<Rightarrow> nat option \<times> regions" where
  \<comment> \<open>the first argument: where the system put the mapping (None: it refused)\<close>
  "sdc_map_fixed answer address len mapped =
     (case answer of
        None \<Rightarrow> (None, mapped)
      | Some base \<Rightarrow>
          let mapped = (base, len) # mapped
          in if base \<noteq> address then (None, removeAll (base, len) mapped) else (Some base, mapped))"

definition sdc_unmap :: "nat \<Rightarrow> nat \<Rightarrow> regions \<Rightarrow> regions" where
  "sdc_unmap base len mapped = removeAll (base, len) mapped"

section \<open>The thread pointer\<close>

record thread_pointer =
  tp_gs_block :: "u64 list"
  tp_gs_installed :: bool
  tp_user_pointer :: u64
  tp_saved :: u64

text \<open>
  \<open>tp_gs_block\<close> and \<open>tp_gs_installed\<close> are the Linux globals; \<open>tp_user_pointer\<close> is the slot of the
  thread's block on Windows and \<open>tp_saved\<close> what was there.
\<close>

fun tp_enter :: "platform \<Rightarrow> bool \<Rightarrow> u64 \<Rightarrow> thread_pointer \<Rightarrow> bool \<times> thread_pointer" where
  \<comment> \<open>the second argument: whether \<open>arch_prctl\<close> succeeds\<close>
  "tp_enter Windows prctl_ok val tp = (True, tp\<lparr>tp_saved := tp_user_pointer tp, tp_user_pointer := val\<rparr>)"
| "tp_enter Linux prctl_ok val tp =
     (let tp = tp\<lparr>tp_gs_block := (tp_gs_block tp)[5 := val]\<rparr>
      in if \<not> tp_gs_installed tp
         then if \<not> prctl_ok then (False, tp) else (True, tp\<lparr>tp_gs_installed := True\<rparr>)
         else (True, tp))"

fun tp_leave :: "platform \<Rightarrow> thread_pointer \<Rightarrow> thread_pointer" where
  "tp_leave Windows tp = tp\<lparr>tp_user_pointer := tp_saved tp\<rparr>"
| "tp_leave Linux tp = tp"

fun tp_read :: "platform \<Rightarrow> thread_pointer \<Rightarrow> u64 option" where
  \<comment> \<open>what \<open>mov %gs:0x28\<close> reads: the slot, or the sixth word of the installed block\<close>
  "tp_read Windows tp = Some (tp_user_pointer tp)"
| "tp_read Linux tp = (if tp_gs_installed tp \<and> 0x28 div 8 < length (tp_gs_block tp)
     then Some (tp_gs_block tp ! (0x28 div 8)) else None)"

section \<open>Fault capture\<close>

record regs =
  rg_rip :: u64
  rg_rsp :: u64
  rg_rbp :: u64
  rg_rbx :: u64
  rg_rax :: u64
  rg_rcx :: u64
  rg_rdx :: u64
  rg_rsi :: u64
  rg_rdi :: u64

record fault_record =
  fr_what :: string
  fr_address :: u64
  fr_regs :: regs

definition no_regs :: regs where
  "no_regs = \<lparr>rg_rip = 0, rg_rsp = 0, rg_rbp = 0, rg_rbx = 0, rg_rax = 0, rg_rcx = 0, rg_rdx = 0,
     rg_rsi = 0, rg_rdi = 0\<rparr>"

definition fault_record_init :: fault_record where
  "fault_record_init = \<lparr>fr_what = [], fr_address = 0, fr_regs = no_regs\<rparr>"

text \<open>\<open>fc_armed\<close>: \<open>g_fault_record\<close> is not null; \<open>fc_record\<close> is the record it points to, or last did.\<close>

record capture =
  fc_armed :: bool
  fc_record :: fault_record
  fc_resume :: u64

definition fault_capture_arm :: "fault_record \<Rightarrow> u64 \<Rightarrow> capture \<Rightarrow> capture" where
  "fault_capture_arm record' resume_at fc = fc\<lparr>fc_resume := resume_at, fc_record := record', fc_armed := True\<rparr>"

definition fault_capture_disarm :: "capture \<Rightarrow> capture" where
  "fault_capture_disarm fc = fc\<lparr>fc_armed := False\<rparr>"

datatype signal_number = SIGSEGV | SIGBUS | SIGILL | SIGFPE | SIGTRAP | Other_Signal nat

fun signal_name :: "signal_number \<Rightarrow> string" where
  "signal_name SIGSEGV = ''access violation''"
| "signal_name SIGBUS = ''bus error''"
| "signal_name SIGILL = ''illegal instruction''"
| "signal_name SIGFPE = ''arithmetic exception''"
| "signal_name SIGTRAP = ''breakpoint''"
| "signal_name (Other_Signal n) = ''hardware exception''"

text \<open>The exception codes of the public Windows headers.\<close>

definition access_violation :: u32 where "access_violation = 0xC0000005"
definition in_page_error :: u32 where "in_page_error = 0xC0000006"
definition exception_breakpoint :: u32 where "exception_breakpoint = 0x80000003"
definition datatype_misalignment :: u32 where "datatype_misalignment = 0x80000002"

definition exception_name :: "u32 \<Rightarrow> string" where
  "exception_name code =
     (if code = access_violation then ''access violation''
      else if code = 0xC000001D then ''illegal instruction''
      else if code = 0xC0000096 then ''privileged instruction''
      else if code = 0xC00000FD then ''stack overflow''
      else if code = 0xC0000094 then ''integer divide by zero''
      else if code = datatype_misalignment then ''misaligned access''
      else if code = in_page_error then ''in-page error''
      else if code = exception_breakpoint then ''breakpoint''
      else ''hardware exception'')"

text \<open>What was raised: a signal with \<open>si_addr\<close>, or an exception code with its parameters.\<close>

datatype raised = Signal signal_number u64 | Exception u32 "u64 list"

text \<open>None: the handler stands aside. Otherwise execution goes on with the given registers.\<close>

definition on_fault :: "signal_number \<Rightarrow> u64 \<Rightarrow> regs \<Rightarrow> capture \<Rightarrow> (regs \<times> capture) option" where
  "on_fault number si_addr context fc =
     (if \<not> fc_armed fc then None
      else Some (context\<lparr>rg_rip := fc_resume fc\<rparr>,
             fc\<lparr>fc_armed := False,
                fc_record := \<lparr>fr_what = signal_name number,
                  fr_address = (if number = SIGSEGV \<or> number = SIGBUS then si_addr else 0),
                  fr_regs = context\<rparr>\<rparr>))"

definition on_exception :: "u32 \<Rightarrow> u64 list \<Rightarrow> regs \<Rightarrow> capture \<Rightarrow> (regs \<times> capture) option" where
  "on_exception code information context fc =
     (if \<not> fc_armed fc then None
      else if code AND 0xC0000000 \<noteq> 0xC0000000 \<and> code \<noteq> exception_breakpoint then None
      else Some (context\<lparr>rg_rip := fc_resume fc\<rparr>,
             fc\<lparr>fc_armed := False,
                fc_record := \<lparr>fr_what = exception_name code,
                  fr_address = (if (code = access_violation \<or> code = in_page_error) \<and> 2 \<le> length information
                                then information ! 1 else 0),
                  fr_regs = context\<rparr>\<rparr>))"

text \<open>The signals the program has a handler for, and what the system answers to installing it.\<close>

definition fault_signals :: "signal_number list" where
  "fault_signals = [SIGSEGV, SIGBUS, SIGILL, SIGFPE, SIGTRAP]"

record install_answers =
  in_sigaltstack :: bool
  in_sigaction :: "signal_number \<Rightarrow> bool"
  in_vectored :: bool

fun sdc_fault_capture_install :: "platform \<Rightarrow> install_answers \<Rightarrow> bool" where
  "sdc_fault_capture_install Windows a = in_vectored a"
| "sdc_fault_capture_install Linux a =
     (if \<not> in_sigaltstack a then False else list_all (in_sigaction a) fault_signals)"

fun on_raised :: "raised \<Rightarrow> regs \<Rightarrow> capture \<Rightarrow> (regs \<times> capture) option" where
  \<comment> \<open>once the handlers are installed; a signal without one ends the process\<close>
  "on_raised (Signal number si_addr) context fc =
     (if number \<in> set fault_signals then on_fault number si_addr context fc else None)"
| "on_raised (Exception code information) context fc = on_exception code information context fc"

text \<open>The exceptions the handlers take when they are armed.\<close>

fun taken :: "raised \<Rightarrow> bool" where
  "taken (Signal number si_addr) \<longleftrightarrow> number \<in> set fault_signals"
| "taken (Exception code information) \<longleftrightarrow> code AND 0xC0000000 = 0xC0000000 \<or> code = exception_breakpoint"

section \<open>Properties\<close>

lemma pin_mismatch_text: "pin_mismatch_linux n count \<noteq> []"
  unfolding pin_mismatch_linux_def take_eq_Nil by (simp only: append_eq_Cons_conv list.distinct append_Cons) simp

text \<open>The severity of an exception code is its two top bits.\<close>

lemma error_severity: "code AND 0xC0000000 = 0xC0000000 \<longleftrightarrow> drop_bit 30 code = (3 :: u32)"
proof -
  have short: "bit code n \<Longrightarrow> n < 32" for n using bit_imp_le_length [of code n] by simp
  have high: "bit code (30 + n) \<Longrightarrow> n < 2" for n using short [of "30 + n"] by simp
  have low: "n < 2 \<longleftrightarrow> 30 + n < 32" for n :: nat by simp
  have masks: "(0xC0000000 :: u32) = push_bit 30 (mask 2)" "(3 :: u32) = mask 2" by (simp_all add: mask_eq_exp_minus_1)
  have "code AND 0xC0000000 = 0xC0000000 \<longleftrightarrow> (\<forall>n. 30 \<le> n \<and> n < 32 \<longrightarrow> bit code n)"
    unfolding masks by (auto simp: bit_eq_iff bit_simps)
  also have "\<dots> \<longleftrightarrow> (\<forall>n. bit code (30 + n) \<longleftrightarrow> n < 2)"
    unfolding low using short by (metis le_add1 le_add_diff_inverse)
  also have "\<dots> \<longleftrightarrow> drop_bit 30 code = 3"
    unfolding masks bit_eq_iff bit_drop_bit_eq bit_mask_iff using high by auto
  finally show ?thesis .
qed

text \<open>
  Property C37: fault capture takes exactly the exceptions it is meant for, once, and records them
  completely. The exceptions it takes are, on Linux, the five signals with a handler and, on
  Windows, those of error severity and the breakpoint. Armed, the handlers take such an exception
  and no other: the caller's record then names it, holds the address of a bad access (and 0 for any other
  exception) and all the registers of the fault; execution goes on at the landing with every other
  register as it was; the capture is disarmed, so that no second exception is taken. Disarmed, the
  handlers take nothing.
\<close>

theorem capture_one_shot:
  "on_raised raised regs (fault_capture_arm r landing fc) =
     (if case raised of
           Signal number si_addr \<Rightarrow> number \<in> {SIGSEGV, SIGBUS, SIGILL, SIGFPE, SIGTRAP}
         | Exception code information \<Rightarrow> drop_bit 30 code = 3 \<or> code = exception_breakpoint
      then Some (regs\<lparr>rg_rip := landing\<rparr>,
             fc\<lparr>fc_armed := False, fc_resume := landing,
               fc_record := case raised of
                   Signal number si_addr \<Rightarrow>
                     \<lparr>fr_what = signal_name number, fr_address = (if number \<in> {SIGSEGV, SIGBUS} then si_addr else 0),
                      fr_regs = regs\<rparr>
                 | Exception code information \<Rightarrow>
                     \<lparr>fr_what = exception_name code,
                      fr_address = (case information of
                          kind # address # rest \<Rightarrow> if code \<in> {access_violation, in_page_error} then address else 0
                        | _ \<Rightarrow> 0),
                      fr_regs = regs\<rparr>\<rparr>)
      else None)
   \<and> (case on_raised raised regs (fault_capture_arm r landing fc) of
        Some (regs', fc') \<Rightarrow> on_raised raised' regs' fc' = None
      | None \<Rightarrow> True)
   \<and> on_raised raised regs (fault_capture_disarm fc) = None"
proof (cases raised)
  case (Signal number si_addr)
  then show ?thesis
    by (cases raised') (simp_all add: on_fault_def on_exception_def fault_capture_arm_def fault_capture_disarm_def
        fault_signals_def)
next
  case (Exception code information)
  have "information ! Suc 0 = (case information of kind # address # rest \<Rightarrow> address | _ \<Rightarrow> 0)" if "2 \<le> length information"
    using that by (auto simp: numeral_2_eq_2 Suc_le_length_iff)
  moreover have "(case information of kind # address # rest \<Rightarrow> if P then address else 0 | _ \<Rightarrow> 0) =
      (if P \<and> 2 \<le> length information then (case information of kind # address # rest \<Rightarrow> address | _ \<Rightarrow> 0) else 0)"
    for P by (simp split: list.splits)
  ultimately show ?thesis using Exception
    by (cases raised') (simp_all add: on_fault_def on_exception_def error_severity fault_capture_arm_def
        fault_capture_disarm_def)
qed

text \<open>
  On Windows the handler never takes a misaligned access, although it has a name
  for it: its code has warning severity, which the test before the capture turns away, so the
  exception goes on to end the process.
\<close>

theorem misaligned_access_not_captured:
  "on_raised (Exception datatype_misalignment information) regs fc = None
   \<and> exception_name datatype_misalignment = ''misaligned access''"
  by (simp add: on_exception_def datatype_misalignment_def exception_breakpoint_def exception_name_def
      access_violation_def in_page_error_def)

text \<open>
  The payload's thread pointer. After \<open>tp_enter\<close> has succeeded the payload reads the
  pointer it was given; leaving puts the Windows slot back to what it was; and on Linux, once one
  call has succeeded, no later one fails, whatever \<open>arch_prctl\<close> would answer.
\<close>

lemma thread_pointer_contract:
  assumes "length (tp_gs_block tp) = 8" and "tp_enter pl ok val tp = (True, tp')"
  shows "tp_read pl tp' = Some val \<and> tp_user_pointer (tp_leave pl tp') = tp_user_pointer tp
    \<and> fst (tp_enter pl ok' val' (tp_leave pl tp'))"
  using assms by (cases pl) (auto simp: Let_def split: if_splits)

text \<open>
  \<open>sdc_verify_pin\<close> confirms a pin on Linux exactly when the affinity mask the system
  reports is the one \<open>sdc_pin_to_cpu\<close> asked for.
\<close>

lemma verify_pin_exact:
  assumes "unat (ci_in_group cpu) < k_cpu_setsize"
  shows "verify_pin_linux (Some cpu_set) cpu = [] \<longleftrightarrow> {n. n < k_cpu_setsize \<and> cpu_set n} = pin_mask_linux cpu"
proof -
  let ?n = "unat (ci_in_group cpu)" and ?S = "{n. n < k_cpu_setsize \<and> cpu_set n}"
  have count: "length (filter cpu_set [0..<k_cpu_setsize]) = card ?S"
    by (subst distinct_card [symmetric]) (auto intro: arg_cong [where f = card])
  have "card S = 1 \<and> n \<in> S \<longleftrightarrow> S = {n}" for S and n :: nat
    by (auto simp: card_Suc_eq elim!: card_1_singletonE)
  then have "card ?S = 1 \<and> ?n \<in> ?S \<longleftrightarrow> ?S = {?n}" .
  moreover have "verify_pin_linux (Some cpu_set) cpu = [] \<longleftrightarrow> card ?S = 1 \<and> ?n \<in> ?S"
    by (simp add: verify_pin_linux_def Let_def count pin_mismatch_text)
  ultimately show ?thesis using assms by (simp add: pin_mask_linux_def)
qed

section \<open>The enumeration names every core once\<close>

lemma of_nat_u32_inj: "a < 2 ^ 32 \<Longrightarrow> b < 2 ^ 32 \<Longrightarrow> (of_nat a :: u32) = of_nat b \<longleftrightarrow> a = b"
  by (simp add: word_of_nat_eq_iff take_bit_nat_eq_self_iff [THEN iffD2])

lemma distinct_plain:
  assumes "distinct xs" and "\<And>x. x \<in> set xs \<Longrightarrow> x < 2 ^ 32"
  shows "distinct (map (ci_index \<circ> plain_cpu) xs)"
  using assms by (auto simp: distinct_map inj_on_def plain_cpu_def of_nat_u32_inj)

definition indices_so_far :: "u32 \<times> cpu_info list \<Rightarrow> u32 \<times> u32 list" where
  "indices_so_far st = (fst st, map ci_index (snd st))"

lemma enumerate_group:
  "indices_so_far (fold (\<lambda>in_group (global_index, cpus).
            (global_index + 1,
             cpus @ [\<lparr>ci_index = global_index, ci_group = g, ci_in_group = of_nat in_group\<rparr>]))
          [0..<n] (i, cpus))
    = (i + of_nat n, map ci_index cpus @ map (\<lambda>k. i + of_nat k) [0..<n])"
  by (induction n) (auto simp: case_prod_beta indices_so_far_def)

lemma enumerate_groups_indices:
  "map ci_index (enumerate_groups group_count count) = map of_nat [0..<sum_list (map count [0..<group_count])]"
proof -
  let ?group = "\<lambda>g. fold (\<lambda>in_group (global_index, cpus).
      (global_index + 1,
       cpus @ [\<lparr>ci_index = global_index, ci_group = of_nat g, ci_in_group = of_nat in_group\<rparr>])) [0..<count g]"
  have "indices_so_far (fold ?group [0..<n] (0, []))
      = (of_nat (sum_list (map count [0..<n])), map of_nat [0..<sum_list (map count [0..<n])])" for n
  proof (induction n)
    case (Suc n)
    obtain i cpus where st: "fold ?group [0..<n] (0, []) = (i, cpus)" using prod.exhaust by blast
    let ?t = "sum_list (map count [0..<n])"
    have ic: "i = of_nat ?t" "map ci_index cpus = map of_nat [0..<?t]"
      using Suc unfolding st by (simp_all add: indices_so_far_def)
    have more: "map (\<lambda>k. of_nat ?t + of_nat k :: u32) [0..<count n] = map of_nat [?t..<?t + count n]"
      by (rule nth_equalityI) simp_all
    have "fold ?group [0..<Suc n] (0, []) = ?group n (i, cpus)" by (simp add: st)
    then have "indices_so_far (fold ?group [0..<Suc n] (0, []))
        = (of_nat (?t + count n), map of_nat [0..<?t] @ map of_nat [?t..<?t + count n])"
      by (simp only: enumerate_group ic more of_nat_add)
    moreover have "map of_nat [0..<?t] @ map of_nat [?t..<?t + count n] = (map of_nat [0..<?t + count n] :: u32 list)"
      by (simp only: upt_add_eq_append [OF le0] map_append)
    ultimately show ?case by simp
  qed (simp add: indices_so_far_def)
  from this [of group_count] show ?thesis by (simp add: enumerate_groups_def indices_so_far_def)
qed

text \<open>What a system may answer: no more processors than have numbers, and groups of at most 64.\<close>

definition plausible_answers :: "cpu_answers \<Rightarrow> bool" where
  "plausible_answers a \<longleftrightarrow> ca_online a \<le> 2 ^ 32
     \<and> sum_list (map (ca_count a) [0..<ca_group_count a]) \<le> 2 ^ 32 \<and> (\<forall>g<ca_group_count a. ca_count a g \<le> 64)"

lemma enumerate_distinct:
  assumes "plausible_answers a"
  shows "distinct (map ci_index (sdc_enumerate_cpus pl a))"
proof (cases pl)
  case Linux
  have "x < 2 ^ 32" if "x < k_cpu_setsize" for x using that by (simp add: k_cpu_setsize_def)
  then have "distinct (map ci_index (enumerate_linux (ca_affinity a) (ca_online a)))"
    unfolding enumerate_linux_def Let_def
    using assms by (auto simp: plausible_answers_def intro!: distinct_plain split: option.splits)
  with Linux show ?thesis by simp
next
  case Windows
  have "distinct (map ci_index (enumerate_groups (ca_group_count a) (ca_count a)))"
    unfolding enumerate_groups_indices
    using assms by (auto simp: plausible_answers_def distinct_map inj_on_def of_nat_u32_inj)
  then have "distinct (map ci_index (enumerate_windows (ca_group_count a) (ca_process_mask a) (ca_count a)))"
    unfolding enumerate_windows_def by (auto intro!: distinct_plain split: option.splits)
  with Windows show ?thesis by simp
qed

lemma enumerate_groups_in_group:
  assumes "\<forall>g<group_count. count g \<le> 64" and "cpu \<in> set (enumerate_groups group_count count)"
  shows "unat (ci_in_group cpu) < 64"
proof -
  let ?P = "\<lambda>st :: u32 \<times> cpu_info list. \<forall>cpu\<in>set (snd st). unat (ci_in_group cpu) < 64"
  let ?add = "\<lambda>g in_group (global_index :: u32, cpus).
     (global_index + 1, cpus @ [\<lparr>ci_index = global_index, ci_group = of_nat g, ci_in_group = of_nat in_group\<rparr>])"
  have step: "?P (?add g i st)" if "i < 64" "?P st" for g i st
  proof -
    have "unat (of_nat i :: u32) = i" using that(1) by (simp add: unat_of_nat take_bit_nat_eq_self)
    with that show ?thesis by (cases st) simp
  qed
  have inner: "?P (fold (?add g) [0..<count g] st)" if "count g \<le> 64" "?P st" for g st
    by (rule fold_invariant [where Q = "\<lambda>i. i < 64"]) (use that step in auto)
  have "?P (fold (\<lambda>g. fold (?add g) [0..<count g]) [0..<group_count] (0, []))"
    by (rule fold_invariant [where Q = "\<lambda>g. count g \<le> 64"]) (use assms(1) inner in auto)
  with assms(2) show ?thesis by (simp add: enumerate_groups_def)
qed

lemma plain_cpu_in_group: "n < 2 ^ 32 \<Longrightarrow> unat (ci_in_group (plain_cpu n)) = n"
  by (simp add: plain_cpu_def unat_of_nat take_bit_nat_eq_self)

lemma enumerate_pin_defined:
  assumes "plausible_answers a" and "cpu \<in> set (sdc_enumerate_cpus pl a)"
  shows "sdc_pin_to_cpu pl granted cpu \<noteq> None"
proof (cases pl)
  case Windows
  have "unat (ci_in_group cpu) < 64"
    using assms Windows enumerate_groups_in_group [of "ca_group_count a" "ca_count a" cpu]
    by (auto simp: plausible_answers_def enumerate_windows_def plain_cpu_in_group split: option.splits if_splits)
  with Windows show ?thesis by (simp add: pin_mask_windows_def)
qed simp

lemma enumerate_linux_set:
  assumes "{n. n < k_cpu_setsize \<and> cpu_set n} \<noteq> {}"
  shows "(\<lambda>cpu. unat (ci_index cpu)) ` set (enumerate_linux (Some cpu_set) online) = {n. n < k_cpu_setsize \<and> cpu_set n}"
proof -
  have "x < 2 ^ 32" if "x < k_cpu_setsize" for x using that by (simp add: k_cpu_setsize_def)
  then have "unat (ci_index (plain_cpu n)) = n" if "n < k_cpu_setsize" for n
    using that by (simp add: plain_cpu_def unat_of_nat take_bit_nat_eq_self_iff)
  then have same: "(\<lambda>cpu. unat (ci_index cpu)) ` plain_cpu ` N = N" if "\<And>n. n \<in> N \<Longrightarrow> n < k_cpu_setsize" for N
    using that by (force simp: image_image)
  have "set (enumerate_linux (Some cpu_set) online) = plain_cpu ` {n. n < k_cpu_setsize \<and> cpu_set n}"
    using assms by (auto simp: enumerate_linux_def Let_def filter_empty_conv)
  with same [of "{n. n < k_cpu_setsize \<and> cpu_set n}"] show ?thesis by force
qed

text \<open>
  Property C38: the enumeration gives every core one number, and one that can be pinned. On either
  platform no two entries of the list have the same index, so that \<open>--cores\<close>, the report and the
  pin speak of the same core; asking to pin an entry never shifts by the width of the mask or more;
  and on Linux the list holds the cores of the affinity mask and only those, when there is one.
\<close>

theorem enumeration_names_cores_once:
  assumes "plausible_answers a"
  shows "distinct (map ci_index (sdc_enumerate_cpus pl a))
    \<and> (\<forall>cpu\<in>set (sdc_enumerate_cpus pl a). sdc_pin_to_cpu pl granted cpu \<noteq> None)
    \<and> ({n. n < k_cpu_setsize \<and> cpu_set n} = {} \<or> ca_affinity a \<noteq> Some cpu_set
       \<or> (\<lambda>cpu. unat (ci_index cpu)) ` set (sdc_enumerate_cpus Linux a) = {n. n < k_cpu_setsize \<and> cpu_set n})"
  using enumerate_distinct [OF assms] enumerate_pin_defined [OF assms] enumerate_linux_set [of cpu_set "ca_online a"]
  by auto

section \<open>Witnesses\<close>

definition linux_tp :: thread_pointer where
  "linux_tp = \<lparr>tp_gs_block = replicate 8 0, tp_gs_installed = False, tp_user_pointer = 0, tp_saved = 0\<rparr>"

lemma capture_one_shot_witness:
  "on_raised (Signal SIGSEGV 16) no_regs (fault_capture_arm fault_record_init 4096
      \<lparr>fc_armed = False, fc_record = fault_record_init, fc_resume = 0\<rparr>)
     = Some (no_regs\<lparr>rg_rip := 4096\<rparr>,
         \<lparr>fc_armed = False, fc_record = \<lparr>fr_what = ''access violation'', fr_address = 16, fr_regs = no_regs\<rparr>,
          fc_resume = 4096\<rparr>)
   \<and> on_raised (Exception datatype_misalignment [0, 16]) no_regs (fault_capture_arm fault_record_init 4096
      \<lparr>fc_armed = False, fc_record = fault_record_init, fc_resume = 0\<rparr>) = None"
  using capture_one_shot [of "Signal SIGSEGV 16" no_regs fault_record_init 4096
      "\<lparr>fc_armed = False, fc_record = fault_record_init, fc_resume = 0\<rparr>"]
    capture_one_shot [of "Exception datatype_misalignment [0, 16]" no_regs fault_record_init 4096
      "\<lparr>fc_armed = False, fc_record = fault_record_init, fc_resume = 0\<rparr>"]
  by (simp add: datatype_misalignment_def exception_breakpoint_def)

lemma thread_pointer_contract_witness:
  "tp_read Linux (snd (tp_enter Linux True 77 linux_tp)) = Some 77"
proof -
  have "length (tp_gs_block linux_tp) = 8" by (simp add: linux_tp_def)
  moreover have "tp_enter Linux True 77 linux_tp = (True, snd (tp_enter Linux True 77 linux_tp))"
    by (simp add: linux_tp_def)
  ultimately show ?thesis using thread_pointer_contract by blast
qed

definition few_cpus :: cpu_answers where
  "few_cpus = \<lparr>ca_affinity = None, ca_online = 2, ca_group_count = 1, ca_process_mask = Some 3, ca_count = \<lambda>_. 2\<rparr>"

lemma few_cpus_plausible: "plausible_answers few_cpus"
  by (simp add: plausible_answers_def few_cpus_def)

lemma enumeration_names_cores_once_witness:
  "distinct (map ci_index (sdc_enumerate_cpus Windows few_cpus))"
  using enumeration_names_cores_once [OF few_cpus_plausible] by blast

end
