(* ===== verification/Rbx.thy ===== *)
theory Rbx
  imports Fnv Platform
begin

text \<open>
  The rbx probe (rbx.cpp, rbx.hpp): the arena at its fixed address, with its shadow, and the
  data the payload hashes; preparing it, one pass, the report of an address, the signature and
  the self-test. Memory is a function from addresses to bytes; the addresses are constants far
  below \<open>2 ^ 64\<close>, so they are natural numbers. The payload is the machine code of
  rbx_payload.S and is a parameter: what it leaves in memory, and the hash it returns or the
  exception it raises. The wrapper \<open>sdc_rbx_call\<close> around it is modelled.
\<close>

section \<open>The arena\<close>

definition k_rbx_calls_per_pass :: u64 where "k_rbx_calls_per_pass = 64 * 4096"
definition k_rbx_signature_delta :: u64 where "k_rbx_signature_delta = 0xA0"

definition k_arena_base :: nat where "k_arena_base = 0x600000000000"
definition k_stack_size_log :: u64 where "k_stack_size_log = 20"
definition k_fake_stack_bytes :: nat where
  "k_fake_stack_bytes = 0x1000 + 2 ^ (20 - 5) + 11 * 2 ^ 20"
definition k_fake_stack_region :: nat where "k_fake_stack_region = 0xC00000"
definition k_fake_stack_size_log_offset :: nat where "k_fake_stack_size_log_offset = 0x58"
definition k_data_base :: nat where "k_data_base = k_arena_base + k_fake_stack_region"
definition k_data_region :: nat where "k_data_region = 0x100000"
definition k_arena_bytes :: nat where "k_arena_bytes = k_fake_stack_region + k_data_region"
definition k_shadow_offset :: nat where "k_shadow_offset = 0x7FFF8000"
definition k_shadow_base :: nat where "k_shadow_base = k_arena_base div 8 + k_shadow_offset"
definition k_shadow_map_base :: nat where "k_shadow_map_base = k_shadow_base div 0x10000 * 0x10000"
definition k_shadow_map_bytes :: nat where
  "k_shadow_map_bytes =
     (k_shadow_base + k_arena_bytes div 8 + 0xFFFF) div 0x10000 * 0x10000 - k_shadow_map_base"
definition k_chunk_count :: nat where "k_chunk_count = 64"
definition k_nodes_per_chunk :: nat where "k_nodes_per_chunk = 4096"
definition k_data_seed :: u32 where "k_data_seed = 12345"
definition k_vector_address :: nat where "k_vector_address = k_data_base + 0x100"
definition k_chunks_address :: nat where "k_chunks_address = k_data_base + 0x1000"
definition k_nodes_address :: nat where "k_nodes_address = k_data_base + 0x10000"
definition k_nodes_stride :: nat where "k_nodes_stride = 0x2800"

definition sizeof_chunk :: nat where "sizeof_chunk = 32" \<comment> \<open>\<open>sizeof(ChunkImage)\<close>\<close>

lemmas rbx_constants = k_arena_base_def k_fake_stack_bytes_def k_fake_stack_region_def
  k_fake_stack_size_log_offset_def k_data_base_def k_data_region_def k_arena_bytes_def
  k_shadow_offset_def k_shadow_base_def k_shadow_map_base_def k_shadow_map_bytes_def
  k_chunk_count_def k_nodes_per_chunk_def k_vector_address_def k_chunks_address_def
  k_nodes_address_def k_nodes_stride_def sizeof_chunk_def

section \<open>Memory\<close>

type_synonym memory = "nat \<Rightarrow> u8"

definition mem_set :: "nat \<Rightarrow> u8 \<Rightarrow> nat \<Rightarrow> memory \<Rightarrow> memory" where
  "mem_set base b n m = (\<lambda>a. if base \<le> a \<and> a < base + n then b else m a)"

definition mem_write :: "nat \<Rightarrow> u8 list \<Rightarrow> memory \<Rightarrow> memory" where
  "mem_write base bs m = (\<lambda>a. if base \<le> a \<and> a < base + length bs then bs ! (a - base) else m a)"

definition mem_read :: "nat \<Rightarrow> nat \<Rightarrow> memory \<Rightarrow> u8 list" where
  "mem_read base n m = map m [base..<base + n]"

definition of_le_bytes :: "u8 list \<Rightarrow> 'a::len word" where
  "of_le_bytes bs = foldr (\<lambda>b w. push_bit 8 w OR ucast b) bs 0"

definition store64 :: "nat \<Rightarrow> u64 \<Rightarrow> memory \<Rightarrow> memory" where
  "store64 a v = mem_write a (le_bytes 8 v)"

definition store16 :: "nat \<Rightarrow> u16 \<Rightarrow> memory \<Rightarrow> memory" where
  "store16 a v = mem_write a (le_bytes 2 v)"

definition load64 :: "nat \<Rightarrow> memory \<Rightarrow> u64" where
  "load64 a m = of_le_bytes (mem_read a 8 m)"

definition load16 :: "nat \<Rightarrow> memory \<Rightarrow> u16" where
  "load16 a m = of_le_bytes (mem_read a 2 m)"

section \<open>Building the arena\<close>

definition fnv_bytes :: "u64 \<Rightarrow> u64 \<Rightarrow> nat \<Rightarrow> u64" where
  "fnv_bytes hash v count =
     fold (\<lambda>i hash. (hash XOR (drop_bit (8 * i) v AND 0xFF)) * k_fnv_prime) [0..<count] hash"

definition node_body :: "nat \<Rightarrow> nat \<Rightarrow> memory \<times> u64 \<times> u32 \<Rightarrow> memory \<times> u64 \<times> u32" where
  "node_body nodes n st =
     (let (m, hash, seed) = st;
          seed = seed * 1664525 + 1013904223;
          m = store16 (nodes + 2 * n) (ucast (drop_bit 16 seed)) m;
          hash = fnv_bytes hash (ucast (load16 (nodes + 2 * n) m)) 2
      in (m, hash, seed))"

definition chunk_body :: "nat \<Rightarrow> memory \<times> u64 \<times> u32 \<Rightarrow> memory \<times> u64 \<times> u32" where
  "chunk_body c st =
     (let (m, hash, seed) = st;
          nodes_address = k_nodes_address + c * k_nodes_stride;
          chunk = k_chunks_address + c * sizeof_chunk;
          nodes_end = nodes_address + k_nodes_per_chunk * 2;
          m = store64 chunk 0 m;
          m = store64 (chunk + 8) (of_nat nodes_address) m;
          m = store64 (chunk + 16) (of_nat nodes_end) m;
          m = store64 (chunk + 24) (of_nat nodes_end) m;
          hash = fnv_bytes hash (of_nat k_nodes_per_chunk) 8
      in fold (node_body nodes_address) [0..<k_nodes_per_chunk] (m, hash, seed))"

definition build_arena :: "memory \<times> u64 list \<Rightarrow> u64 \<times> memory \<times> u64 list" where
  \<comment> \<open>memory and \<open>g_thread_area\<close>\<close>
  "build_arena st =
     (let (m, thread_area) = st;
          m = mem_set k_arena_base 0 k_arena_bytes m;
          m = mem_set k_shadow_map_base 0 k_shadow_map_bytes m;
          m = store64 (k_arena_base + k_fake_stack_size_log_offset) k_stack_size_log m;
          vector_end = of_nat (k_chunks_address + k_chunk_count * sizeof_chunk);
          m = store64 k_vector_address (of_nat k_chunks_address) m;
          m = store64 (k_vector_address + 8) vector_end m;
          m = store64 (k_vector_address + 16) vector_end m;
          hash = fnv_bytes k_fnv_basis (of_nat k_chunk_count) 8;
          (m, hash, _) = fold chunk_body [0..<k_chunk_count] (m, hash, k_data_seed)
      in (hash, m, thread_area[0 := of_nat k_arena_base]))"

section \<open>The state and the payload\<close>

datatype memset_function = Real_Memset | Inject_Memset

record rbx_state =
  rx_prepared :: bool
  rx_expected :: u64
  rx_thread_area :: "u64 list"
  rx_mem :: memory
  rx_memset :: memset_function
  rx_countdown :: u64
  rx_tp :: thread_pointer
  rx_capture :: capture
  rx_mapped :: regions

text \<open>
  The payload: run with its thread pointer, the memory, the memset it was given and the
  countdown of the injecting one. It returns a hash or raises an exception with the registers
  of that moment.
\<close>

datatype outcome = Returned u64 | Raised raised regs

type_synonym payload = "u64 option \<Rightarrow> memset_function \<Rightarrow> u64 \<Rightarrow> memory \<Rightarrow> memory \<times> u64 \<times> outcome"

text \<open>The addresses of the program the probe uses: its globals and the payload's symbols.\<close>

record rbx_symbols =
  sy_platform :: platform
  sy_thread_area :: u64
  sy_landing :: u64
  sy_emit_begin :: u64
  sy_emit_end :: u64
  sy_functions :: "(u64 \<times> u64 \<times> string) list"

definition thread_area_9 :: "rbx_symbols \<Rightarrow> u64" where
  \<comment> \<open>\<open>&g_thread_area[9]\<close>\<close>
  "thread_area_9 sy = sy_thread_area sy + 9 * 8"

definition sdc_rbx_call :: "rbx_symbols \<Rightarrow> payload \<Rightarrow> rbx_state \<Rightarrow> (u64 \<times> u64 \<times> rbx_state) option" where
  \<comment> \<open>the hash and \<open>*faulted\<close>. None: the exception was not taken, the process is gone.\<close>
  "sdc_rbx_call sy payload s =
     (case payload (tp_read (sy_platform sy) (rx_tp s)) (rx_memset s) (rx_countdown s) (rx_mem s) of
        (m, countdown, result) \<Rightarrow>
          let s = s\<lparr>rx_mem := m, rx_countdown := countdown\<rparr> in
          (case result of
             Returned hash \<Rightarrow> Some (hash, 0, s)
           | Raised raised registers \<Rightarrow>
               (case on_raised raised registers (rx_capture s) of
                  None \<Rightarrow> None
                | Some (registers, fc) \<Rightarrow>
                    if rg_rip registers = sy_landing sy then Some (0, 1, s\<lparr>rx_capture := fc\<rparr>) else None)))"

section \<open>A pass\<close>

record rbx_pass =
  ps_faulted :: bool
  ps_mismatch :: bool
  ps_hash :: u64
  ps_expected :: u64
  ps_fault :: fault_record

definition rebuild :: "rbx_state \<Rightarrow> rbx_state" where
  \<comment> \<open>\<open>build_arena()\<close> with the hash ignored\<close>
  "rebuild s = (case build_arena (rx_mem s, rx_thread_area s) of
     (hash, m, thread_area) \<Rightarrow> s\<lparr>rx_mem := m, rx_thread_area := thread_area\<rparr>)"

definition sdc_rbx_run_pass :: "rbx_symbols \<Rightarrow> payload \<Rightarrow> bool \<Rightarrow> rbx_state \<Rightarrow> (rbx_pass \<times> rbx_state) option" where
  \<comment> \<open>the third argument: whether \<open>arch_prctl\<close> succeeds\<close>
  "sdc_rbx_run_pass sy payload prctl_ok s =
     (let pass = \<lparr>ps_faulted = False, ps_mismatch = False, ps_hash = 0, ps_expected = rx_expected s,
                  ps_fault = fault_record_init\<rparr>;
          (entered, tp) = tp_enter (sy_platform sy) prctl_ok (thread_area_9 sy) (rx_tp s);
          s = s\<lparr>rx_tp := tp\<rparr>
      in if \<not> entered then Some (pass\<lparr>ps_mismatch := True\<rparr>, s)
         else do {
           let s = s\<lparr>rx_capture := fault_capture_arm (ps_fault pass) (sy_landing sy) (rx_capture s)\<rparr>;
           (hash, faulted, s) \<leftarrow> sdc_rbx_call sy payload s;
           let s = s\<lparr>rx_capture := fault_capture_disarm (rx_capture s)\<rparr>;
           let pass = pass\<lparr>ps_hash := hash, ps_fault := fc_record (rx_capture s)\<rparr>;
           let s = s\<lparr>rx_tp := tp_leave (sy_platform sy) (rx_tp s)\<rparr>;
           if faulted \<noteq> 0 then Some (pass\<lparr>ps_faulted := True\<rparr>, rebuild s)
           else if ps_hash pass \<noteq> ps_expected pass then Some (pass\<lparr>ps_mismatch := True\<rparr>, rebuild s)
           else Some (pass, s)
         })"

section \<open>Preparing\<close>

text \<open>What the system answers to \<open>sdc_rbx_prepare\<close>, in the order it is asked.\<close>

record rbx_os =
  os_avx2 :: bool
  os_map_arena :: "nat option"
  os_map_shadow :: "nat option"
  os_install :: install_answers
  os_prctl_ok :: bool

definition sdc_rbx_supported :: "bool \<Rightarrow> string option" where
  \<comment> \<open>Some: the reason it is not\<close>
  "sdc_rbx_supported avx2 =
     (if \<not> avx2 then Some ''this CPU or operating system does not provide AVX2, which the probe's code uses''
      else None)"

definition sdc_rbx_prepare :: "rbx_symbols \<Rightarrow> rbx_os \<Rightarrow> rbx_state \<Rightarrow> string option \<times> rbx_state" where
  \<comment> \<open>Some: it failed, with this error\<close>
  "sdc_rbx_prepare sy os s =
     (if rx_prepared s then (None, s)
      else case sdc_rbx_supported (os_avx2 os) of Some reason \<Rightarrow> (Some reason, s)
      | None \<Rightarrow>
        (case sdc_map_fixed (os_map_arena os) k_arena_base k_arena_bytes (rx_mapped s) of
           (None, mapped) \<Rightarrow>
             (Some (take 159 (''cannot map '' @ dec (k_arena_bytes div 2 ^ 20) @ '' MiB at address 0x''
                      @ hex k_arena_base)), s\<lparr>rx_mapped := mapped\<rparr>)
         | (Some _, mapped) \<Rightarrow>
        (case sdc_map_fixed (os_map_shadow os) k_shadow_map_base k_shadow_map_bytes mapped of
           (None, mapped) \<Rightarrow>
             (Some (take 159 (''cannot map '' @ dec (k_shadow_map_bytes div 2 ^ 10) @ '' KiB at address 0x''
                      @ hex k_shadow_map_base)),
              s\<lparr>rx_mapped := sdc_unmap k_arena_base k_arena_bytes mapped\<rparr>)
         | (Some _, mapped) \<Rightarrow>
        (let s = s\<lparr>rx_mapped := mapped\<rparr> in
         if \<not> sdc_fault_capture_install (sy_platform sy) (os_install os) then (Some ''cannot install the hardware exception handler'', s)
         else case tp_enter (sy_platform sy) (os_prctl_ok os) (thread_area_9 sy) (rx_tp s) of
           (False, tp) \<Rightarrow> (Some ''cannot set the thread pointer the probe's code reads'', s\<lparr>rx_tp := tp\<rparr>)
         | (True, tp) \<Rightarrow>
             (case build_arena (rx_mem s, rx_thread_area s) of
                (hash, m, thread_area) \<Rightarrow>
                  (None, s\<lparr>rx_tp := tp_leave (sy_platform sy) tp, rx_expected := hash, rx_mem := m,
                           rx_thread_area := thread_area, rx_prepared := True\<rparr>))))))"

section \<open>Reports\<close>

definition find_function :: "rbx_symbols \<Rightarrow> u64 \<Rightarrow> (u64 \<times> u64 \<times> string) option" where
  "find_function sy address =
     find (\<lambda>(start, len, name). start \<le> address \<and> address < start + len)
       (takeWhile (\<lambda>(start, len, name). start \<noteq> 0) (sy_functions sy))"

definition sdc_rbx_describe_address :: "rbx_symbols \<Rightarrow> u64 \<Rightarrow> string" where
  "sdc_rbx_describe_address sy address =
     (case find_function sy address of
        None \<Rightarrow> take 159 (''0x'' @ hex (unat address) @ '' (outside the probe's code)'')
      | Some (start, len, name) \<Rightarrow> take 159 (name @ ''+0x'' @ hex (unat (address - start))))"

definition sdc_rbx_is_signature :: "rbx_symbols \<Rightarrow> fault_record \<Rightarrow> bool" where
  "sdc_rbx_is_signature sy fault \<longleftrightarrow>
     sy_emit_begin sy \<le> rg_rip (fr_regs fault) \<and> rg_rip (fr_regs fault) < sy_emit_end sy
     \<and> rg_rbx (fr_regs fault) - rg_rsp (fr_regs fault) = k_rbx_signature_delta"

section \<open>The self-test\<close>

record rbx_self_test_result =
  st_clean_pass_ok :: bool
  st_injected_caught :: bool
  st_recovered :: bool
  st_detail :: string

definition sdc_rbx_self_test ::
  "rbx_symbols \<Rightarrow> (nat \<Rightarrow> payload) \<Rightarrow> (nat \<Rightarrow> bool) \<Rightarrow> rbx_state \<Rightarrow> (rbx_self_test_result \<times> rbx_state) option" where
  \<comment> \<open>the payload and \<open>arch_prctl\<close> as they are in the three passes\<close>
  "sdc_rbx_self_test sy payload prctl_ok s =
     do {
       let result = \<lparr>st_clean_pass_ok = False, st_injected_caught = False, st_recovered = False, st_detail = []\<rparr>;
       (clean, s) \<leftarrow> sdc_rbx_run_pass sy (payload 0) (prctl_ok 0) s;
       let result = result\<lparr>st_clean_pass_ok := \<not> ps_faulted clean \<and> \<not> ps_mismatch clean\<rparr>;
       if \<not> st_clean_pass_ok result then Some (result, s)
       else do {
         let s = s\<lparr>rx_countdown := 1000, rx_memset := Inject_Memset\<rparr>;
         (injected, s) \<leftarrow> sdc_rbx_run_pass sy (payload 1) (prctl_ok 1) s;
         let s = s\<lparr>rx_memset := Real_Memset\<rparr>;
         let result = result\<lparr>st_injected_caught := ps_faulted injected\<rparr>;
         let result = (if ps_faulted injected
           then result\<lparr>st_detail := fr_what (ps_fault injected) @ '' at ''
                  @ sdc_rbx_describe_address sy (rg_rip (fr_regs (ps_fault injected)))\<rparr>
           else result);
         (after, s) \<leftarrow> sdc_rbx_run_pass sy (payload 2) (prctl_ok 2) s;
         Some (result\<lparr>st_recovered := \<not> ps_faulted after \<and> \<not> ps_mismatch after\<rparr>, s)
       }
     }"

end
