(* ===== verification/Logger.thy ===== *)
theory Logger
  imports Text "HOL-Library.Sublist"
begin

text \<open>
  The logger (logger.cpp): what the screen has received, the file that is open, and the
  contents of the files. The operating system's answers (whether a file could be opened, the
  time of day) are arguments. The lemmas read the screen as a terminal does, with a carriage
  return that goes back to column 0, and show that no line of the report is overwritten.
\<close>

section \<open>The logger\<close>

record logger =
  lg_screen :: string
  lg_file :: "string option"
  lg_path :: string
  lg_progress_open :: bool
  lg_disk :: "string \<Rightarrow> string option"

text \<open>\<open>lg_file\<close> is \<open>file_\<close>: the path of the open stream, None for a null pointer.\<close>

definition new_logger :: "string \<Rightarrow> (string \<Rightarrow> string option) \<Rightarrow> logger" where
  "new_logger screen disk =
     \<lparr>lg_screen = screen, lg_file = None, lg_path = [], lg_progress_open = False, lg_disk = disk\<rparr>"

definition carriage_return :: char where "carriage_return = CHR 0x0D"

definition has_file :: "logger \<Rightarrow> bool" where
  "has_file lg \<longleftrightarrow> lg_file lg \<noteq> None"

definition put_screen :: "string \<Rightarrow> logger \<Rightarrow> logger" where
  "put_screen s lg = lg\<lparr>lg_screen := lg_screen lg @ s\<rparr>"

definition put_file :: "string \<Rightarrow> logger \<Rightarrow> logger" where
  "put_file s lg =
     (case lg_file lg of
        None \<Rightarrow> lg
      | Some p \<Rightarrow> lg\<lparr>lg_disk := (lg_disk lg)(p \<mapsto> (case lg_disk lg p of None \<Rightarrow> [] | Some c \<Rightarrow> c) @ s)\<rparr>)"

definition timestamp :: "string option \<Rightarrow> string" where
  \<comment> \<open>None: \<open>localtime\<close> or \<open>strftime\<close> failed\<close>
  "timestamp formatted = (case formatted of None \<Rightarrow> ''unknown-time'' | Some t \<Rightarrow> t)"

definition close_progress_line :: "logger \<Rightarrow> logger" where
  "close_progress_line lg =
     (if lg_progress_open lg then put_screen [newline] lg\<lparr>lg_progress_open := False\<rparr> else lg)"

definition log_close :: "logger \<Rightarrow> logger" where
  "log_close lg =
     (let lg = close_progress_line lg
      in if has_file lg then lg\<lparr>lg_file := None\<rparr> else lg)"

definition log_open :: "bool \<Rightarrow> string \<Rightarrow> logger \<Rightarrow> bool \<times> logger" where
  \<comment> \<open>the first argument: whether \<open>fopen\<close> for writing succeeds, which truncates the file\<close>
  "log_open fopen_ok path lg =
     (let lg = log_close lg
      in if \<not> fopen_ok then (False, lg\<lparr>lg_file := None\<rparr>)
         else (True, lg\<lparr>lg_file := Some path, lg_disk := (lg_disk lg)(path \<mapsto> []), lg_path := path\<rparr>))"

definition log_line :: "string \<Rightarrow> logger \<Rightarrow> logger" where
  "log_line message lg =
     (let lg = close_progress_line lg;
          lg = put_screen (message @ [newline]) lg
      in put_file (message @ [newline]) lg)"

definition log_file_line :: "string \<Rightarrow> logger \<Rightarrow> logger" where
  "log_file_line message lg = (if \<not> has_file lg then lg else put_file (message @ [newline]) lg)"

definition log_blank :: "logger \<Rightarrow> logger" where
  "log_blank lg =
     (let lg = close_progress_line lg;
          lg = put_screen [newline] lg
      in put_file [newline] lg)"

definition log_progress :: "string option \<Rightarrow> string \<Rightarrow> logger \<Rightarrow> logger" where
  "log_progress now message lg =
     (let lg = put_screen (carriage_return # message @ ''    '') lg;
          lg = lg\<lparr>lg_progress_open := True\<rparr>
      in put_file (''['' @ timestamp now @ ''] '' @ message @ [newline]) lg)"

definition sdc_default_log_path :: "string option \<Rightarrow> string" where
  "sdc_default_log_path now = ''sdcprobe-'' @ timestamp now @ ''.log''"

section \<open>Events\<close>

datatype event = Line string | File_Line string | Blank | Progress "string option" string

fun log_event :: "event \<Rightarrow> logger \<Rightarrow> logger" where
  "log_event (Line s) = log_line s"
| "log_event (File_Line s) = log_file_line s"
| "log_event Blank = log_blank"
| "log_event (Progress now s) = log_progress now s"

text \<open>The specification of the file: every event but nothing else, each on a line of its own.\<close>

fun report_line :: "event \<Rightarrow> string" where
  "report_line (Line s) = s"
| "report_line (File_Line s) = s"
| "report_line Blank = []"
| "report_line (Progress now s) = ''['' @ timestamp now @ ''] '' @ s"

definition report :: "event list \<Rightarrow> string" where
  "report es = concat (map (\<lambda>e. report_line e @ [newline]) es)"

text \<open>The specification of the screen: finished lines and the open progress line.\<close>

fun shown :: "string option \<Rightarrow> event list \<Rightarrow> string list \<times> string option" where
  "shown pl [] = ([], pl)"
| "shown pl (Line s # es) = apfst (\<lambda>ls. (case pl of None \<Rightarrow> [s] | Some p \<Rightarrow> [p, s]) @ ls) (shown None es)"
| "shown pl (Blank # es) = apfst (\<lambda>ls. (case pl of None \<Rightarrow> [[]] | Some p \<Rightarrow> [p, []]) @ ls) (shown None es)"
| "shown pl (File_Line s # es) = shown pl es"
| "shown pl (Progress now s # es) =
     shown (Some (s @ ''    '' @ (case pl of None \<Rightarrow> [] | Some p \<Rightarrow> drop (length s + 4) p))) es"

text \<open>A terminal: the finished lines, the current one and the column.\<close>

fun term_char :: "char \<Rightarrow> string list \<times> string \<times> nat \<Rightarrow> string list \<times> string \<times> nat" where
  "term_char c (ls, cur, col) =
     (if c = newline then (ls @ [cur], [], 0)
      else if c = carriage_return then (ls, cur, 0)
      else (ls, take col cur @ c # drop (Suc col) cur, Suc col))"

definition terminal :: "string \<Rightarrow> string list \<times> string \<times> nat \<Rightarrow> string list \<times> string \<times> nat" where
  "terminal s = fold term_char s"

definition plain :: "string \<Rightarrow> bool" where
  "plain s \<longleftrightarrow> newline \<notin> set s \<and> carriage_return \<notin> set s"

fun plain_event :: "event \<Rightarrow> bool" where
  "plain_event (Line s) = plain s"
| "plain_event (File_Line s) = plain s"
| "plain_event Blank = True"
| "plain_event (Progress now s) = plain s"

section \<open>The file\<close>

named_theorems log_simps \<comment> \<open>unfolds the logger\<close>

declare put_screen_def [log_simps] put_file_def [log_simps] close_progress_line_def [log_simps]
  log_line_def [log_simps] log_file_line_def [log_simps] log_blank_def [log_simps]
  log_progress_def [log_simps] has_file_def [log_simps] Let_def [log_simps]

lemma log_event_file:
  assumes "lg_file lg = Some p" and "lg_disk lg p = Some c"
  shows "lg_file (log_event e lg) = Some p"
    and "lg_disk (log_event e lg) = (lg_disk lg)(p \<mapsto> c @ report_line e @ [newline])"
    and "lg_path (log_event e lg) = lg_path lg"
  using assms by (cases e; auto simp: log_simps)+

lemma log_events_file:
  "lg_file lg = Some p \<Longrightarrow> lg_disk lg p = Some c \<Longrightarrow>
     lg_file (fold log_event es lg) = Some p \<and> lg_path (fold log_event es lg) = lg_path lg
     \<and> lg_disk (fold log_event es lg) = (lg_disk lg)(p \<mapsto> c @ report es)"
proof (induction es arbitrary: lg c)
  case Nil
  then show ?case by (simp add: report_def fun_upd_idem)
next
  case (Cons e es)
  have "lg_disk (log_event e lg) p = Some (c @ report_line e @ [newline])"
    using log_event_file(2) [OF Cons.prems, of e] by simp
  from Cons.IH [OF log_event_file(1) [OF Cons.prems] this] show ?case
    by (auto simp: report_def log_event_file [OF Cons.prems] fun_eq_iff)
qed

lemma log_events_no_file:
  "lg_file lg = None \<Longrightarrow> lg_file (fold log_event es lg) = None \<and> lg_disk (fold log_event es lg) = lg_disk lg"
proof (induction es arbitrary: lg)
  case (Cons e es)
  then have "lg_file (log_event e lg) = None" "lg_disk (log_event e lg) = lg_disk lg"
    by (cases e; simp add: log_simps)+
  with Cons.IH show ?case by simp
qed simp

section \<open>The screen\<close>

lemma newline_not_return [simp]: "newline \<noteq> carriage_return" "carriage_return \<noteq> newline"
  by (simp_all add: newline_def carriage_return_def)

lemma plain_Cons [simp]: "plain (c # s) \<longleftrightarrow> c \<noteq> newline \<and> c \<noteq> carriage_return \<and> plain s"
  by (auto simp: plain_def)

lemma plain_Nil [simp]: "plain []"
  by (simp add: plain_def)

lemma space_plain [simp]: "CHR '' '' \<noteq> newline" "CHR '' '' \<noteq> carriage_return"
  by (simp_all add: newline_def carriage_return_def)

lemma plain_append [simp]: "plain (s @ t) \<longleftrightarrow> plain s \<and> plain t"
  by (auto simp: plain_def)

lemma terminal_append: "terminal (s @ t) st = terminal t (terminal s st)"
  by (simp add: terminal_def)

lemma terminal_plain:
  "plain s \<Longrightarrow> col \<le> length cur \<Longrightarrow>
     terminal s (ls, cur, col) = (ls, take col cur @ s @ drop (col + length s) cur, col + length s)"
proof (induction s arbitrary: cur col)
  case Nil
  then show ?case by (simp add: terminal_def)
next
  case (Cons c s)
  let ?cur = "take col cur @ c # drop (Suc col) cur"
  have "terminal (c # s) (ls, cur, col) = terminal s (ls, ?cur, Suc col)"
    using Cons.prems by (simp add: terminal_def)
  also have "\<dots> = (ls, take (Suc col) ?cur @ s @ drop (Suc col + length s) ?cur, Suc col + length s)"
    using Cons.prems by (intro Cons.IH) simp_all
  finally show ?case using Cons.prems by (simp add: drop_Cons' add.commute)
qed

text \<open>What the terminal shows while the progress line is, or is not, open.\<close>

definition at_line :: "logger \<Rightarrow> string list \<Rightarrow> string option \<Rightarrow> bool" where
  "at_line lg ls pl \<longleftrightarrow>
     (case pl of
        None \<Rightarrow> \<not> lg_progress_open lg \<and> terminal (lg_screen lg) ([], [], 0) = (ls, [], 0)
      | Some p \<Rightarrow> lg_progress_open lg \<and> (\<exists>col. terminal (lg_screen lg) ([], [], 0) = (ls, p, col)))"

lemma terminal_newline: "terminal [newline] (ls, cur, col) = (ls @ [cur], [], 0)"
  by (simp add: terminal_def)

lemma terminal_line: "plain s \<Longrightarrow> terminal (s @ [newline]) (ls, [], 0) = (ls @ [s], [], 0)"
  by (simp add: terminal_append terminal_plain terminal_newline)

lemma terminal_return: "terminal (carriage_return # s) (ls, cur, col) = terminal s (ls, cur, 0)"
  by (simp add: terminal_def)

lemma at_line_close:
  "at_line lg ls pl \<Longrightarrow>
     at_line (close_progress_line lg) (ls @ (case pl of None \<Rightarrow> [] | Some p \<Rightarrow> [p])) None"
  by (auto simp: at_line_def close_progress_line_def put_screen_def terminal_append terminal_newline
      split: option.splits)

lemma at_line_put:
  "at_line lg ls None \<Longrightarrow> plain s \<Longrightarrow> at_line (put_file t (put_screen (s @ [newline]) lg)) (ls @ [s]) None"
  by (auto simp: at_line_def put_screen_def put_file_def terminal_append [of "lg_screen lg"] terminal_line
      split: option.splits)

lemma at_line_progress:
  "at_line lg ls pl \<Longrightarrow> plain s \<Longrightarrow>
     at_line (log_progress now s lg) ls (Some (s @ ''    '' @ (case pl of None \<Rightarrow> [] | Some p \<Rightarrow> drop (length s + 4) p)))"
  by (auto simp: at_line_def log_progress_def put_screen_def put_file_def Let_def terminal_return
      terminal_append [of "lg_screen lg"] terminal_plain [of "s @ ''    ''"] eval_nat_numeral split: option.splits)

lemma at_line_events:
  "at_line lg ls pl \<Longrightarrow> \<forall>e\<in>set es. plain_event e \<Longrightarrow>
     at_line (fold log_event es lg) (ls @ fst (shown pl es)) (snd (shown pl es))"
proof (induction es arbitrary: lg ls pl)
  case Nil
  then show ?case by simp
next
  case (Cons e es)
  show ?case
  proof (cases e)
    case (Line s)
    then have "at_line (log_event e lg) ((ls @ (case pl of None \<Rightarrow> [] | Some p \<Rightarrow> [p])) @ [s]) None"
      using at_line_put [OF at_line_close [OF Cons.prems(1)]] Cons.prems(2)
      by (simp add: log_line_def Let_def)
    from Cons.IH [OF this] Line Cons.prems(2) show ?thesis by (simp split: option.splits)
  next
    case (File_Line s)
    then have "at_line (log_event e lg) ls pl"
      using Cons.prems(1) by (auto simp: at_line_def log_simps split: option.splits)
    from Cons.IH [OF this] File_Line Cons.prems(2) show ?thesis by simp
  next
    case Blank
    then have "at_line (log_event e lg) ((ls @ (case pl of None \<Rightarrow> [] | Some p \<Rightarrow> [p])) @ [[]]) None"
      using at_line_put [OF at_line_close [OF Cons.prems(1)], of "[]"]
      by (simp add: log_blank_def Let_def)
    from Cons.IH [OF this] Blank Cons.prems(2) show ?thesis by (simp split: option.splits)
  next
    case (Progress now s)
    from Cons.IH [OF at_line_progress [OF Cons.prems(1), of s now]] Progress Cons.prems(2)
    show ?thesis by simp
  qed
qed

text \<open>
  Property C33: the report file holds every event of a run, in order, each on a line of its own
  (progress lines time-stamped), and is not closed under the run; without a file nothing is
  written anywhere but on the screen.
\<close>

theorem report_file_complete:
  "let final = fold log_event es (snd (log_open fopen_ok path (new_logger screen disk)))
   in has_file final = fopen_ok
      \<and> lg_disk final = (if fopen_ok then disk(path \<mapsto> report es) else disk)"
proof (cases fopen_ok)
  case True
  let ?lg = "snd (log_open True path (new_logger screen disk))"
  have "lg_file ?lg = Some path" "lg_disk ?lg path = Some []"
    by (simp_all add: log_open_def log_close_def new_logger_def log_simps)
  from log_events_file [OF this, of es] True show ?thesis
    by (simp add: Let_def has_file_def) (simp add: log_open_def log_close_def new_logger_def log_simps)
next
  case False
  let ?lg = "snd (log_open False path (new_logger screen disk))"
  have "lg_file ?lg = None" "lg_disk ?lg = disk"
    by (simp_all add: log_open_def log_close_def new_logger_def log_simps)
  with log_events_no_file [of ?lg es] False show ?thesis by (simp add: Let_def has_file_def)
qed

text \<open>
  Property C34: on a terminal nothing of the report is lost. Whatever mixture of report lines
  and progress lines a run writes, every report line and blank line ends up as a finished line
  of its own with exactly its text, in order, and only progress lines are written over.
\<close>

theorem screen_lines_intact:
  assumes "\<forall>e\<in>set es. plain_event e"
  shows "fst (terminal (lg_screen (log_close (fold log_event es (new_logger [] disk)))) ([], [], 0))
    = fst (shown None es) @ (case snd (shown None es) of None \<Rightarrow> [] | Some p \<Rightarrow> [p])"
proof -
  have "at_line (new_logger [] disk) [] None" by (simp add: at_line_def new_logger_def terminal_def)
  from at_line_close [OF at_line_events [OF this assms]] show ?thesis
    by (auto simp: at_line_def log_close_def Let_def has_file_def)
qed

lemma shown_subseq: "subseq [s. Line s \<leftarrow> es] (fst (shown pl es))"
  by (induction pl es rule: shown.induct)
    (auto simp: list_emb_append2 split: option.splits)

lemma screen_lines_intact_witness:
  "fst (terminal (lg_screen (log_close (fold log_event
       [Line ''a'', Progress None ''10'', Progress None ''20'', Line ''b''] (new_logger [] (\<lambda>_. None))))) ([], [], 0))
     = [''a'', ''20    '', ''b'']"
proof -
  have "\<forall>e\<in>set [Line ''a'', Progress None ''10'', Progress None ''20'', Line ''b'']. plain_event e"
    by (simp add: newline_def carriage_return_def)
  from screen_lines_intact [OF this] show ?thesis by simp
qed

end
