(* ===== verification/Probe_Loop.thy ===== *)
theory Probe_Loop
  imports Logger Prelude "HOL-Library.Signed_Division"
begin

text \<open>
  The loop both probes run on a core (sdcprobe.cpp, \<open>run_on_current_cpu\<close> and
  \<open>run_rbx_on_current_cpu\<close>): rounds until a deadline, an interrupt polled before each round,
  a progress line every 30 seconds. The clock, the interrupt flag and the time of day are
  the environment: what they answer when asked for the \<open>t\<close>-th time. The loop may run for ever (a
  clock that stands still), so it is a partial function: None is a run that does not return, or
  one with a round that is undefined. The locale gives what every probe inherits from the loop.
\<close>

section \<open>The environment\<close>

record env =
  e_now :: "nat \<Rightarrow> int"
  e_interrupt :: "nat \<Rightarrow> bool"
  e_stamp :: "nat \<Rightarrow> string option"

text \<open>\<open>e_now\<close>: the steady clock, in nanoseconds.\<close>

definition k_progress_interval_s :: int where "k_progress_interval_s = 30"

definition nanos :: "int \<Rightarrow> int" where "nanos s = s * 1000000000"

definition k_max_reported_per_cpu :: u32 where "k_max_reported_per_cpu = 20"

section \<open>The loop\<close>

function next_progress_after :: "int \<Rightarrow> int \<Rightarrow> int" where
  "next_progress_after now next_progress =
     (if next_progress \<le> now then next_progress_after now (next_progress + nanos k_progress_interval_s)
      else next_progress)"
  by pat_completeness auto
termination
  by (relation "measure (\<lambda>(now, next_progress). nat (now - next_progress + 1))")
    (auto simp: nanos_def k_progress_interval_s_def)

declare next_progress_after.simps [simp del]

definition report_progress ::
  "env \<Rightarrow> (int \<Rightarrow> 's \<Rightarrow> string) \<Rightarrow> int \<Rightarrow> int \<Rightarrow> nat \<Rightarrow> logger \<Rightarrow> 's \<Rightarrow> int \<times> nat \<times> logger" where
  \<comment> \<open>the end of a round: the progress line if it is due, and when the next one is\<close>
  "report_progress env message start next_progress t lg s =
     (let now = e_now env t in
      if next_progress \<le> now then
        let elapsed_s = (now - start) sdiv nanos 1
        in (next_progress_after now next_progress, t + 2,
            log_progress (e_stamp env (t + 1)) (message elapsed_s s) lg)
      else (next_progress, t + 1, lg))"

type_synonym 's probe_body = "nat \<Rightarrow> logger \<Rightarrow> 's \<Rightarrow> (nat \<times> logger \<times> 's) option"

partial_function (option) measured_loop ::
  "env \<Rightarrow> 's probe_body \<Rightarrow> (int \<Rightarrow> 's \<Rightarrow> string) \<Rightarrow> int \<Rightarrow> int \<Rightarrow> int \<Rightarrow> nat \<Rightarrow> logger \<Rightarrow> 's
    \<Rightarrow> (bool \<times> nat \<times> logger \<times> 's) option" where
  "measured_loop env body message start deadline next_progress t lg s =
     (if \<not> e_now env t < deadline then Some (False, t + 1, lg, s)
      else if e_interrupt env (t + 1) then Some (True, t + 2, lg, s)
      else do {
        (t, lg, s) \<leftarrow> body (t + 2) lg s;
        let (next_progress, t, lg) = report_progress env message start next_progress t lg s;
        measured_loop env body message start deadline next_progress t lg s
      })"

definition run_measured ::
  "env \<Rightarrow> 's probe_body \<Rightarrow> (int \<Rightarrow> 's \<Rightarrow> string) \<Rightarrow> u32 \<Rightarrow> nat \<Rightarrow> logger \<Rightarrow> 's
    \<Rightarrow> (bool \<times> int \<times> nat \<times> logger \<times> 's) option" where
  \<comment> \<open>with the start and the finish read; the \<open>int\<close> of the result is the milliseconds elapsed\<close>
  "run_measured env body message minutes t lg s =
     do {
       let start = e_now env t;
       let deadline = start + nanos (60 * uint minutes);
       let next_progress = start + nanos k_progress_interval_s;
       (interrupted, t, lg, s) \<leftarrow> measured_loop env body message start deadline next_progress (t + 1) lg s;
       let finish = e_now env t;
       Some (interrupted, (finish - start) sdiv 1000000, t + 1, lg, s)
     }"

section \<open>What a probe inherits\<close>

lemma measured_loop_induct [consumes 1, case_names finished interrupted again]:
  assumes "measured_loop env body message start deadline np t lg s = Some r"
    and "\<And>np t lg s. \<not> e_now env t < deadline \<Longrightarrow> P np t lg s (False, t + 1, lg, s)"
    and "\<And>np t lg s. e_now env t < deadline \<Longrightarrow> e_interrupt env (t + 1) \<Longrightarrow> P np t lg s (True, t + 2, lg, s)"
    and "\<And>np t lg s t1 lg1 s1 np2 t2 lg2 r. e_now env t < deadline \<Longrightarrow> \<not> e_interrupt env (t + 1)
      \<Longrightarrow> body (t + 2) lg s = Some (t1, lg1, s1)
      \<Longrightarrow> report_progress env message start np t1 lg1 s1 = (np2, t2, lg2)
      \<Longrightarrow> P np2 t2 lg2 s1 r \<Longrightarrow> P np t lg s r"
  shows "P np t lg s r"
proof -
  let ?Q = "\<lambda>env' body' message' start' deadline' np t lg s r. env' = env \<longrightarrow> body' = body
    \<longrightarrow> message' = message \<longrightarrow> start' = start \<longrightarrow> deadline' = deadline \<longrightarrow> P np t lg s r"
  have "?Q env body message start deadline np t lg s r"
  proof (rule measured_loop.raw_induct [where P = ?Q, OF _ assms(1)], intro impI)
    fix loop env' body' message' start' deadline' np t lg s r
    assume IH: "\<And>env' body' message' start' deadline' np t lg s r.
        loop env' body' message' start' deadline' np t lg s = Some r
        \<Longrightarrow> ?Q env' body' message' start' deadline' np t lg s r"
      and run: "(if \<not> e_now env' t < deadline' then Some (False, t + 1, lg, s)
        else if e_interrupt env' (t + 1) then Some (True, t + 2, lg, s)
        else do {
          (t, lg, s) \<leftarrow> body' (t + 2) lg s;
          let (np, t, lg) = report_progress env' message' start' np t lg s;
          loop env' body' message' start' deadline' np t lg s
        }) = Some r"
      and eqs: "env' = env" "body' = body" "message' = message" "start' = start" "deadline' = deadline"
    note step = run [unfolded eqs]
    consider "\<not> e_now env t < deadline" | "e_now env t < deadline" "e_interrupt env (t + 1)"
      | t1 lg1 s1 where "e_now env t < deadline" "\<not> e_interrupt env (t + 1)"
          "body (t + 2) lg s = Some (t1, lg1, s1)"
      using step by (auto split: if_splits bind_splits)
    then show "P np t lg s r"
    proof cases
      case 1
      with step assms(2) show ?thesis by auto
    next
      case 2
      with step assms(3) show ?thesis by auto
    next
      case (3 t1 lg1 s1)
      obtain np2 t2 lg2 where rp: "report_progress env message start np t1 lg1 s1 = (np2, t2, lg2)"
        by (metis surj_pair)
      have "loop env body message start deadline np2 t2 lg2 s1 = Some r"
        using step 3 rp by simp
      from IH [OF this] have "P np2 t2 lg2 s1 r" by simp
      with assms(4) [OF 3(1,2,3) rp] show ?thesis by blast
    qed
  qed
  then show ?thesis by simp
qed

lemma report_progress_tick:
  "report_progress env message start np t lg s = (np2, t2, lg2) \<Longrightarrow> t < t2"
  by (auto simp: report_progress_def Let_def split: if_splits)

section \<open>What a probe inherits\<close>

text \<open>
  A probe's round, with an invariant of its state and the rounds it counts. A round may ask the
  environment something, so its tick does not go back.
\<close>

locale probe =
  fixes body :: "'s probe_body" and inv :: "'s \<Rightarrow> bool" and rounds :: "'s \<Rightarrow> u64"
  assumes keeps: "inv s \<Longrightarrow> body t lg s = Some (t', lg', s') \<Longrightarrow> inv s' \<and> t \<le> t' \<and> rounds s' = rounds s + 1"
begin

lemma loop_result:
  assumes "measured_loop env body message start deadline np t lg s = Some r" and "inv s"
  shows "inv (snd (snd (snd r))) \<and> t < fst (snd r)
    \<and> (if fst r then e_interrupt env (fst (snd r) - 1) else deadline \<le> e_now env (fst (snd r) - 1))"
  using assms
proof (induction rule: measured_loop_induct)
  case (again np t lg s t1 lg1 s1 np2 t2 lg2 r)
  then show ?case using keeps report_progress_tick by fastforce
qed auto

lemma returns:
  assumes clock: "\<And>k. late \<le> k \<Longrightarrow> deadline \<le> e_now env k"
    and defined: "\<And>t lg s. inv s \<Longrightarrow> body t lg s \<noteq> None" and "inv s"
  shows "\<exists>r. measured_loop env body message start deadline np t lg s = Some r"
  using \<open>inv s\<close>
proof (induction "late - t" arbitrary: np t lg s rule: less_induct)
  case less
  show ?case
  proof (cases "e_now env t < deadline \<and> \<not> e_interrupt env (t + 1)")
    case False
    then show ?thesis by (subst measured_loop.simps) auto
  next
    case True
    obtain t1 lg1 s1 where b: "body (t + 2) lg s = Some (t1, lg1, s1)"
      using defined [OF less.prems] by (metis not_None_eq prod_cases3)
    obtain np2 t2 lg2 where rp: "report_progress env message start np t1 lg1 s1 = (np2, t2, lg2)"
      by (metis surj_pair)
    have "t < late" using clock [of t] True by (meson leI not_less)
    moreover have "t < t2" "inv s1" using keeps [OF less.prems b] report_progress_tick [OF rp] by auto
    ultimately have "\<exists>r. measured_loop env body message start deadline np2 t2 lg2 s1 = Some r"
      by (intro less.hyps) auto
    with True b rp show ?thesis by (subst measured_loop.simps) simp
  qed
qed

lemma run_result:
  assumes "run_measured env body message minutes t lg s = Some (i, ms, t', lg', s')" and "inv s"
  shows "inv s' \<and> t < t'
    \<and> (if i then e_interrupt env (t' - 2)
       else e_now env t + nanos (60 * uint minutes) \<le> e_now env (t' - 2))"
proof -
  obtain r where "measured_loop env body message (e_now env t) (e_now env t + nanos (60 * uint minutes))
      (e_now env t + nanos k_progress_interval_s) (t + 1) lg s = Some r"
      "i = fst r" "t' = fst (snd r) + 1" "s' = snd (snd (snd r))"
    using assms(1) by (auto simp: run_measured_def Let_def split: bind_splits)
  with loop_result [OF this(1) assms(2)] show ?thesis by auto
qed

lemma run_returns:
  assumes "\<And>T. \<exists>late. \<forall>k\<ge>late. T \<le> e_now env k"
    and "\<And>t lg s. inv s \<Longrightarrow> body t lg s \<noteq> None" and "inv s"
  shows "\<exists>r. run_measured env body message minutes t lg s = Some r"
proof -
  obtain late where "\<And>k. late \<le> k \<Longrightarrow> e_now env t + nanos (60 * uint minutes) \<le> e_now env k"
    using assms(1) by blast
  from returns [OF this assms(2,3)] obtain r where
    "measured_loop env body message (e_now env t) (e_now env t + nanos (60 * uint minutes))
      (e_now env t + nanos k_progress_interval_s) (t + 1) lg s = Some r" by blast
  then show ?thesis by (cases r) (simp add: run_measured_def Let_def)
qed

end

end
