(* ===== verification/Repro.thy ===== *)
theory Repro
  imports Fnv Probe_Loop
begin

text \<open>
  The reproducer the payload was compiled from (rbx-repro/repro.cpp): the data it generates,
  its hash, and its loop, with the hash a pass returned and the clock as parameters.
\<close>

record repro_chunk =
  rc_edited_at_s :: f64
  rc_nodes :: "u16 list"

text \<open>The functions take the callback \<open>emit\<close>, a function from bytes to a change of the state.\<close>

definition emit_u64 :: "(u8 list \<Rightarrow> 's \<Rightarrow> 's) \<Rightarrow> u64 \<Rightarrow> 's \<Rightarrow> 's" where
  "emit_u64 emit v = emit (map (\<lambda>i. ucast (drop_bit (8 * i) v AND 0xFF)) [0..<8])"

definition emit_i16 :: "(u8 list \<Rightarrow> 's \<Rightarrow> 's) \<Rightarrow> u16 \<Rightarrow> 's \<Rightarrow> 's" where
  "emit_i16 emit v = emit [ucast (v AND 0xFF), ucast (drop_bit 8 v AND 0xFF)]"

definition emit_state :: "repro_chunk list \<Rightarrow> (u8 list \<Rightarrow> 's \<Rightarrow> 's) \<Rightarrow> 's \<Rightarrow> 's" where
  "emit_state chunks emit s =
     fold (\<lambda>chunk s. fold (emit_i16 emit) (rc_nodes chunk) (emit_u64 emit (of_nat (length (rc_nodes chunk))) s))
       chunks (emit_u64 emit (of_nat (length chunks)) s)"

definition repro_hash :: "repro_chunk list \<Rightarrow> u64" where
  "repro_hash chunks =
     emit_state chunks (\<lambda>bytes v. fold (\<lambda>b v. (v XOR ucast b) * k_fnv_prime) bytes v) k_fnv_basis"

definition repro_lcg :: "u32 \<Rightarrow> u32" where
  "repro_lcg seed = seed * 1664525 + 1013904223"

definition make_chunk :: "repro_chunk list \<times> u32 \<Rightarrow> repro_chunk list \<times> u32" where
  "make_chunk st =
     (let (chunks, seed) = st;
          (nodes, seed) = fold (\<lambda>_ (nodes, seed).
             let seed = repro_lcg seed in (nodes @ [ucast (drop_bit 16 seed)], seed)) [0..<4096] ([], seed)
      in (chunks @ [\<lparr>rc_edited_at_s = 0, rc_nodes = nodes\<rparr>], seed))"

definition make_chunks :: "nat \<Rightarrow> repro_chunk list" where
  "make_chunks n = fst (fold (\<lambda>_. make_chunk) [0..<n] ([], 12345))"

partial_function (option) repro_loop :: "(nat \<Rightarrow> u64) \<Rightarrow> (nat \<Rightarrow> bool) \<Rightarrow> u64 \<Rightarrow> nat \<Rightarrow> (nat \<times> string) option" where
  "repro_loop got time_over expected passes =
     (if got (passes + 1) \<noteq> expected
      then Some (1, ''MISMATCH pass '' @ dec (passes + 1) @ '' expected '' @ hex0 16 (unat expected)
             @ '' got '' @ hex0 16 (unat (got (passes + 1))) @ [newline])
      else if time_over (passes + 1) then Some (0, ''CLEAN passes '' @ dec (passes + 1) @ [newline])
      else repro_loop got time_over expected (passes + 1))"

definition repro_main :: "(nat \<Rightarrow> u64) \<Rightarrow> (nat \<Rightarrow> bool) \<Rightarrow> (nat \<times> string) option" where
  \<comment> \<open>\<open>got n\<close>: the hash the processor computed in pass \<open>n\<close>; \<open>time_over n\<close>: the clock after it\<close>
  "repro_main got time_over = repro_loop got time_over (got 1) 1"

section \<open>What the hash is\<close>

definition state_bytes :: "repro_chunk list \<Rightarrow> u8 list" where
  "state_bytes chunks =
     le_bytes 8 (of_nat (length chunks) :: u64)
     @ concat (map (\<lambda>chunk. le_bytes 8 (of_nat (length (rc_nodes chunk)) :: u64)
         @ concat (map (le_bytes 2) (rc_nodes chunk))) chunks)"

lemma mask_8: "(255 :: 'a::len word) = mask 8"
  by (simp add: mask_eq_exp_minus_1)

lemma and_255_byte [simp]:
  "(ucast (w AND 255 :: 'a::len word) :: u8) = ucast w"
  by (auto simp: mask_8 bit_eq_iff bit_simps dest: bit_imp_le_length)

lemma emit_u64_bytes: "emit_u64 emit v = emit (le_bytes 8 v)"
  by (simp add: emit_u64_def le_bytes_def)

lemma emit_i16_bytes: "emit_i16 emit = (\<lambda>v. emit (le_bytes 2 v))"
proof -
  have "[0..<2] = [0, 1 :: nat]" by (simp add: upt_rec)
  then show ?thesis by (simp add: emit_i16_def le_bytes_def fun_eq_iff)
qed

lemma fold_fnv: "fold (\<lambda>b v. (v XOR ucast b) * k_fnv_prime) bs h = foldl fnv_step h bs"
  by (induction bs arbitrary: h) (simp_all add: fnv_step_def)

lemma fold_emit: "fold (\<lambda>x h. foldl fnv_step h (f x)) xs h = foldl fnv_step h (concat (map f xs))"
  by (induction xs arbitrary: h) simp_all

lemma repro_hash_bytes: "repro_hash chunks = foldl fnv_step k_fnv_basis (state_bytes chunks)"
proof -
  have "fold (\<lambda>chunk h. foldl fnv_step (foldl fnv_step h (f chunk)) (g chunk)) chunks h
      = foldl fnv_step h (concat (map (\<lambda>chunk. f chunk @ g chunk) chunks))" for f g h
    using fold_emit [of "\<lambda>chunk. f chunk @ g chunk"] by simp
  then show ?thesis
    by (simp add: repro_hash_def emit_state_def emit_u64_bytes emit_i16_bytes fold_fnv fold_emit state_bytes_def)
qed

section \<open>What the data is\<close>

definition lcg_nodes :: "u32 \<Rightarrow> nat \<Rightarrow> u16 list" where
  "lcg_nodes seed n = map (\<lambda>i. ucast (drop_bit 16 ((repro_lcg ^^ Suc i) seed))) [0..<n]"

lemma make_nodes:
  "fold (\<lambda>_ (nodes, seed). (nodes @ [ucast (drop_bit 16 (repro_lcg seed))], repro_lcg seed)) [0..<n] ([], seed)
    = (lcg_nodes seed n, (repro_lcg ^^ n) seed)"
  by (induction n) (simp_all add: lcg_nodes_def Let_def)

definition chunk_seed :: "u32 \<Rightarrow> nat \<Rightarrow> u32" where
  "chunk_seed seed c = (repro_lcg ^^ (c * 4096)) seed"

lemma make_chunks_eq:
  "make_chunks n = map (\<lambda>c. \<lparr>rc_edited_at_s = 0, rc_nodes = lcg_nodes (chunk_seed 12345 c) 4096\<rparr>) [0..<n]"
proof -
  have "fold (\<lambda>_. make_chunk) [0..<n] ([], 12345) =
      (map (\<lambda>c. \<lparr>rc_edited_at_s = 0, rc_nodes = lcg_nodes (chunk_seed 12345 c) 4096\<rparr>) [0..<n], chunk_seed 12345 n)"
  proof (induction n)
    case (Suc n)
    have "(repro_lcg ^^ 4096) (chunk_seed 12345 n) = chunk_seed 12345 (Suc n)"
      by (simp only: chunk_seed_def mult_Suc funpow_add comp_apply)
    with Suc show ?case by (simp add: make_chunk_def make_nodes Let_def)
  qed (simp add: chunk_seed_def)
  then show ?thesis by (simp add: make_chunks_def)
qed

lemma all_passes_Suc:
  assumes "p < m"
  shows "(\<forall>k. p < k \<and> k \<le> m \<longrightarrow> P k) \<longleftrightarrow> P (Suc p) \<and> (\<forall>k. Suc p < k \<and> k \<le> m \<longrightarrow> P k)"
    (is "?all \<longleftrightarrow> _")
proof -
  have "{k. p < k \<and> k \<le> m} = insert (Suc p) {k. Suc p < k \<and> k \<le> m}" using assms by auto
  then have "(\<forall>k\<in>{k. p < k \<and> k \<le> m}. P k) \<longleftrightarrow> P (Suc p) \<and> (\<forall>k\<in>{k. Suc p < k \<and> k \<le> m}. P k)"
    by (simp only: ball_simps)
  then show ?thesis by (simp only: Ball_def mem_Collect_eq)
qed

text \<open>
  Property C39: the reproducer's verdict is exact. If the clock runs out in some pass, the program
  ends, and it ends with code 0 exactly when every pass up to the first one the clock stops at
  gave the hash of the first, and with code 1 as soon as one did not.
\<close>

theorem repro_verdict:
  assumes "time_over (Suc n)" and "1 \<le> n" and "\<forall>k. 2 \<le> k \<and> k \<le> n \<longrightarrow> \<not> time_over k"
  shows "\<exists>code out. repro_main got time_over = Some (code, out)
    \<and> code = (if \<forall>k. 1 \<le> k \<and> k \<le> Suc n \<longrightarrow> got k = got 1 then 0 else 1)"
proof -
  have "\<exists>code out. repro_loop got time_over expected p = Some (code, out)
      \<and> code = (if \<forall>k. p < k \<and> k \<le> Suc n \<longrightarrow> got k = expected then 0 else 1)"
    if "1 \<le> p" "p \<le> n" for p expected
    using that
  proof (induction "n - p" arbitrary: p)
    case 0
    then have "p = n" by simp
    then show ?case
      using assms(1) by (subst repro_loop.simps) (auto simp: le_Suc_eq)
  next
    case (Suc d)
    show ?case
    proof (cases "got (Suc p) = expected")
      case True
      have "\<not> time_over (Suc p)" using assms(3) Suc(2-4) by simp
      then have "repro_loop got time_over expected p = repro_loop got time_over expected (Suc p)"
        using True by (subst repro_loop.simps) simp
      moreover have "p < Suc n" using Suc(4) by simp
      note all_passes_Suc [OF this, of "\<lambda>k. got k = expected"]
      ultimately show ?thesis using Suc(1) [of "Suc p"] Suc(2-4) True by simp
    next
      case False
      then have "\<not> (\<forall>k. p < k \<and> k \<le> Suc n \<longrightarrow> got k = expected)" using Suc(4) by auto
      moreover have "\<exists>out. repro_loop got time_over expected p = Some (1, out)"
        using False by (subst repro_loop.simps) simp
      ultimately show ?thesis by auto
    qed
  qed
  from this [OF order_refl assms(2), of "got 1"]
  have "\<exists>code out. repro_main got time_over = Some (code, out)
      \<and> code = (if \<forall>k. 1 < k \<and> k \<le> Suc n \<longrightarrow> got k = got 1 then 0 else 1)"
    by (simp add: repro_main_def)
  moreover have "(\<forall>k. 1 \<le> k \<and> k \<le> Suc n \<longrightarrow> got k = got 1) = (\<forall>k. 1 < k \<and> k \<le> Suc n \<longrightarrow> got k = got 1)"
    using all_passes_Suc [of 0 "Suc n" "\<lambda>k. got k = got 1"] by (simp add: Suc_le_eq)
  ultimately show ?thesis by simp
qed

lemma repro_verdict_witness:
  "\<exists>out. repro_main (\<lambda>k. if k = 3 then 1 else 0) (\<lambda>k. 5 \<le> k) = Some (1, out)"
proof -
  have "\<not> (\<forall>k. 1 \<le> k \<and> k \<le> Suc 4 \<longrightarrow> (if k = 3 then 1 else 0) = (if (1 :: nat) = 3 then 1 else (0 :: u64)))"
    by (auto intro!: exI [of _ 3])
  then show ?thesis
    using repro_verdict [of "\<lambda>k. 5 \<le> k" 4 "\<lambda>k. if k = 3 then 1 else 0"] by auto
qed

end
