(* ===== verification/Rbx_Arena.thy ===== *)
theory Rbx_Arena
  imports Rbx Repro
begin

text \<open>
  What \<open>build_arena\<close> leaves in memory: the data of the reproducer, in the layout of the vectors it
  was compiled against, whatever memory held before; and the hash it returns is the
  reproducer's.
\<close>

section \<open>Bytes, stores and loads\<close>

named_theorems mem_simps \<comment> \<open>loads over stores\<close>

lemma le_bytes_Suc: "le_bytes (Suc n) w = ucast w # le_bytes n (drop_bit 8 w)"
proof -
  have "[0..<Suc n] = 0 # map Suc [0..<n]" by (simp only: upt_conv_Cons map_Suc_upt zero_less_Suc)
  then show ?thesis by (simp add: le_bytes_def comp_def drop_bit_drop_bit add.commute)
qed

lemma of_le_bytes: "of_le_bytes (le_bytes n w) = take_bit (8 * n) w"
proof (induction n arbitrary: w)
  case 0
  then show ?case by (simp add: of_le_bytes_def le_bytes_def)
next
  case (Suc n)
  have "push_bit 8 (take_bit (8 * n) (drop_bit 8 w)) OR ucast (ucast w :: u8) = take_bit (8 * Suc n) w"
    by (rule bit_eqI) (auto simp: bit_simps dest: bit_imp_le_length)
  with Suc [of "drop_bit 8 w"] show ?case by (simp add: le_bytes_Suc of_le_bytes_def)
qed

lemma mem_read_write: "length bs = n \<Longrightarrow> mem_read a n (mem_write a bs m) = bs"
  by (rule nth_equalityI) (simp_all add: mem_read_def mem_write_def)

lemma mem_read_cong: "(\<And>x. a \<le> x \<Longrightarrow> x < a + n \<Longrightarrow> m x = m' x) \<Longrightarrow> mem_read a n m = mem_read a n m'"
  by (simp add: mem_read_def)

lemma mem_write_out: "x < a \<or> a + length bs \<le> x \<Longrightarrow> mem_write a bs m x = m x"
  by (auto simp: mem_write_def)

lemma take_bit_full [simp]: "take_bit 64 (v :: u64) = v" "take_bit 16 (w :: u16) = w"
  by (auto simp: bit_eq_iff bit_simps dest: bit_imp_le_length)

lemma load64_store64 [mem_simps]: "load64 a (store64 a v m) = v"
  by (simp add: load64_def store64_def mem_read_write of_le_bytes)

lemma load16_store16 [mem_simps]: "load16 a (store16 a v m) = v"
  by (simp add: load16_def store16_def mem_read_write of_le_bytes)

lemma load64_cong: "(\<And>x. a \<le> x \<Longrightarrow> x < a + 8 \<Longrightarrow> m x = m' x) \<Longrightarrow> load64 a m = load64 a m'"
  unfolding load64_def by (rule arg_cong [OF mem_read_cong])

lemma load16_cong: "(\<And>x. a \<le> x \<Longrightarrow> x < a + 2 \<Longrightarrow> m x = m' x) \<Longrightarrow> load16 a m = load16 a m'"
  unfolding load16_def by (rule arg_cong [OF mem_read_cong])

lemma store64_out [mem_simps]: "x < a \<or> a + 8 \<le> x \<Longrightarrow> store64 a v m x = m x"
  by (simp add: store64_def mem_write_out)

lemma store16_out [mem_simps]: "x < a \<or> a + 2 \<le> x \<Longrightarrow> store16 a v m x = m x"
  by (simp add: store16_def mem_write_out)

lemma load64_store64_other [mem_simps]: "a + 8 \<le> b \<or> b + 8 \<le> a \<Longrightarrow> load64 a (store64 b v m) = load64 a m"
  by (rule load64_cong) (auto simp: mem_simps)

lemma load16_store16_other [mem_simps]: "a + 2 \<le> b \<or> b + 2 \<le> a \<Longrightarrow> load16 a (store16 b v m) = load16 a m"
  by (rule load16_cong) (auto simp: mem_simps)

lemma fnv_bytes_eq: "fnv_bytes h v n = foldl fnv_step h (le_bytes n v)"
proof (induction n)
  case (Suc n)
  have "drop_bit (8 * n) v AND 255 = ucast (ucast (drop_bit (8 * n) v) :: u8)"
    by (auto simp: mask_8 bit_eq_iff bit_simps)
  with Suc show ?case by (simp add: fnv_bytes_def le_bytes_def fnv_step_def)
qed (simp add: fnv_bytes_def le_bytes_def)

section \<open>A chunk\<close>

lemma nodes_loop:
  assumes "fold (node_body nodes) [0..<n] (m, h, seed) = (m', h', seed')"
  shows "seed' = (repro_lcg ^^ n) seed \<and> h' = foldl fnv_step h (concat (map (le_bytes 2) (lcg_nodes seed n)))
    \<and> (\<forall>i<n. load16 (nodes + 2 * i) m' = lcg_nodes seed n ! i)
    \<and> (\<forall>x. x < nodes \<or> nodes + 2 * n \<le> x \<longrightarrow> m' x = m x)"
  using assms
proof (induction n arbitrary: m' h' seed')
  case 0
  then show ?case by (simp add: lcg_nodes_def)
next
  case (Suc n)
  obtain m1 h1 s1 where st: "fold (node_body nodes) [0..<n] (m, h, seed) = (m1, h1, s1)"
    by (metis surj_pair)
  note IH = Suc.IH [OF st]
  let ?v = "ucast (drop_bit 16 (repro_lcg s1)) :: u16"
  have "node_body nodes n (m1, h1, s1) = (m', h', seed')" using Suc.prems st by simp
  then have step: "m' = store16 (nodes + 2 * n) ?v m1" "seed' = repro_lcg s1"
      "h' = fnv_bytes h1 (ucast (load16 (nodes + 2 * n) m')) 2"
    by (auto simp: node_body_def repro_lcg_def Let_def)
  have bytes: "le_bytes 2 (ucast v :: u64) = le_bytes 2 v" for v :: u16
    by (simp add: le_bytes_def bit_eq_iff bit_simps)
  have nodes_Suc: "lcg_nodes seed (Suc n) = lcg_nodes seed n @ [?v]" using IH by (simp add: lcg_nodes_def)
  show ?case
  proof (intro conjI allI impI)
    show "seed' = (repro_lcg ^^ Suc n) seed" using step IH by simp
    show "h' = foldl fnv_step h (concat (map (le_bytes 2) (lcg_nodes seed (Suc n))))"
      using step IH by (simp add: nodes_Suc fnv_bytes_eq mem_simps bytes)
    show "load16 (nodes + 2 * i) m' = lcg_nodes seed (Suc n) ! i" if "i < Suc n" for i
    proof (cases "i = n")
      case True
      then show ?thesis using IH by (simp add: step mem_simps nodes_Suc nth_append lcg_nodes_def)
    next
      case False
      then have "i < n" using that by simp
      with IH show ?thesis by (simp add: step mem_simps nodes_Suc nth_append lcg_nodes_def)
    qed
    show "m' x = m x" if "x < nodes \<or> nodes + 2 * Suc n \<le> x" for x
      using that IH by (auto simp: step mem_simps)
  qed
qed

definition chunk_header :: "nat \<Rightarrow> nat" where
  "chunk_header c = k_chunks_address + c * sizeof_chunk"

definition chunk_nodes :: "nat \<Rightarrow> nat" where
  "chunk_nodes c = k_nodes_address + c * k_nodes_stride"

definition chunk_ok :: "memory \<Rightarrow> nat \<Rightarrow> u16 list \<Rightarrow> bool" where
  "chunk_ok m c vs \<longleftrightarrow> load64 (chunk_header c) m = 0
     \<and> load64 (chunk_header c + 8) m = of_nat (chunk_nodes c)
     \<and> load64 (chunk_header c + 16) m = of_nat (chunk_nodes c + k_nodes_per_chunk * 2)
     \<and> load64 (chunk_header c + 24) m = of_nat (chunk_nodes c + k_nodes_per_chunk * 2)
     \<and> (\<forall>i<k_nodes_per_chunk. load16 (chunk_nodes c + 2 * i) m = vs ! i)"

definition in_chunk :: "nat \<Rightarrow> nat \<Rightarrow> bool" where
  "in_chunk c x \<longleftrightarrow> chunk_header c \<le> x \<and> x < chunk_header c + 32
     \<or> chunk_nodes c \<le> x \<and> x < chunk_nodes c + k_nodes_per_chunk * 2"

lemma chunk_ok_cong:
  assumes "\<And>x. in_chunk c x \<Longrightarrow> m x = m' x" and "chunk_ok m c vs"
  shows "chunk_ok m' c vs"
proof -
  have "load64 (chunk_header c) m' = load64 (chunk_header c) m"
    "load64 (chunk_header c + 8) m' = load64 (chunk_header c + 8) m"
    "load64 (chunk_header c + 16) m' = load64 (chunk_header c + 16) m"
    "load64 (chunk_header c + 24) m' = load64 (chunk_header c + 24) m"
    by (rule load64_cong, simp add: assms(1) in_chunk_def)+
  moreover have "load16 (chunk_nodes c + 2 * i) m' = load16 (chunk_nodes c + 2 * i) m"
    if "i < k_nodes_per_chunk" for i
    by (rule load16_cong) (use that in \<open>simp add: assms(1) in_chunk_def\<close>)
  ultimately show ?thesis using assms(2) by (simp add: chunk_ok_def)
qed

lemma chunks_disjoint:
  assumes "c < 64" "d < 64" "c \<noteq> d" "in_chunk c x"
  shows "\<not> in_chunk d x"
  using assms by (simp add: in_chunk_def chunk_header_def chunk_nodes_def rbx_constants) linarith

lemma chunk_body_ok:
  assumes "chunk_body c (m, h, seed) = (m', h', seed')" and "c < 64"
  shows "seed' = (repro_lcg ^^ 4096) seed
    \<and> h' = foldl fnv_step h (le_bytes 8 (of_nat k_nodes_per_chunk :: u64) @ concat (map (le_bytes 2) (lcg_nodes seed 4096)))
    \<and> chunk_ok m' c (lcg_nodes seed 4096) \<and> (\<forall>x. \<not> in_chunk c x \<longrightarrow> m' x = m x)"
proof -
  let ?e = "of_nat (chunk_nodes c + k_nodes_per_chunk * 2) :: u64"
  let ?m = "store64 (chunk_header c + 24) ?e (store64 (chunk_header c + 16) ?e
      (store64 (chunk_header c + 8) (of_nat (chunk_nodes c)) (store64 (chunk_header c) 0 m)))"
  have "fold (node_body (chunk_nodes c)) [0..<4096] (?m, fnv_bytes h (of_nat k_nodes_per_chunk) 8, seed) = (m', h', seed')"
    using assms(1) by (simp add: chunk_body_def chunk_header_def chunk_nodes_def k_nodes_per_chunk_def Let_def)
  note loop = nodes_loop [OF this]
  have apart: "chunk_header c + 32 \<le> chunk_nodes c"
    using assms(2) by (simp add: chunk_header_def chunk_nodes_def rbx_constants)
  have header: "load64 (chunk_header c + k) m' = load64 (chunk_header c + k) ?m" if "k \<le> 24" for k
    by (rule load64_cong) (use loop that apart in auto)
  have "chunk_ok m' c (lcg_nodes seed 4096)"
    using header [of 0] header [of 8] header [of 16] header [of 24] loop
    by (simp add: chunk_ok_def mem_simps k_nodes_per_chunk_def)
  moreover have "m' x = m x" if "\<not> in_chunk c x" for x
    using that loop by (auto simp: in_chunk_def mem_simps k_nodes_per_chunk_def)
  ultimately show ?thesis using loop by (simp add: fnv_bytes_eq)
qed

section \<open>The whole arena\<close>

lemma chunks_loop:
  assumes "fold chunk_body [0..<n] (m, h, seed) = (m', h', seed')" and "n \<le> 64"
  shows "seed' = chunk_seed seed n
    \<and> h' = foldl fnv_step h (concat (map (\<lambda>c. le_bytes 8 (of_nat k_nodes_per_chunk :: u64)
             @ concat (map (le_bytes 2) (lcg_nodes (chunk_seed seed c) 4096))) [0..<n]))
    \<and> (\<forall>c<n. chunk_ok m' c (lcg_nodes (chunk_seed seed c) 4096))
    \<and> (\<forall>x. (\<forall>c<n. \<not> in_chunk c x) \<longrightarrow> m' x = m x)"
  using assms
proof (induction n arbitrary: m' h' seed')
  case 0
  then show ?case by (simp add: chunk_seed_def)
next
  case (Suc n)
  obtain m1 h1 s1 where st: "fold chunk_body [0..<n] (m, h, seed) = (m1, h1, s1)" by (metis surj_pair)
  have n: "n < 64" "n \<le> 64" using Suc.prems(2) by simp_all
  note IH = Suc.IH [OF st n(2)]
  have "chunk_body n (m1, h1, s1) = (m', h', seed')" using Suc.prems(1) st by simp
  note step = chunk_body_ok [OF this n(1)]
  have s1: "s1 = chunk_seed seed n" using IH by simp
  have "seed' = chunk_seed seed (Suc n)"
    using step by (simp add: s1 chunk_seed_def funpow_add [symmetric] flip: comp_apply [of "repro_lcg ^^ 4096"])
  moreover have "chunk_ok m' c (lcg_nodes (chunk_seed seed c) 4096)" if "c < Suc n" for c
  proof (cases "c = n")
    case True
    with step s1 show ?thesis by simp
  next
    case False
    then have c: "c < n" "c < 64" using that n by simp_all
    have "m1 x = m' x" if "in_chunk c x" for x
      using chunks_disjoint [OF c(2) n(1) False that] step by simp
    moreover have "chunk_ok m1 c (lcg_nodes (chunk_seed seed c) 4096)" using IH c(1) by simp
    ultimately show ?thesis by (rule chunk_ok_cong)
  qed
  ultimately show ?case using step IH s1 by simp
qed

text \<open>
  Reading the data the way the payload does: a vector is its begin and end pointers, a chunk
  is 32 bytes with the vector of its nodes at offset 8.
\<close>

definition read_nodes :: "memory \<Rightarrow> nat \<Rightarrow> u16 list" where
  "read_nodes m chunk =
     (let from = unat (load64 (chunk + 8) m); till = unat (load64 (chunk + 16) m)
      in map (\<lambda>i. load16 (from + 2 * i) m) [0..<(till - from) div 2])"

definition read_chunks :: "memory \<Rightarrow> nat \<Rightarrow> u16 list list" where
  "read_chunks m vector =
     (let from = unat (load64 vector m); till = unat (load64 (vector + 8) m)
      in map (\<lambda>c. read_nodes m (from + c * sizeof_chunk)) [0..<(till - from) div sizeof_chunk])"

lemma unat_address: "a < 2 ^ 64 \<Longrightarrow> unat (of_nat a :: u64) = a"
  by (simp add: unat_of_nat take_bit_nat_eq_self_iff)

lemma read_nodes_ok:
  assumes "chunk_ok m c vs" and "c < 64" and "length vs = 4096"
  shows "read_nodes m (chunk_header c) = vs"
proof -
  have small: "chunk_nodes c < 2 ^ 64" "chunk_nodes c + k_nodes_per_chunk * 2 < 2 ^ 64"
    using assms(2) by (simp_all add: chunk_nodes_def rbx_constants)
  have ptr: "unat (load64 (chunk_header c + 8) m) = chunk_nodes c"
    "unat (load64 (chunk_header c + 16) m) = chunk_nodes c + k_nodes_per_chunk * 2"
    using assms(1) unat_address [OF small(1)] unat_address [OF small(2)]
    unfolding chunk_ok_def by simp_all
  have "load16 (chunk_nodes c + 2 * i) m = vs ! i" if "i < 4096" for i
    using assms(1) that by (simp add: chunk_ok_def k_nodes_per_chunk_def)
  with assms(3) show ?thesis
    unfolding read_nodes_def Let_def ptr by (intro nth_equalityI) (simp_all add: k_nodes_per_chunk_def)
qed

definition arena_start :: "memory \<Rightarrow> memory" where
  \<comment> \<open>memory before the chunks are written\<close>
  "arena_start m =
     store64 (k_vector_address + 16) (of_nat (k_chunks_address + k_chunk_count * sizeof_chunk))
       (store64 (k_vector_address + 8) (of_nat (k_chunks_address + k_chunk_count * sizeof_chunk))
         (store64 k_vector_address (of_nat k_chunks_address)
           (store64 (k_arena_base + k_fake_stack_size_log_offset) k_stack_size_log
             (mem_set k_shadow_map_base 0 k_shadow_map_bytes (mem_set k_arena_base 0 k_arena_bytes m)))))"

lemma build_arena_start:
  "build_arena (m, thread_area) =
     (let (m', hash, _) = fold chunk_body [0..<64] (arena_start m, fnv_bytes k_fnv_basis 64 8, 12345)
      in (hash, m', thread_area[0 := of_nat k_arena_base]))"
  by (simp add: build_arena_def arena_start_def k_chunk_count_def k_data_seed_def Let_def)

lemma vector_outside: "x < k_chunks_address \<Longrightarrow> \<not> in_chunk c x"
  by (simp add: in_chunk_def chunk_header_def chunk_nodes_def rbx_constants)

lemma build_arena_data:
  assumes "build_arena (m, thread_area) = (hash, m', thread_area')" and "thread_area \<noteq> []"
  shows "read_chunks m' k_vector_address = map rc_nodes (make_chunks 64)
    \<and> hash = repro_hash (make_chunks 64) \<and> thread_area' ! 0 = of_nat k_arena_base"
proof -
  obtain s where loop: "fold chunk_body [0..<64] (arena_start m, fnv_bytes k_fnv_basis 64 8, 12345) = (m', hash, s)"
      "thread_area' = thread_area[0 := of_nat k_arena_base]"
    using assms(1) by (auto simp: build_arena_start Let_def split: prod.splits)
  note ok = chunks_loop [OF loop(1) order_refl]
  have header: "load64 (k_vector_address + k) m' = load64 (k_vector_address + k) (arena_start m)" if "k \<le> 8" for k
  proof (rule load64_cong)
    fix x
    assume "x < k_vector_address + k + 8"
    then have "x < k_chunks_address" using that by (simp add: rbx_constants)
    then show "m' x = arena_start m x" using ok vector_outside by blast
  qed
  have ptr: "load64 k_vector_address m' = of_nat k_chunks_address"
    "load64 (k_vector_address + 8) m' = of_nat (k_chunks_address + k_chunk_count * sizeof_chunk)"
    using header [of 0] header [of 8] by (simp_all add: arena_start_def mem_simps)
  have small: "k_chunks_address < 2 ^ 64" "k_chunks_address + k_chunk_count * sizeof_chunk < 2 ^ 64"
    by (simp_all add: rbx_constants)
  have nodes: "read_nodes m' (k_chunks_address + c * sizeof_chunk) = lcg_nodes (chunk_seed 12345 c) 4096"
    if "c < 64" for c
    using read_nodes_ok [of m' c "lcg_nodes (chunk_seed 12345 c) 4096"] ok that
    by (simp add: chunk_header_def lcg_nodes_def)
  have "read_chunks m' k_vector_address = map (\<lambda>c. lcg_nodes (chunk_seed 12345 c) 4096) [0..<64]"
    unfolding read_chunks_def Let_def ptr unat_address [OF small(1)] unat_address [OF small(2)]
    using nodes by (simp add: k_chunk_count_def sizeof_chunk_def)
  moreover have "hash = repro_hash (make_chunks 64)"
    using ok by (simp add: repro_hash_bytes state_bytes_def make_chunks_eq fnv_bytes_eq lcg_nodes_def
        k_nodes_per_chunk_def comp_def)
  ultimately show ?thesis
    using loop(2) assms(2) by (simp add: make_chunks_eq comp_def)
qed


text \<open>
  Property C9: the arena is the reproducer's data. Whatever memory held before, after
  \<open>build_arena\<close> the vector at the address passed to the payload reads as the 64 chunks that
  repro.cpp generates; the hash returned, which every pass is compared with, is the
  reproducer's hash of them; and slot 0 of the thread area points at the fake stack.
\<close>

theorem arena_is_repro:
  assumes "build_arena (m, thread_area) = (hash, m', thread_area')" and "thread_area \<noteq> []"
  shows "read_chunks m' k_vector_address = map rc_nodes (make_chunks 64)
    \<and> hash = repro_hash (make_chunks 64) \<and> thread_area' ! 0 = of_nat k_arena_base"
  using assms by (rule build_arena_data)

section \<open>Building again\<close>

text \<open>The two ranges that are mapped, and agreement of two memories on them.\<close>

definition in_arena :: "nat \<Rightarrow> bool" where
  "in_arena x \<longleftrightarrow> k_arena_base \<le> x \<and> x < k_arena_base + k_arena_bytes"

definition in_shadow_map :: "nat \<Rightarrow> bool" where
  "in_shadow_map x \<longleftrightarrow> k_shadow_map_base \<le> x \<and> x < k_shadow_map_base + k_shadow_map_bytes"

definition shadow_of :: "nat \<Rightarrow> nat" where
  \<comment> \<open>the address the payload computes\<close>
  "shadow_of a = a div 8 + k_shadow_offset"

definition agree :: "memory \<Rightarrow> memory \<Rightarrow> bool" where
  "agree m m' \<longleftrightarrow> (\<forall>x. in_arena x \<or> in_shadow_map x \<longrightarrow> m x = m' x)"

lemma agree_refl [simp, intro]: "agree m m" by (simp add: agree_def)

lemma agree_sym: "agree m m' \<Longrightarrow> agree m' m" by (simp add: agree_def)

lemma agree_write: "agree m m' \<Longrightarrow> agree (mem_write a bs m) (mem_write a bs m')"
  by (simp add: agree_def mem_write_def)

lemma agree_store [intro]:
  "agree m m' \<Longrightarrow> agree (store64 a v m) (store64 a v m')"
  "agree m m' \<Longrightarrow> agree (store16 a w m) (store16 a w m')"
  by (simp_all add: store64_def store16_def agree_write)

lemma fold_related:
  "(\<And>x a b. R a b \<Longrightarrow> R (f x a) (f x b)) \<Longrightarrow> R a b \<Longrightarrow> R (fold f xs a) (fold f xs b)"
  by (induction xs arbitrary: a b) auto

definition same_but_memory :: "memory \<times> u64 \<times> u32 \<Rightarrow> memory \<times> u64 \<times> u32 \<Rightarrow> bool" where
  "same_but_memory st st' \<longleftrightarrow> agree (fst st) (fst st') \<and> snd st = snd st'"

lemma node_body_related: "same_but_memory st st' \<Longrightarrow> same_but_memory (node_body nodes n st) (node_body nodes n st')"
  by (auto simp: same_but_memory_def node_body_def Let_def mem_simps split: prod.splits)

lemma chunk_body_related: "same_but_memory st st' \<Longrightarrow> same_but_memory (chunk_body c st) (chunk_body c st')"
  unfolding chunk_body_def Let_def
  by (cases st; cases st'; simp)
    (rule fold_related [where R = same_but_memory], rule node_body_related, auto simp: same_but_memory_def)

lemma arena_start_agree: "agree (arena_start m) (arena_start m')"
proof -
  have "agree (mem_set k_shadow_map_base 0 k_shadow_map_bytes (mem_set k_arena_base 0 k_arena_bytes m))
    (mem_set k_shadow_map_base 0 k_shadow_map_bytes (mem_set k_arena_base 0 k_arena_bytes m'))"
    by (auto simp: agree_def mem_set_def in_arena_def in_shadow_map_def)
  then show ?thesis unfolding arena_start_def by (intro agree_store)
qed

lemma build_arena_same:
  assumes "build_arena (m, ta) = (h, m', ta')" and "build_arena (n, tb) = (k, n', tb')"
  shows "h = k \<and> agree m' n'"
proof -
  have "same_but_memory (fold chunk_body [0..<64] (arena_start m, fnv_bytes k_fnv_basis 64 8, 12345))
      (fold chunk_body [0..<64] (arena_start n, fnv_bytes k_fnv_basis 64 8, 12345))"
    by (rule fold_related [where R = same_but_memory], erule chunk_body_related)
      (simp add: same_but_memory_def arena_start_agree)
  with assms show ?thesis by (auto simp: build_arena_start same_but_memory_def Let_def split: prod.splits)
qed

lemma in_chunk_arena: "c < 64 \<Longrightarrow> in_chunk c x \<Longrightarrow> in_arena x"
  by (simp add: in_chunk_def chunk_header_def chunk_nodes_def in_arena_def rbx_constants) linarith

lemma arena_shadow_apart: "in_arena x \<Longrightarrow> \<not> in_shadow_map x"
  by (simp add: in_arena_def in_shadow_map_def rbx_constants)

lemma shadow_mapped: "in_arena a \<Longrightarrow> in_shadow_map (shadow_of a)"
  by (simp add: in_arena_def in_shadow_map_def shadow_of_def rbx_constants) linarith

lemma build_arena_frame:
  assumes "build_arena (m, ta) = (h, m', ta')"
  shows "(in_shadow_map x \<longrightarrow> m' x = 0) \<and> (\<not> in_arena x \<and> \<not> in_shadow_map x \<longrightarrow> m' x = m x)"
proof -
  obtain s where loop: "fold chunk_body [0..<64] (arena_start m, fnv_bytes k_fnv_basis 64 8, 12345) = (m', h, s)"
    using assms by (auto simp: build_arena_start Let_def split: prod.splits)
  have kept: "m' x = arena_start m x" if "\<not> in_arena x"
    using chunks_loop [OF loop order_refl] in_chunk_arena that by blast
  have stores: "arena_start m x = mem_set k_shadow_map_base 0 k_shadow_map_bytes (mem_set k_arena_base 0 k_arena_bytes m) x"
    if "\<not> in_arena x"
  proof -
    have apart: "x < a \<or> a + 8 \<le> x" if "k_arena_base \<le> a" "a + 8 \<le> k_arena_base + k_arena_bytes" for a
      using \<open>\<not> in_arena x\<close> that by (auto simp: in_arena_def)
    note out = store64_out [OF apart]
    show ?thesis
      unfolding arena_start_def by (simp add: out rbx_constants)
  qed
  show ?thesis
    using kept stores arena_shadow_apart [of x] by (auto simp: mem_set_def in_arena_def in_shadow_map_def)
qed

lemma build_arena_thread_area: "build_arena (m, ta) = (h, m', ta') \<Longrightarrow> ta' = ta[0 := of_nat k_arena_base]"
  by (auto simp: build_arena_start Let_def split: prod.splits)

text \<open>
  Property C22: rebuilding leaves nothing of what was there. Two calls of \<open>build_arena\<close>, whatever
  memory held before each of them, return the same hash and leave the same bytes in the arena
  and in its shadow map; they write nowhere else; and the shadow of every byte of the arena, at
  the address the payload computes, lies in the shadow map and is clean.
\<close>

theorem arena_rebuilt:
  assumes "build_arena (m, ta) = (h, m', ta')" and "build_arena (n, tb) = (k, n', tb')"
  shows "h = k \<and> agree m' n'
    \<and> {x. m' x \<noteq> m x} \<subseteq> {x. in_arena x \<or> in_shadow_map x}
    \<and> (\<forall>a. in_arena a \<longrightarrow> in_shadow_map (shadow_of a) \<and> m' (shadow_of a) = 0)"
proof (intro conjI subsetI allI impI)
  show "h = k" "agree m' n'" using build_arena_same [OF assms] by simp_all
  show "x \<in> {x. in_arena x \<or> in_shadow_map x}" if "x \<in> {x. m' x \<noteq> m x}" for x
    using that build_arena_frame [OF assms(1), of x] by auto
  fix a assume "in_arena a"
  then show "in_shadow_map (shadow_of a)" by (rule shadow_mapped)
  with build_arena_frame [OF assms(1)] show "m' (shadow_of a) = 0" by simp
qed

definition fresh_memory :: memory where
  "fresh_memory = (case build_arena (\<lambda>_. 0, replicate 16 0) of (hash, m, thread_area) \<Rightarrow> m)"

lemma build_arena_fresh:
  assumes "build_arena (m, ta) = (h, m', ta')"
  shows "agree m' fresh_memory"
proof -
  obtain k n' tb' where fresh: "build_arena (\<lambda>_. 0, replicate 16 0) = (k, n', tb')" by (rule prod_cases3)
  then have "fresh_memory = n'" by (simp only: fresh_memory_def case_prod_conv)
  with build_arena_same [OF assms fresh] show ?thesis by simp
qed

section \<open>Witnesses\<close>

lemma arena_is_repro_witness:
  "\<exists>hash m ta. build_arena (\<lambda>_. 0xAA, [7]) = (hash, m, ta) \<and> hash = repro_hash (make_chunks 64)"
proof -
  obtain h m t where b: "build_arena (\<lambda>_. 0xAA, [7]) = (h, m, t)" by (rule prod_cases3)
  have "h = repro_hash (make_chunks 64)" using arena_is_repro [OF b list.distinct(2)] by (elim conjE)
  with b show ?thesis by (intro exI conjI)
qed

lemma arena_rebuilt_witness:
  "fst (build_arena (\<lambda>_. 0xAA, [7])) = fst (build_arena (\<lambda>_. 0, [0]))"
proof -
  obtain h m t where b: "build_arena (\<lambda>_. 0xAA, [7]) = (h, m, t)" by (rule prod_cases3)
  obtain k n u where c: "build_arena (\<lambda>_. 0, [0]) = (k, n, u)" by (rule prod_cases3)
  from arena_rebuilt [OF b c] have "h = k" by (elim conjE)
  then show ?thesis by (simp only: b c fst_conv)
qed

end
