(* ===== verification/Rbx_Pass.thy ===== *)
theory Rbx_Pass
  imports Rbx_Arena
begin

text \<open>
  What \<open>sdc_rbx_prepare\<close>, \<open>sdc_rbx_run_pass\<close> and \<open>sdc_rbx_self_test\<close> guarantee. The payload is the
  machine code of rbx_payload.S; what the probe relies on is the locale \<open>payload_contract\<close>:
  given the thread pointer, the data it was compiled against and the real memset it returns the
  hash of the data and leaves the data and the fake stack usable. It is interpreted on the
  computation the payload was compiled from, the hash of repro.cpp over the arena.
\<close>

section \<open>One pass\<close>

definition entered :: "rbx_symbols \<Rightarrow> bool \<Rightarrow> rbx_state \<Rightarrow> bool" where
  "entered sy prctl_ok s \<longleftrightarrow> fst (tp_enter (sy_platform sy) prctl_ok (thread_area_9 sy) (rx_tp s))"

definition payload_tp :: "rbx_symbols \<Rightarrow> bool \<Rightarrow> rbx_state \<Rightarrow> u64 option" where
  \<comment> \<open>the pointer the payload of a pass reads\<close>
  "payload_tp sy prctl_ok s =
     tp_read (sy_platform sy) (snd (tp_enter (sy_platform sy) prctl_ok (thread_area_9 sy) (rx_tp s)))"

definition payload_run :: "rbx_symbols \<Rightarrow> payload \<Rightarrow> bool \<Rightarrow> rbx_state \<Rightarrow> memory \<times> u64 \<times> outcome" where
  "payload_run sy payload prctl_ok s =
     payload (payload_tp sy prctl_ok s) (rx_memset s) (rx_countdown s) (rx_mem s)"

lemma rebuild_fields:
  "rx_expected (rebuild s) = rx_expected s" "rx_capture (rebuild s) = rx_capture s" "rx_tp (rebuild s) = rx_tp s"
  "rx_prepared (rebuild s) = rx_prepared s" "rx_memset (rebuild s) = rx_memset s"
  "rx_mapped (rebuild s) = rx_mapped s" "rx_countdown (rebuild s) = rx_countdown s"
  by (simp_all add: rebuild_def split: prod.splits)

lemma rebuild_memory: "agree (rx_mem (rebuild s)) fresh_memory"
  by (auto simp: rebuild_def build_arena_fresh split: prod.splits)

lemma rebuild_thread_area: "rx_thread_area (rebuild s) = (rx_thread_area s)[0 := of_nat k_arena_base]"
  by (auto simp: rebuild_def build_arena_thread_area split: prod.splits)

lemma tp_enter_leave:
  "tp_enter pl ok val tp = (True, tp') \<Longrightarrow> length (tp_gs_block tp) = 8 \<Longrightarrow>
    tp_read pl tp' = Some val \<and> length (tp_gs_block (tp_leave pl tp')) = 8
    \<and> fst (tp_enter pl ok2 val2 (tp_leave pl tp')) \<and> tp_user_pointer (tp_leave pl tp') = tp_user_pointer tp"
  by (cases pl) (auto simp: Let_def split: if_splits)

lemma on_raised_disarms:
  "on_raised raised regs fc = Some (regs', fc') \<Longrightarrow> fr_regs (fc_record fc') = regs \<and> rg_rip regs' = fc_resume fc"
  by (cases raised) (auto simp: on_fault_def on_exception_def split: if_splits)

text \<open>A pass in two steps: what the payload leaves, and what is made of it.\<close>

definition after_payload :: "rbx_symbols \<Rightarrow> bool \<Rightarrow> memory \<Rightarrow> u64 \<Rightarrow> capture \<Rightarrow> rbx_state \<Rightarrow> rbx_state" where
  "after_payload sy prctl_ok m countdown fc s =
     s\<lparr>rx_mem := m, rx_countdown := countdown, rx_capture := fault_capture_disarm fc,
       rx_tp := tp_leave (sy_platform sy) (snd (tp_enter (sy_platform sy) prctl_ok (thread_area_9 sy) (rx_tp s)))\<rparr>"

definition armed :: "rbx_symbols \<Rightarrow> rbx_state \<Rightarrow> capture" where
  "armed sy s = fault_capture_arm fault_record_init (sy_landing sy) (rx_capture s)"

lemma run_pass_not_entered:
  "\<not> entered sy ok s \<Longrightarrow>
    sdc_rbx_run_pass sy payload ok s = Some (\<lparr>ps_faulted = False, ps_mismatch = True, ps_hash = 0,
      ps_expected = rx_expected s, ps_fault = fault_record_init\<rparr>,
      s\<lparr>rx_tp := snd (tp_enter (sy_platform sy) ok (thread_area_9 sy) (rx_tp s))\<rparr>)"
  by (auto simp: sdc_rbx_run_pass_def entered_def Let_def split: prod.splits)

lemma run_pass_returned:
  assumes "entered sy ok s" and "payload_run sy payload ok s = (m, cd, Returned hash)"
  shows "sdc_rbx_run_pass sy payload ok s =
    (let after = after_payload sy ok m cd (armed sy s) s;
         pass = \<lparr>ps_faulted = False, ps_mismatch = hash \<noteq> rx_expected s, ps_hash = hash,
                 ps_expected = rx_expected s, ps_fault = fault_record_init\<rparr>
     in Some (pass, if hash \<noteq> rx_expected s then rebuild after else after))"
  using assms
  by (cases "tp_enter (sy_platform sy) ok (thread_area_9 sy) (rx_tp s)")
    (auto simp: sdc_rbx_run_pass_def sdc_rbx_call_def entered_def payload_run_def payload_tp_def
      after_payload_def armed_def fault_capture_arm_def fault_capture_disarm_def Let_def)

lemma run_pass_raised:
  assumes "entered sy ok s" and "payload_run sy payload ok s = (m, cd, Raised raised regs)"
  shows "sdc_rbx_run_pass sy payload ok s =
    map_option (\<lambda>(regs', fc). (\<lparr>ps_faulted = True, ps_mismatch = False, ps_hash = 0,
        ps_expected = rx_expected s, ps_fault = fc_record fc\<rparr>, rebuild (after_payload sy ok m cd fc s)))
      (on_raised raised regs (armed sy s))"
proof -
  have landing: "rg_rip regs' = sy_landing sy" if "on_raised raised regs (armed sy s) = Some (regs', fc)" for regs' fc
    using on_raised_disarms [OF that] by (simp add: armed_def fault_capture_arm_def)
  show ?thesis
    using assms landing
    by (cases "tp_enter (sy_platform sy) ok (thread_area_9 sy) (rx_tp s)")
      (auto simp: sdc_rbx_run_pass_def sdc_rbx_call_def entered_def payload_run_def payload_tp_def
        after_payload_def armed_def fault_capture_disarm_def Let_def split: option.splits)
qed

lemma run_pass_entered_cases:
  assumes "entered sy ok s" and "sdc_rbx_run_pass sy payload ok s = Some (pass, s')"
  obtains (returned) m cd hash where "payload_run sy payload ok s = (m, cd, Returned hash)"
      "pass = \<lparr>ps_faulted = False, ps_mismatch = hash \<noteq> rx_expected s, ps_hash = hash,
                 ps_expected = rx_expected s, ps_fault = fault_record_init\<rparr>"
      "s' = (let after = after_payload sy ok m cd (armed sy s) s in if hash \<noteq> rx_expected s then rebuild after else after)"
    | (raised) m cd raised regs regs' fc where "payload_run sy payload ok s = (m, cd, Raised raised regs)"
      "on_raised raised regs (armed sy s) = Some (regs', fc)"
      "pass = \<lparr>ps_faulted = True, ps_mismatch = False, ps_hash = 0,
        ps_expected = rx_expected s, ps_fault = fc_record fc\<rparr>"
      "s' = rebuild (after_payload sy ok m cd fc s)"
proof -
  obtain m cd result where run: "payload_run sy payload ok s = (m, cd, result)" by (rule prod_cases3)
  show thesis
  proof (cases result)
    case (Returned hash)
    with run returned run_pass_returned [OF assms(1), of payload] assms(2) show thesis
      by (auto simp: Let_def)
  next
    case (Raised x regs)
    note pay = run [unfolded Raised]
    obtain regs' fc where fc: "on_raised x regs (armed sy s) = Some (regs', fc)"
      using assms(2) [unfolded run_pass_raised [OF assms(1) pay]] by auto
    then show thesis
      using assms(2) [unfolded run_pass_raised [OF assms(1) pay]] by (intro raised [OF pay fc]) simp_all
  qed
qed

text \<open>
  Property C8: a pass says what the payload did and nothing else. When the thread pointer is
  set, a pass is faulted exactly if the payload raised an exception, then with its registers; it
  is a mismatch exactly if the payload returned a hash that is not the expected one; after
  either the arena and its shadow hold what a first build leaves there, whatever the payload
  wrote; and in every case capture is off again, the expected hash and the memset are kept, and
  the Windows thread slot is what it was.
\<close>

theorem pass_classified:
  assumes "entered sy ok s" and "length (tp_gs_block (rx_tp s)) = 8"
    and "sdc_rbx_run_pass sy payload ok s = Some (pass, s')"
  shows "(ps_faulted pass \<longleftrightarrow>
        (\<exists>m cd raised. payload_run sy payload ok s = (m, cd, Raised raised (fr_regs (ps_fault pass)))))
    \<and> (ps_mismatch pass \<longleftrightarrow> (\<exists>m cd h. payload_run sy payload ok s = (m, cd, Returned h) \<and> h \<noteq> rx_expected s))
    \<and> (ps_faulted pass \<or> ps_mismatch pass \<longrightarrow> agree (rx_mem s') fresh_memory)
    \<and> \<not> fc_armed (rx_capture s') \<and> rx_expected s' = rx_expected s \<and> rx_memset s' = rx_memset s
    \<and> tp_user_pointer (rx_tp s') = tp_user_pointer (rx_tp s)"
proof -
  obtain tp where tp: "tp_enter (sy_platform sy) ok (thread_area_9 sy) (rx_tp s) = (True, tp)"
    using assms(1) by (metis entered_def prod.collapse)
  note slot = tp_enter_leave [OF tp assms(2)]
  note fields = rebuild_fields after_payload_def fault_capture_disarm_def tp slot
  show ?thesis
    using assms(1,3)
  proof (cases rule: run_pass_entered_cases)
    case (returned m cd hash)
    then show ?thesis by (auto simp: fields rebuild_memory Let_def)
  next
    case (raised m cd raised regs regs' fc)
    have "fr_regs (fc_record fc) = regs" using on_raised_disarms [OF raised(2)] by simp
    with raised show ?thesis by (simp add: fields rebuild_memory)
  qed
qed

section \<open>The signature\<close>

lemma signature_iff:
  "sdc_rbx_is_signature sy fault \<longleftrightarrow>
     rg_rip (fr_regs fault) \<in> {sy_emit_begin sy ..< sy_emit_end sy}
     \<and> rg_rbx (fr_regs fault) = rg_rsp (fr_regs fault) + 0xA0"
  by (auto simp: sdc_rbx_is_signature_def k_rbx_signature_delta_def algebra_simps)

section \<open>The probe's state\<close>

definition rbx_ready :: "rbx_symbols \<Rightarrow> rbx_state \<Rightarrow> bool" where
  \<comment> \<open>ready for a pass, whatever is in the arena\<close>
  "rbx_ready sy s \<longleftrightarrow> rx_prepared s \<and> rx_expected s = repro_hash (make_chunks 64)
     \<and> rx_thread_area s \<noteq> [] \<and> rx_thread_area s ! 0 = of_nat k_arena_base
     \<and> \<not> fc_armed (rx_capture s) \<and> length (tp_gs_block (rx_tp s)) = 8
     \<and> (sy_platform sy = Linux \<longrightarrow> tp_gs_installed (rx_tp s))"

lemma ready_memset: "rbx_ready sy (s\<lparr>rx_memset := f\<rparr>) = rbx_ready sy s" "rbx_ready sy (s\<lparr>rx_countdown := c\<rparr>) = rbx_ready sy s"
  by (simp_all add: rbx_ready_def)

lemma ready_entered:
  assumes "rbx_ready sy s"
  shows "entered sy ok s" "payload_tp sy ok s = Some (thread_area_9 sy)"
  using assms
  by (cases "sy_platform sy"; simp add: rbx_ready_def entered_def payload_tp_def Let_def)+

lemma after_payload_ready:
  assumes "rbx_ready sy s"
  shows "rbx_ready sy (after_payload sy ok m cd fc s)"
  using assms
  by (cases "sy_platform sy") (simp_all add: rbx_ready_def after_payload_def fault_capture_disarm_def Let_def)

lemma rebuild_ready: "rbx_ready sy s \<Longrightarrow> rbx_ready sy (rebuild s)"
  by (cases "rx_thread_area s") (simp_all add: rbx_ready_def rebuild_fields rebuild_thread_area)

lemma run_pass_ready:
  assumes "rbx_ready sy s" and "sdc_rbx_run_pass sy payload ok s = Some (pass, s')"
  shows "rbx_ready sy s'"
  using ready_entered(1) [OF assms(1)] assms(2)
  by (cases rule: run_pass_entered_cases)
    (simp_all add: Let_def after_payload_ready [OF assms(1)] rebuild_ready)

lemma run_pass_memset:
  assumes "rbx_ready sy s" and "sdc_rbx_run_pass sy payload ok s = Some (pass, s')"
  shows "rx_memset s' = rx_memset s"
  using ready_entered(1) [OF assms(1)] assms(2)
  by (cases rule: run_pass_entered_cases) (auto simp: Let_def rebuild_fields after_payload_def)

lemma run_pass_agrees:
  assumes "rbx_ready sy s" and "sdc_rbx_run_pass sy payload ok s = Some (pass, s')"
    and "ps_faulted pass \<or> ps_mismatch pass"
  shows "agree (rx_mem s') fresh_memory"
  using ready_entered(1) [OF assms(1)] assms(2)
  by (cases rule: run_pass_entered_cases) (use assms(3) in \<open>auto simp: Let_def rebuild_memory\<close>)


section \<open>Preparing\<close>

definition rbx_initial :: "rbx_state \<Rightarrow> bool" where
  \<comment> \<open>the globals before the first \<open>sdc_rbx_prepare\<close>\<close>
  "rbx_initial s \<longleftrightarrow> \<not> rx_prepared s \<and> rx_memset s = Real_Memset \<and> length (rx_thread_area s) = 16
     \<and> \<not> fc_armed (rx_capture s) \<and> length (tp_gs_block (rx_tp s)) = 8 \<and> rx_mapped s = []"

lemma prepare_success:
  assumes "\<not> rx_prepared s" and "sdc_rbx_prepare sy os s = (None, s')"
  obtains h m ta tp where "os_avx2 os"
    "os_map_arena os = Some k_arena_base" "os_map_shadow os = Some k_shadow_map_base"
    "sdc_fault_capture_install (sy_platform sy) (os_install os)"
    "tp_enter (sy_platform sy) (os_prctl_ok os) (thread_area_9 sy) (rx_tp s) = (True, tp)"
    "build_arena (rx_mem s, rx_thread_area s) = (h, m, ta)"
    "s' = s\<lparr>rx_mapped := (k_shadow_map_base, k_shadow_map_bytes) # (k_arena_base, k_arena_bytes) # rx_mapped s,
            rx_tp := tp_leave (sy_platform sy) tp, rx_expected := h, rx_mem := m,
            rx_thread_area := ta, rx_prepared := True\<rparr>"
  using assms
  by (auto simp: sdc_rbx_prepare_def sdc_rbx_supported_def sdc_map_fixed_def Let_def
      split: if_splits option.splits prod.splits bool.splits)

lemma prepare_gives:
  assumes "rbx_initial s" and "sdc_rbx_prepare sy os s = (None, s')"
  shows "rbx_ready sy s' \<and> rx_mapped s' = [(k_shadow_map_base, k_shadow_map_bytes), (k_arena_base, k_arena_bytes)]
    \<and> read_chunks (rx_mem s') k_vector_address = map rc_nodes (make_chunks 64)
    \<and> agree (rx_mem s') fresh_memory \<and> rx_memset s' = Real_Memset"
proof -
  have "\<not> rx_prepared s" using assms(1) by (simp add: rbx_initial_def)
  then show ?thesis
    using assms(2)
  proof (cases rule: prepare_success)
    case (1 h m ta tp)
    have eight: "length (tp_gs_block (rx_tp s)) = 8" and area: "rx_thread_area s \<noteq> []"
      using assms(1) by (auto simp: rbx_initial_def)
    note arena = build_arena_data [OF 1(6) area]
    have "sy_platform sy = Linux \<longrightarrow> tp_gs_installed (tp_leave (sy_platform sy) tp)"
      using 1(5) by (auto simp: Let_def split: if_splits)
    with 1 arena assms(1) tp_enter_leave [OF 1(5) eight] have "rbx_ready sy s'"
      by (auto simp: rbx_ready_def rbx_initial_def build_arena_thread_area [OF 1(6)])
    then show ?thesis
      using 1 arena assms(1) build_arena_fresh [OF 1(6)] by (simp add: rbx_initial_def)
  qed
qed

text \<open>
  Property C31: a successful preparation is complete. The arena and its shadow are mapped at
  their addresses and nothing else is; the data in the arena is the reproducer's, and the hash
  every pass will be compared with is the reproducer's hash of it; the next thread-pointer entry
  cannot fail, so no pass is counted as a mismatch for want of one; and preparing again changes
  nothing.
\<close>

theorem prepare_ready:
  assumes "rbx_initial s" and "sdc_rbx_prepare sy os s = (None, s')"
  shows "rbx_ready sy s' \<and> set (rx_mapped s') = {(k_arena_base, k_arena_bytes), (k_shadow_map_base, k_shadow_map_bytes)}
    \<and> read_chunks (rx_mem s') k_vector_address = map rc_nodes (make_chunks 64)
    \<and> agree (rx_mem s') fresh_memory \<and> entered sy prctl_ok s' \<and> sdc_rbx_prepare sy os' s' = (None, s')"
proof -
  note given = prepare_gives [OF assms]
  then have "rx_prepared s'" by (simp add: rbx_ready_def)
  then have "sdc_rbx_prepare sy os' s' = (None, s')" by (simp add: sdc_rbx_prepare_def)
  with given ready_entered(1) [of sy s'] show ?thesis by (simp add: insert_commute)
qed

text \<open>
  Property C32: a failed preparation is not always undone. When a mapping is refused nothing
  stays mapped; when the exception handler or the thread pointer is refused, the arena and
  its shadow stay mapped although the probe is not prepared.
\<close>

theorem prepare_failure_leaves_mappings:
  assumes "rbx_initial s" and "sdc_rbx_prepare sy os s = (Some e, s')"
  shows "\<not> rx_prepared s' \<and> e \<noteq> [] \<and>
    rx_mapped s' = (if os_avx2 os \<and> os_map_arena os = Some k_arena_base \<and> os_map_shadow os = Some k_shadow_map_base
      then [(k_shadow_map_base, k_shadow_map_bytes), (k_arena_base, k_arena_bytes)] else [])"
proof -
  have nonempty: "take 159 (''cannot map '' @ rest) \<noteq> []" for rest by (simp add: take_eq_Nil)
  show ?thesis
    using assms nonempty
    by (auto simp: rbx_initial_def sdc_rbx_prepare_def sdc_rbx_supported_def sdc_map_fixed_def sdc_unmap_def Let_def
        split: if_splits option.splits prod.splits bool.splits)
qed


section \<open>What the probe relies on\<close>

definition arena_data :: "u16 list list" where
  "arena_data = map rc_nodes (make_chunks 64)"

definition chunks_hash :: "u16 list list \<Rightarrow> u64" where
  \<comment> \<open>the reproducer's hash of chunks with these nodes\<close>
  "chunks_hash nodes = repro_hash (map (\<lambda>vs. \<lparr>rc_edited_at_s = 0, rc_nodes = vs\<rparr>) nodes)"

lemma chunks_hash_data: "chunks_hash arena_data = repro_hash (make_chunks 64)"
  by (simp add: chunks_hash_def arena_data_def make_chunks_eq comp_def del: upt_rec_numeral)

lemma rebuild_data:
  "rx_thread_area s \<noteq> [] \<Longrightarrow> read_chunks (rx_mem (rebuild s)) k_vector_address = arena_data"
  by (auto simp: rebuild_def arena_data_def dest: build_arena_data split: prod.splits)

text \<open>
  \<open>usable\<close> is what the payload needs of its fake stack and shadow; a freshly built arena has it
  and a completed call keeps it.
\<close>

definition rbx_clean :: "(memory \<Rightarrow> bool) \<Rightarrow> rbx_symbols \<Rightarrow> rbx_state \<Rightarrow> bool" where
  "rbx_clean usable sy s \<longleftrightarrow> rbx_ready sy s \<and> rx_memset s = Real_Memset \<and> usable (rx_mem s)
     \<and> read_chunks (rx_mem s) k_vector_address = arena_data"

lemma taken_iff: "fc_armed fc \<Longrightarrow> (\<exists>regs' fc'. on_raised x regs fc = Some (regs', fc')) \<longleftrightarrow> taken x"
  by (cases x) (auto simp: on_fault_def on_exception_def)

lemma run_pass_taken:
  assumes "rbx_ready sy s" and "payload_run sy any ok s = (m, cd, Raised x regs)" and "taken x"
  shows "\<exists>pass s'. sdc_rbx_run_pass sy any ok s = Some (pass, s') \<and> ps_faulted pass \<and> fr_regs (ps_fault pass) = regs"
proof -
  have "fc_armed (armed sy s)" by (simp add: armed_def fault_capture_arm_def)
  from taken_iff [OF this, of x regs] assms(3) obtain regs' fc where fc: "on_raised x regs (armed sy s) = Some (regs', fc)"
    by blast
  with run_pass_raised [OF ready_entered(1) [OF assms(1)] assms(2)] on_raised_disarms [OF fc] show ?thesis by simp
qed

locale payload_contract =
  fixes sy :: rbx_symbols and payload :: payload and usable :: "memory \<Rightarrow> bool"
  assumes fresh: "agree m fresh_memory \<Longrightarrow> usable m"
    and hashes: "usable m \<Longrightarrow> read_chunks m k_vector_address = arena_data \<Longrightarrow>
      \<exists>m' countdown'. payload (Some (thread_area_9 sy)) Real_Memset countdown m
          = (m', countdown', Returned (chunks_hash (read_chunks m k_vector_address)))
        \<and> usable m' \<and> read_chunks m' k_vector_address = arena_data"
begin

lemma clean_pass:
  assumes "rbx_clean usable sy s"
  shows "\<exists>pass s'. sdc_rbx_run_pass sy payload ok s = Some (pass, s')
    \<and> \<not> ps_faulted pass \<and> \<not> ps_mismatch pass \<and> rbx_clean usable sy s'"
proof -
  have ready: "rbx_ready sy s" and real: "rx_memset s = Real_Memset"
    and mem: "usable (rx_mem s)" "read_chunks (rx_mem s) k_vector_address = arena_data"
    using assms by (simp_all add: rbx_clean_def)
  from hashes [OF mem, of "rx_countdown s"] obtain m cd where
    run: "payload (Some (thread_area_9 sy)) Real_Memset (rx_countdown s) (rx_mem s) = (m, cd, Returned (rx_expected s))"
    and m: "usable m" "read_chunks m k_vector_address = arena_data"
    using mem ready by (auto simp: chunks_hash_data rbx_ready_def)
  have "payload_run sy payload ok s = (m, cd, Returned (rx_expected s))"
    using run real ready_entered(2) [OF ready] by (simp add: payload_run_def)
  from run_pass_returned [OF ready_entered(1) [OF ready] this] show ?thesis
    using m real after_payload_ready [OF ready]
    by (auto simp: rbx_clean_def Let_def) (simp_all add: after_payload_def)
qed

lemma initial_clean:
  assumes "rbx_initial s" and "sdc_rbx_prepare sy os s = (None, s')"
  shows "rbx_clean usable sy s'"
  using prepare_gives [OF assms] fresh by (simp add: rbx_clean_def arena_data_def)

lemma detected_pass:
  \<comment> \<open>after a detection the probe is clean again, whatever the payload of that pass was\<close>
  assumes "rbx_ready sy s" and "sdc_rbx_run_pass sy any ok s = Some (pass, s')"
    and "ps_faulted pass \<or> ps_mismatch pass"
  shows "rbx_clean usable sy (s'\<lparr>rx_memset := Real_Memset\<rparr>)"
proof -
  have "read_chunks (rx_mem s') k_vector_address = arena_data"
    using ready_entered(1) [OF assms(1)] assms(2)
  proof (cases rule: run_pass_entered_cases)
    case (returned m cd hash)
    then show ?thesis
      using assms(1,3) by (simp add: Let_def rebuild_data after_payload_def rbx_ready_def)
  next
    case (raised m cd raised regs regs' fc)
    then show ?thesis using assms(1) by (simp add: rebuild_data after_payload_def rbx_ready_def)
  qed
  with run_pass_ready [OF assms(1,2)] fresh [OF run_pass_agrees [OF assms(1,2,3)]] show ?thesis
    by (simp add: rbx_clean_def ready_memset)
qed

lemma self_test_on_contract:
  assumes "rbx_clean usable sy s" and "\<forall>k. k \<noteq> 1 \<longrightarrow> payloads k = payload"
    and "\<forall>s1. rbx_ready sy s1 \<and> rx_memset s1 = Inject_Memset \<and> rx_countdown s1 = 1000 \<longrightarrow>
      (\<exists>injected s2. sdc_rbx_run_pass sy (payloads 1) (ok 1) s1 = Some (injected, s2)
        \<and> (ps_faulted injected \<or> ps_mismatch injected) \<and> P (rx_mem s1) injected)"
  shows "\<exists>result s' m injected. sdc_rbx_self_test sy payloads ok s = Some (result, s') \<and> P m injected
    \<and> st_clean_pass_ok result \<and> st_recovered result \<and> (st_injected_caught result \<longleftrightarrow> ps_faulted injected)
    \<and> (ps_faulted injected \<longrightarrow> st_detail result = fr_what (ps_fault injected) @ '' at ''
         @ sdc_rbx_describe_address sy (rg_rip (fr_regs (ps_fault injected))))
    \<and> rbx_clean usable sy s'"
proof -
  obtain p0 s0 where first: "sdc_rbx_run_pass sy payload (ok 0) s = Some (p0, s0)"
      "\<not> ps_faulted p0" "\<not> ps_mismatch p0" "rbx_clean usable sy s0"
    using clean_pass [OF assms(1)] by blast
  define s1 where "s1 = s0\<lparr>rx_countdown := 1000, rx_memset := Inject_Memset\<rparr>"
  have ready: "rbx_ready sy s1" using first(4) by (simp add: s1_def rbx_clean_def ready_memset)
  then obtain injected s2 where mid: "sdc_rbx_run_pass sy (payloads 1) (ok 1) s1 = Some (injected, s2)"
      "ps_faulted injected \<or> ps_mismatch injected" "P (rx_mem s1) injected"
    using assms(3) by (fastforce simp: s1_def)
  from detected_pass [OF ready mid(1,2)]
  obtain p2 s3 where last: "sdc_rbx_run_pass sy payload (ok 2) (s2\<lparr>rx_memset := Real_Memset\<rparr>) = Some (p2, s3)"
      "\<not> ps_faulted p2" "\<not> ps_mismatch p2" "rbx_clean usable sy s3"
    using clean_pass by blast
  have pay: "payloads 0 = payload" "payloads 2 = payload" using assms(2) by simp_all
  show ?thesis
  proof (cases "ps_faulted injected")
    case True
    with first last mid(1) pay have "sdc_rbx_self_test sy payloads ok s = Some
      (\<lparr>st_clean_pass_ok = True, st_injected_caught = True, st_recovered = True,
        st_detail = fr_what (ps_fault injected) @ '' at ''
          @ sdc_rbx_describe_address sy (rg_rip (fr_regs (ps_fault injected)))\<rparr>, s3)"
      by (simp add: sdc_rbx_self_test_def Let_def s1_def)
    with True last(4) mid(3) show ?thesis by fastforce
  next
    case False
    with first last mid(1) pay have "sdc_rbx_self_test sy payloads ok s = Some
      (\<lparr>st_clean_pass_ok = True, st_injected_caught = False, st_recovered = True, st_detail = []\<rparr>, s3)"
      by (simp add: sdc_rbx_self_test_def Let_def s1_def)
    with False last(4) mid(3) show ?thesis by fastforce
  qed
qed

end

text \<open>The payload is the compiled \<open>hash\<close> of repro.cpp: what that computes on the arena.\<close>

definition repro_payload :: payload where
  "repro_payload tp memset countdown m = (m, countdown, Returned (chunks_hash (read_chunks m k_vector_address)))"

interpretation repro: payload_contract sy repro_payload "\<lambda>_. True" for sy
  by unfold_locales (simp_all add: repro_payload_def)

text \<open>
  Property C30: the self-test's verdict is the truth about the machinery. With a payload that
  keeps its contract in the clean passes, and in the injected one a pass that raises an
  exception or returns a wrong hash after writing whatever it likes to memory, the self-test
  returns; the clean pass and the pass after it are reported good; the injection is reported
  caught exactly if an exception was raised, described with the address it was raised at.
\<close>

theorem self_test_verdict:
  assumes "payload_contract sy payload usable" and "rbx_clean usable sy s"
    and "payloads 0 = payload" and "\<forall>k\<ge>2. payloads k = payload"
    and "\<And>m. case snd (snd (payloads 1 (Some (thread_area_9 sy)) Inject_Memset 1000 m)) of
        Raised x regs \<Rightarrow> taken x | Returned h \<Rightarrow> h \<noteq> repro_hash (make_chunks 64)"
  shows "\<exists>result s' m. sdc_rbx_self_test sy payloads ok s = Some (result, s')
    \<and> st_clean_pass_ok result \<and> st_recovered result \<and> rbx_clean usable sy s'
    \<and> (case snd (snd (payloads 1 (Some (thread_area_9 sy)) Inject_Memset 1000 m)) of
        Returned h \<Rightarrow> \<not> st_injected_caught result
      | Raised x regs \<Rightarrow> st_injected_caught result \<and>
          (\<exists>what. st_detail result = what @ '' at '' @ sdc_rbx_describe_address sy (rg_rip regs)))"
proof -
  let ?broken = "\<lambda>m. snd (snd (payloads 1 (Some (thread_area_9 sy)) Inject_Memset 1000 m))"
  let ?P = "\<lambda>m injected. case ?broken m of Returned h \<Rightarrow> \<not> ps_faulted injected
    | Raised x regs \<Rightarrow> ps_faulted injected \<and> fr_regs (ps_fault injected) = regs"
  have "payloads k = payload" if "k \<noteq> 1" for k
    using assms(3,4) that by (cases "k = 0") simp_all
  then have same: "\<forall>k. k \<noteq> 1 \<longrightarrow> payloads k = payload" by blast
  have pass: "\<exists>injected s2. sdc_rbx_run_pass sy (payloads 1) (ok 1) s1 = Some (injected, s2)
      \<and> (ps_faulted injected \<or> ps_mismatch injected) \<and> ?P (rx_mem s1) injected"
    if "rbx_ready sy s1" "rx_memset s1 = Inject_Memset" "rx_countdown s1 = 1000" for s1
  proof -
    obtain m cd outcome where run: "payload_run sy (payloads 1) (ok 1) s1 = (m, cd, outcome)" by (rule prod_cases3)
    then have broken: "?broken (rx_mem s1) = outcome"
      using that ready_entered(2) [OF that(1)] by (simp add: payload_run_def)
    note good = assms(5) [of "rx_mem s1", unfolded broken]
    show ?thesis
    proof (cases outcome)
      case (Returned h)
      then show ?thesis
        using run_pass_returned [OF ready_entered(1) [OF that(1)] run [unfolded Returned]] good that(1) broken
        by (simp add: rbx_ready_def Let_def)
    next
      case (Raised x regs)
      then show ?thesis
        using run_pass_taken [OF that(1) run [unfolded Raised]] good broken by auto
    qed
  qed
  have all: "\<forall>s1. rbx_ready sy s1 \<and> rx_memset s1 = Inject_Memset \<and> rx_countdown s1 = 1000 \<longrightarrow>
      (\<exists>injected s2. sdc_rbx_run_pass sy (payloads 1) (ok 1) s1 = Some (injected, s2)
      \<and> (ps_faulted injected \<or> ps_mismatch injected) \<and> ?P (rx_mem s1) injected)"
    using pass by (intro allI impI) (elim conjE)
  note ran = payload_contract.self_test_on_contract [where P = ?P and ok = ok and payloads = payloads,
    OF assms(1,2) same all]
  from ran obtain result s' m and injected :: rbx_pass where r: "sdc_rbx_self_test sy payloads ok s = Some (result, s')" "?P m injected"
      "st_clean_pass_ok result" "st_recovered result" "st_injected_caught result = ps_faulted injected"
      "ps_faulted injected \<longrightarrow> st_detail result = fr_what (ps_fault injected) @ '' at ''
         @ sdc_rbx_describe_address sy (rg_rip (fr_regs (ps_fault injected)))"
      "rbx_clean usable sy s'"
    by (elim exE conjE) (rule that, assumption+)
  show ?thesis
  proof (intro exI [of _ result] exI [of _ s'] exI [of _ m] conjI)
    show "case ?broken m of Returned h \<Rightarrow> \<not> st_injected_caught result
      | Raised x regs \<Rightarrow> st_injected_caught result \<and>
          (\<exists>what. st_detail result = what @ '' at '' @ sdc_rbx_describe_address sy (rg_rip regs))"
      using r by (cases "?broken m") auto
  qed (use r in simp_all)
qed

section \<open>Witnesses\<close>

definition linux_symbols :: rbx_symbols where
  "linux_symbols = \<lparr>sy_platform = Linux, sy_thread_area = 0x404000, sy_landing = 0x401500,
     sy_emit_begin = 0x401000, sy_emit_end = 0x401400, sy_functions = [(0x401000, 0x400, ''emit_i16''), (0, 0, [])]\<rparr>"

definition rbx_globals :: rbx_state where
  \<comment> \<open>as the program starts, with 0xAA in memory that is not mapped yet\<close>
  "rbx_globals = \<lparr>rx_prepared = False, rx_expected = 0, rx_thread_area = replicate 16 0, rx_mem = (\<lambda>_. 0xAA),
     rx_memset = Real_Memset, rx_countdown = 0, rx_tp = linux_tp,
     rx_capture = \<lparr>fc_armed = False, fc_record = fault_record_init, fc_resume = 0\<rparr>, rx_mapped = []\<rparr>"

definition willing_os :: rbx_os where
  "willing_os = \<lparr>os_avx2 = True, os_map_arena = Some k_arena_base, os_map_shadow = Some k_shadow_map_base,
     os_install = \<lparr>in_sigaltstack = True, in_sigaction = (\<lambda>_. True), in_vectored = True\<rparr>, os_prctl_ok = True\<rparr>"

lemma rbx_globals_initial: "rbx_initial rbx_globals"
  by (simp add: rbx_initial_def rbx_globals_def linux_tp_def)


lemma prepare_willing: "fst (sdc_rbx_prepare linux_symbols willing_os rbx_globals) = None"
proof -
  obtain h m ta where b: "build_arena (rx_mem rbx_globals, rx_thread_area rbx_globals) = (h, m, ta)" by (rule prod_cases3)
  have enter: "tp_enter Linux True v (rx_tp rbx_globals)
      = (True, linux_tp\<lparr>tp_gs_block := (tp_gs_block linux_tp)[5 := v], tp_gs_installed := True\<rparr>)" for v
    by (simp add: rbx_globals_def linux_tp_def)
  have os: "os_avx2 willing_os" "os_map_arena willing_os = Some k_arena_base"
      "os_map_shadow willing_os = Some k_shadow_map_base" "sdc_fault_capture_install (sy_platform linux_symbols) (os_install willing_os)" "os_prctl_ok willing_os"
    by (simp_all add: willing_os_def linux_symbols_def fault_signals_def)
  have "\<not> rx_prepared rbx_globals" "sy_platform linux_symbols = Linux"
    by (simp_all add: rbx_globals_def linux_symbols_def)
  with os b enter show ?thesis
    by (simp add: sdc_rbx_prepare_def sdc_rbx_supported_def sdc_map_fixed_def Let_def)
qed

lemma prepare_ready_witness:
  "rbx_ready linux_symbols (snd (sdc_rbx_prepare linux_symbols willing_os rbx_globals))"
proof -
  have "sdc_rbx_prepare linux_symbols willing_os rbx_globals
      = (None, snd (sdc_rbx_prepare linux_symbols willing_os rbx_globals))"
    using prepare_willing by (metis prod.collapse)
  from prepare_ready [OF rbx_globals_initial this] show ?thesis by (rule conjunct1)
qed

definition refusing :: install_answers where
  "refusing = \<lparr>in_sigaltstack = False, in_sigaction = (\<lambda>_. True), in_vectored = False\<rparr>"

lemma prepare_failure_leaves_mappings_witness:
  "length (rx_mapped (snd (sdc_rbx_prepare linux_symbols (willing_os\<lparr>os_install := refusing\<rparr>) rbx_globals))) = 2"
proof -
  let ?os = "willing_os\<lparr>os_install := refusing\<rparr>"
  obtain s where "sdc_rbx_prepare linux_symbols ?os rbx_globals
      = (Some ''cannot install the hardware exception handler'', s)"
    by (simp add: sdc_rbx_prepare_def sdc_rbx_supported_def sdc_map_fixed_def willing_os_def rbx_globals_def
        refusing_def linux_symbols_def Let_def)
  with prepare_failure_leaves_mappings [OF rbx_globals_initial this] show ?thesis by (simp add: willing_os_def)
qed

definition crash_regs :: regs where
  \<comment> \<open>a fault inside \<open>emit_i16\<close> with the displaced frame base\<close>
  "crash_regs = no_regs\<lparr>rg_rip := 0x401229, rg_rsp := 0x7FFF0000, rg_rbx := 0x7FFF00A0\<rparr>"

definition crash_payload :: payload where
  \<comment> \<open>overwrites everything, then dies\<close>
  "crash_payload tp memset countdown m = (\<lambda>_. 0xFF, countdown, Raised (Signal SIGSEGV 0) crash_regs)"

lemma pass_classified_witness:
  "\<exists>pass s'. sdc_rbx_run_pass linux_symbols crash_payload True rbx_globals = Some (pass, s')
     \<and> ps_faulted pass \<and> agree (rx_mem s') fresh_memory"
proof -
  have e: "entered linux_symbols True rbx_globals" "length (tp_gs_block (rx_tp rbx_globals)) = 8"
    by (simp_all add: entered_def linux_symbols_def rbx_globals_def linux_tp_def)
  have run: "payload_run linux_symbols crash_payload True rbx_globals
      = (\<lambda>_. 0xFF, rx_countdown rbx_globals, Raised (Signal SIGSEGV 0) crash_regs)"
    by (simp add: payload_run_def crash_payload_def)
  obtain pass s' where r: "sdc_rbx_run_pass linux_symbols crash_payload True rbx_globals = Some (pass, s')"
      "ps_faulted pass"
    using run_pass_raised [OF e(1) run] by (auto simp: on_fault_def fault_signals_def armed_def fault_capture_arm_def)
  with pass_classified [OF e r(1)] show ?thesis by blast
qed

lemma self_test_verdict_witness:
  "\<exists>result s'. sdc_rbx_self_test linux_symbols (\<lambda>k. if k = 1 then crash_payload else repro_payload) (\<lambda>_. True)
       (snd (sdc_rbx_prepare linux_symbols willing_os rbx_globals)) = Some (result, s')
     \<and> st_clean_pass_ok result \<and> st_injected_caught result \<and> st_recovered result"
proof -
  let ?s = "snd (sdc_rbx_prepare linux_symbols willing_os rbx_globals)"
  let ?p = "\<lambda>k :: nat. if k = 1 then crash_payload else repro_payload"
  have prep: "sdc_rbx_prepare linux_symbols willing_os rbx_globals = (None, ?s)"
    using prepare_willing by (metis prod.collapse)
  note clean = repro.initial_clean [OF rbx_globals_initial prep]
  have c: "payload_contract linux_symbols repro_payload (\<lambda>_. True)" by unfold_locales
  have broken: "case snd (snd (?p 1 (Some (thread_area_9 linux_symbols)) Inject_Memset 1000 m)) of
      Raised x regs \<Rightarrow> taken x | Returned h \<Rightarrow> h \<noteq> repro_hash (make_chunks 64)" for m
    by (simp add: crash_payload_def fault_signals_def)
  have p: "?p 0 = repro_payload" "\<forall>k\<ge>2. ?p k = repro_payload" by simp_all
  from self_test_verdict [where ok = "\<lambda>_. True", OF c clean p broken] show ?thesis
    by (auto simp: crash_payload_def)
qed

end
