(* ===== verification/Load.thy ===== *)
theory Load
  imports Ieee
begin

text \<open>
  The synthetic load (src/load.hpp, src/load.cpp): the lattice hash, the noise octaves and the
  layer count \<open>g_layers\<close> that calibration sets. A value \<open>float\<close> is its bit pattern; \<open>int32_t\<close>
  and \<open>int\<close> are integers with their range checked where the code adds to or casts into them.
\<close>

section \<open>Constants\<close>

definition k_load_octaves_per_layer :: nat where "k_load_octaves_per_layer = 4"
definition k_load_layers_min :: int where "k_load_layers_min = 1"
definition k_load_layers_max :: int where "k_load_layers_max = 64"
definition k_load_layers_default :: int where "k_load_layers_default = 5"

section \<open>The layer count\<close>

definition sdc_set_load_layers :: "int \<Rightarrow> int" where
  \<comment> \<open>the value \<open>g_layers\<close> gets\<close>
  "sdc_set_load_layers layers =
     (let layers = (if layers < k_load_layers_min then k_load_layers_min else layers);
          layers = (if layers > k_load_layers_max then k_load_layers_max else layers)
      in layers)"

section \<open>The lattice hash\<close>

definition splitmix64 :: "u64 \<Rightarrow> u64" where
  "splitmix64 x =
     (let x = x + 0x9E3779B97F4A7C15;
          x = (x XOR drop_bit 30 x) * 0xBF58476D1CE4E5B9;
          x = (x XOR drop_bit 27 x) * 0x94D049BB133111EB
      in x XOR drop_bit 31 x)"

definition lattice_hash :: "u32 \<Rightarrow> u32 \<Rightarrow> int \<Rightarrow> int \<Rightarrow> u64" where
  "lattice_hash seed salt ix iy =
     (let packed = (ucast (word_of_int ix :: u32) :: u64)
            OR push_bit 32 (ucast (word_of_int iy :: u32))
      in splitmix64 (packed XOR splitmix64 (ucast seed XOR push_bit 32 (ucast salt))))"

definition unit_from_bits :: "u64 \<Rightarrow> f32" where
  \<comment> \<open>\<open>0x33800000\<close> is \<open>0x1p-24f\<close>\<close>
  "unit_from_bits bits = f32_mul (f32_of_nat (unat (ucast (drop_bit 40 bits) :: u32))) 0x33800000"

section \<open>One octave\<close>

definition fade5 :: "f32 \<Rightarrow> f32" where
  \<comment> \<open>\<open>t * t * t * (t * (t * 6.0f - 15.0f) + 10.0f)\<close>\<close>
  "fade5 t = f32_mul (f32_mul (f32_mul t t) t)
     (f32_add (f32_mul t (f32_sub (f32_mul t 0x40C00000) 0x41700000)) 0x41200000)"

definition lerpf :: "f32 \<Rightarrow> f32 \<Rightarrow> f32 \<Rightarrow> f32" where
  "lerpf a b t = f32_add a (f32_mul t (f32_sub b a))"

definition k_lattice_limit :: f32 where "k_lattice_limit = 0x4E800000"
definition k_minus_lattice_limit :: f32 where "k_minus_lattice_limit = 0xCE800000"

definition clamp_lattice :: "f32 \<Rightarrow> f32" where
  "clamp_lattice value =
     (if \<not> f32_less k_minus_lattice_limit value then k_minus_lattice_limit
      else if \<not> f32_less value k_lattice_limit then k_lattice_limit
      else value)"

definition int32_add :: "int \<Rightarrow> int \<Rightarrow> int option" where
  \<comment> \<open>signed addition: overflow is undefined behaviour\<close>
  "int32_add a b = (if - (2 ^ 31) \<le> a + b \<and> a + b < 2 ^ 31 then Some (a + b) else None)"

definition octave_value :: "u32 \<Rightarrow> u32 \<Rightarrow> f32 \<Rightarrow> f32 \<Rightarrow> f32 option" where
  "octave_value seed salt x y =
     do {
       let cx = clamp_lattice x;
       let cy = clamp_lattice y;
       let fx = f32_floor cx;
       let fy = f32_floor cy;
       ix \<leftarrow> int32_of_fp (fp32 fx);
       iy \<leftarrow> int32_of_fp (fp32 fy);
       let tx = f32_sub cx fx;
       let ty = f32_sub cy fy;
       ix1 \<leftarrow> int32_add ix 1;
       iy1 \<leftarrow> int32_add iy 1;
       let n00 = unit_from_bits (lattice_hash seed salt ix iy);
       let n10 = unit_from_bits (lattice_hash seed salt ix1 iy);
       let n01 = unit_from_bits (lattice_hash seed salt ix iy1);
       let n11 = unit_from_bits (lattice_hash seed salt ix1 iy1);
       let u = fade5 tx;
       let v = fade5 ty;
       Some (lerpf (lerpf n00 n10 u) (lerpf n01 n11 u) v)
     }"

section \<open>One sample\<close>

record load_acc =
  la_sum :: f32
  la_weight :: f32

record octave_acc =
  oc_x :: f32
  oc_y :: f32
  oc_amplitude :: f32
  oc_acc :: load_acc

text \<open>The body of the octave loop. The constants are 0.564634886f, 0.825340805f, 2.0f, 0.5f.\<close>

definition octave_body :: "u32 \<Rightarrow> u32 \<Rightarrow> nat \<Rightarrow> octave_acc \<Rightarrow> octave_acc option" where
  "octave_body seed salt octave s =
     do {
       v \<leftarrow> octave_value seed (salt + of_nat octave) (oc_x s) (oc_y s);
       let sum = f32_add (la_sum (oc_acc s)) (f32_mul (oc_amplitude s) v);
       let weight_sum = f32_add (la_weight (oc_acc s)) (oc_amplitude s);
       let rx = f32_sub (f32_mul (oc_x s) 0x3F108BE9) (f32_mul (oc_y s) 0x3F534989);
       let ry = f32_add (f32_mul (oc_x s) 0x3F534989) (f32_mul (oc_y s) 0x3F108BE9);
       Some \<lparr>oc_x = f32_mul rx 0x40000000, oc_y = f32_mul ry 0x40000000,
             oc_amplitude = f32_mul (oc_amplitude s) 0x3F000000,
             oc_acc = \<lparr>la_sum = sum, la_weight = weight_sum\<rparr>\<rparr>
     }"

text \<open>The body of the layer loop: its own salt and scale, \<open>1.0f + layer * 0.37f\<close>.\<close>

definition layer_body :: "u32 \<Rightarrow> f32 \<Rightarrow> f32 \<Rightarrow> nat \<Rightarrow> load_acc \<Rightarrow> load_acc option" where
  "layer_body seed base_x base_y layer acc =
     (let salt = 0x9E3779B9 + of_nat layer * 0x85EBCA6B :: u32;
          layer_scale = f32_add 0x3F800000 (f32_mul (f32_of_nat layer) 0x3EBD70A4);
          x = f32_mul base_x layer_scale;
          y = f32_mul base_y layer_scale
      in map_option oc_acc
           (for_each [0..<k_load_octaves_per_layer] (octave_body seed salt)
              \<lparr>oc_x = x, oc_y = y, oc_amplitude = 0x3F800000, oc_acc = acc\<rparr>))"

definition sdc_load_sample :: "int \<Rightarrow> u32 \<Rightarrow> f64 \<Rightarrow> f64 \<Rightarrow> f32 option" where
  \<comment> \<open>the first argument is \<open>g_layers\<close>; \<open>0x3F90...\<close> is 1.0 / 64.0, \<open>0x43C80000\<close> is 400.0f\<close>
  "sdc_load_sample g_layers seed world_x world_y =
     do {
       let base_x = f32_of_f64 (f64_mul world_x 0x3F90000000000000);
       let base_y = f32_of_f64 (f64_mul world_y 0x3F90000000000000);
       acc \<leftarrow> for_each [0..<nat g_layers] (layer_body seed base_x base_y)
                \<lparr>la_sum = 0, la_weight = 0\<rparr>;
       if \<not> f32_less 0 (la_weight acc) then Some 0
       else Some (f32_mul (f32_div (la_sum acc) (la_weight acc)) 0x43C80000)
     }"

section \<open>No undefined behaviour\<close>

text \<open>
  The casts to \<open>int32_t\<close> and the additions of 1 in \<open>octave_value\<close> are defined for every pair of
  coordinates, NaN and infinities included: the clamp leaves a value within \<open>2^30\<close>.
\<close>

lemma emin_binary32 [simp]: "emin binary32 = - 149"
  by (simp add: emin_def binary32_def)

lemma limit_values:
  "fp32 k_lattice_limit = Fin False 8388608 7" "fp32 k_minus_lattice_limit = Fin True 8388608 7"
  by (simp_all add: fp32_def fp_decode_def k_lattice_limit_def k_minus_lattice_limit_def
      emin_def binary32_def)

definition in_lattice :: "fp \<Rightarrow> bool" where
  \<comment> \<open>a finite value between \<open>- 2^30\<close> and \<open>2^30\<close>, as decoding produces it\<close>
  "in_lattice v \<longleftrightarrow> (\<exists>s m e. v = Fin s m e \<and> m < 2 ^ 24 \<and> - 149 \<le> e \<and> e \<le> 104
     \<and> (0 \<le> e \<longrightarrow> m * 2 ^ nat e \<le> 2 ^ 30))"

lemma less_limit:
  assumes "fp_less (Fin True 8388608 7) (Fin s m e)" "fp_less (Fin s m e) (Fin False 8388608 7)"
    and "0 \<le> e"
  shows "m * 2 ^ nat e \<le> 2 ^ 30"
proof -
  let ?g = "min e 7"
  have e: "nat e = nat (e - ?g) + nat ?g" and "(7 :: nat) = nat (7 - ?g) + nat ?g"
    using assms(3) by simp_all
  have "m * 2 ^ nat (e - ?g) < 2 ^ 23 * 2 ^ nat (7 - ?g)"
  proof -
    have "int m * 2 ^ nat (e - ?g) < 2 ^ 23 * 2 ^ nat (7 - ?g)"
      using assms(1,2) by (cases s) (simp_all add: signed_mant_def Let_def min.commute)
    then have "int (m * 2 ^ nat (e - ?g)) < int (2 ^ 23 * 2 ^ nat (7 - ?g))" by simp
    then show ?thesis by (simp only: of_nat_less_iff)
  qed
  then have le: "m * 2 ^ nat (e - ?g) * 2 ^ nat ?g \<le> 2 ^ 23 * 2 ^ nat (7 - ?g) * 2 ^ nat ?g"
    by (intro mult_le_mono1) simp
  have m: "m * 2 ^ nat (e - ?g) * 2 ^ nat ?g = m * 2 ^ nat e"
    unfolding e power_add by (simp only: mult.assoc)
  have "2 ^ nat (7 - ?g) * 2 ^ nat ?g = (2 ^ 7 :: nat)"
    by (metis power_add \<open>7 = nat (7 - ?g) + nat ?g\<close>)
  then have seven: "2 ^ 23 * 2 ^ nat (7 - ?g) * 2 ^ nat ?g = (2 ^ 23 * 2 ^ 7 :: nat)"
    by (simp only: mult.assoc)
  show ?thesis using le unfolding m seven by simp
qed

lemma clamp_in_lattice: "in_lattice (fp32 (clamp_lattice x))"
proof (cases "f32_less k_minus_lattice_limit x \<and> f32_less x k_lattice_limit")
  case False
  then show ?thesis by (auto simp: clamp_lattice_def limit_values in_lattice_def)
next
  case True
  then have less: "fp_less (Fin True 8388608 7) (fp32 x)" "fp_less (fp32 x) (Fin False 8388608 7)"
    by (simp_all add: f32_less_def limit_values)
  then obtain s m e where x: "fp32 x = Fin s m e" by (cases "fp32 x") auto
  then have c: "canonical binary32 m e"
    by (intro decode_canonical) (auto simp: fp32_def)
  have "0 \<le> e \<longrightarrow> m * 2 ^ nat e \<le> 2 ^ 30"
    using less_limit less unfolding x by blast
  moreover have "m < 2 ^ 24 \<and> - 149 \<le> e \<and> e \<le> 104"
    using c by (simp add: canonical_def binary32_def emin_def)
  ultimately show ?thesis using True x by (auto simp: clamp_lattice_def in_lattice_def)
qed

lemma abs_div_le: "1 \<le> b \<Longrightarrow> \<bar>a div b\<bar> \<le> \<bar>a\<bar>" for a b :: int
  using zdiv_mono2 [of a 1 b] zdiv_mono2_neg [of a 1 b] div_neg_pos_less0 [of a b]
    pos_imp_zdiv_nonneg_iff [of b a]
  by (cases "0 \<le> a") auto

lemma floor_in_lattice:
  assumes "in_lattice v"
  shows "\<exists>z. int32_of_fp (fp32 (to_f32 (fp_floor v))) = Some z \<and> \<bar>z\<bar> \<le> 2 ^ 30"
proof -
  obtain s m e where v: "v = Fin s m e" and m: "m < 2 ^ 24" and e: "- 149 \<le> e" "e \<le> 104"
    and lim: "0 \<le> e \<longrightarrow> m * 2 ^ nat e \<le> 2 ^ 30"
    using assms by (auto simp: in_lattice_def)
  have trunc: "fp_trunc (fp32 (to_f32 (Fin t n k))) = fp_trunc (Fin t n k)"
    if "n < 2 ^ 24" "- 149 \<le> k" "k \<le> 104" for t n k
    unfolding fp32_to_f32
    by (rule fp_trunc_round) (use that in \<open>simp_all add: binary32_def emin_def\<close>)
  have fits: "\<exists>z. int32_of_fp (fp32 (to_f32 (Fin t n k))) = Some z \<and> \<bar>z\<bar> \<le> 2 ^ 30"
    if "n < 2 ^ 24" "0 \<le> k" "k \<le> 104" "n * 2 ^ nat k \<le> 2 ^ 30" for t n k
  proof -
    define N where "N = n * 2 ^ nat k"
    have "fp_trunc (fp32 (to_f32 (Fin t n k))) = Some (signed_mant t N)"
      using trunc [of n k t] that(1-3) by (simp add: N_def)
    moreover have "\<bar>signed_mant t N\<bar> \<le> 2 ^ 30"
      using that(4) by (simp add: signed_mant_def N_def [symmetric])
    ultimately show ?thesis by (auto simp: int32_of_fp_def abs_le_iff)
  qed
  show ?thesis
  proof (cases "0 \<le> e")
    case True
    then show ?thesis using fits [of m e s] m e lim by (simp add: v)
  next
    case False
    define z where "z = signed_mant s m div 2 ^ nat (- e)"
    have "(2 :: int) \<le> 2 ^ nat (- e)"
      using power_increasing [of 1 "nat (- e)" "2 :: int"] False by simp
    then have "\<bar>signed_mant s m div 2 ^ nat (- e)\<bar> \<le> \<bar>signed_mant s m\<bar>"
      by (intro abs_div_le) simp
    then have "nat \<bar>z\<bar> < 2 ^ 24" using m by (auto simp: z_def signed_mant_def split: if_splits)
    then show ?thesis
      using False fits [of "nat \<bar>z\<bar>" 0 "z < 0"] fits [of 0 0 s]
      by (auto simp: v z_def [symmetric] Let_def)
  qed
qed

lemma octave_value_defined: "\<exists>v. octave_value seed salt x y = Some v"
proof -
  have coord: "\<exists>z. int32_of_fp (fp32 (f32_floor (clamp_lattice c))) = Some z \<and> \<bar>z\<bar> \<le> 2 ^ 30" for c
    unfolding f32_floor_def by (rule floor_in_lattice [OF clamp_in_lattice])
  obtain ix iy where ix: "int32_of_fp (fp32 (f32_floor (clamp_lattice x))) = Some ix" "\<bar>ix\<bar> \<le> 2 ^ 30"
    and iy: "int32_of_fp (fp32 (f32_floor (clamp_lattice y))) = Some iy" "\<bar>iy\<bar> \<le> 2 ^ 30"
    using coord by blast
  have "int32_add ix 1 = Some (ix + 1)" "int32_add iy 1 = Some (iy + 1)"
    using ix(2) iy(2) by (auto simp: int32_add_def abs_le_iff)
  with ix(1) iy(1) show ?thesis by (simp add: octave_value_def Let_def)
qed

lemma octave_body_defined: "\<exists>t. octave_body seed salt octave s = Some t"
  using octave_value_defined [of seed "salt + of_nat octave" "oc_x s" "oc_y s"]
  by (auto simp: octave_body_def Let_def)

lemma layer_body_defined: "\<exists>acc'. layer_body seed base_x base_y layer acc = Some acc'"
proof -
  have "\<exists>t. for_each [0..<n] (octave_body seed salt) s = Some t \<and> True" for n salt s
    by (rule for_each_upt_invariant [where I = "\<lambda>_ _. True"]) (auto intro: octave_body_defined)
  then show ?thesis by (auto simp: layer_body_def Let_def)
qed

text \<open>
  Property C24: every call of the load returns a value: no cast and no addition in it is
  undefined, for every layer count, seed and pair of coordinates, NaN and infinities included.
\<close>

theorem load_sample_defined: "\<exists>v. sdc_load_sample layers seed world_x world_y = Some v"
proof -
  have "\<exists>t. for_each [0..<n] (layer_body seed bx by0) s = Some t \<and> True" for n bx by0 s
    by (rule for_each_upt_invariant [where I = "\<lambda>_ _. True"]) (auto intro: layer_body_defined)
  then obtain acc where
    "for_each [0..<nat layers] (layer_body seed (f32_of_f64 (f64_mul world_x 0x3F90000000000000))
       (f32_of_f64 (f64_mul world_y 0x3F90000000000000))) \<lparr>la_sum = 0, la_weight = 0\<rparr> = Some acc"
    by blast
  then show ?thesis by (simp add: sdc_load_sample_def Let_def)
qed

text \<open>
  The layer count stays within 1..64 whatever calibration or the command line
  asks for, and a count in that range is kept.
\<close>

lemma set_load_layers_range:
  "k_load_layers_min \<le> sdc_set_load_layers n \<and> sdc_set_load_layers n \<le> k_load_layers_max
   \<and> (k_load_layers_min \<le> n \<and> n \<le> k_load_layers_max \<longleftrightarrow> sdc_set_load_layers n = n)"
  by (simp add: sdc_set_load_layers_def k_load_layers_min_def k_load_layers_max_def Let_def)

section \<open>The lattice value is exact\<close>

lemma two_pow_24_scale: "fp32 0x33800000 = Fin False 8388608 (- 47)"
  by (simp add: fp32_def fp_decode_def emin_def binary32_def)

lemma top_bits_bound: "unat (drop_bit 40 (bits :: u64)) < 2 ^ 24"
proof -
  have "unat bits < 2 ^ 64" using unsigned_less [of bits] by simp
  then show ?thesis by (simp add: drop_bit_eq_div unat_div div_less_iff_less_mult)
qed

lemma unit_from_bits_exact:
  "unit_from_bits bits = to_f32 (Fin False (unat (drop_bit 40 bits)) (- 24))"
proof (cases "unat (drop_bit 40 bits) = 0")
  case True
  then have "unit_from_bits bits = f32_mul (f32_of_nat 0) 0x33800000"
    by (simp add: unit_from_bits_def unsigned_ucast_eq)
  also have "\<dots> = to_f32 (Fin False 0 (- 24))"
  proof -
    have "fp32 (f32_of_nat 0) = Fin False 0 (- 149)"
      unfolding f32_of_nat_def fp32_to_f32 by (simp add: round_zero binary32_def emin_def)
    then show ?thesis
      by (simp add: f32_mul_def two_pow_24_scale to_f32_def round_to_def round_bits_def)
  qed
  finally show ?thesis using True by simp
next
  case False
  let ?k = "unat (drop_bit 40 bits)"
  let ?u = "norm_exp binary32 ?k 0"
  let ?j = "nat (- ?u)"
  note k = top_bits_bound [of bits]
  have "unat (ucast (drop_bit 40 bits) :: u32) = ?k"
    using k by (simp add: unsigned_ucast_eq take_bit_nat_eq_self_iff)
  then have "unit_from_bits bits = f32_mul (f32_of_nat ?k) 0x33800000"
    by (simp add: unit_from_bits_def)
  also have "fp32 (f32_of_nat ?k) = Fin False (?k * 2 ^ ?j) ?u"
    using round_exact [of ?k binary32 0 False] k False
    by (simp add: f32_of_nat_def fp32_to_f32 binary32_def emin_def)
  then have "f32_mul (f32_of_nat ?k) 0x33800000
      = to_f32 (Fin False (?k * 2 ^ (?j + 23)) (?u - 47))"
    by (simp add: f32_mul_def two_pow_24_scale power_add mult.assoc)
  also have "\<dots> = to_f32 (Fin False ?k (- 24))"
  proof -
    have "?u \<le> 0" using norm_canonical(1) [of ?k binary32 0] k False
      by (simp add: binary32_def emin_def)
    then have "?u - 47 + int (?j + 23) = - 24" by simp
    then show ?thesis by (simp only: to_f32_def round_to_shift)
  qed
  finally show ?thesis .
qed

text \<open>
  The value of a lattice node is the top 24 bits of its hash divided by
  \<open>2^24\<close>, with no rounding, and lies in [0, 1).
\<close>

lemma unit_from_bits_value:
  "fp_value (fp32 (unit_from_bits bits)) = real (unat (drop_bit 40 bits)) / 2 ^ 24
   \<and> 0 \<le> fp_value (fp32 (unit_from_bits bits)) \<and> fp_value (fp32 (unit_from_bits bits)) < 1"
proof -
  note k = top_bits_bound [of bits]
  have "fp_value (fp32 (unit_from_bits bits)) = real (unat (drop_bit 40 bits)) * 2 powi (- 24)"
    unfolding unit_from_bits_exact fp32_to_f32
    by (subst fp_value_round) (use k in \<open>simp_all add: binary32_def emin_def\<close>)
  moreover have "real (unat (drop_bit 40 bits)) < 2 ^ 24"
    using k by (metis of_nat_less_iff of_nat_numeral of_nat_power)
  moreover have "0 \<le> real (unat (drop_bit 40 bits))" by (rule of_nat_0_le_iff)
  ultimately show ?thesis by (simp add: power_int_minus divide_inverse [symmetric])
qed

section \<open>The weights\<close>

definition layer_weight :: "f32 \<Rightarrow> f32" where
  \<comment> \<open>what one layer adds to \<open>weight_sum\<close>: the amplitudes 1, 1/2, 1/4 and 1/8\<close>
  "layer_weight w = f32_add (f32_add (f32_add (f32_add w 0x3F800000) 0x3F000000) 0x3E800000) 0x3E000000"

lemma half_steps:
  "f32_mul 0x3F800000 0x3F000000 = 0x3F000000" "f32_mul 0x3F000000 0x3F000000 = 0x3E800000"
  "f32_mul 0x3E800000 0x3F000000 = 0x3E000000"
  by (simp_all add: f32_mul_def fp32_def fp_decode_def to_f32_def round_to_def round_bits_def
      bit_length.simps emin_def fp_pack_def fp_inf_bits_def shift_rne_def binary32_def Let_def)

lemma octave_body_weight:
  assumes "octave_body seed salt octave s = Some t"
  shows "oc_amplitude t = f32_mul (oc_amplitude s) 0x3F000000"
    and "la_weight (oc_acc t) = f32_add (la_weight (oc_acc s)) (oc_amplitude s)"
  using assms by (auto simp: octave_body_def Let_def split: bind_splits)

lemma layer_body_weight:
  assumes "layer_body seed base_x base_y layer acc = Some acc'"
  shows "la_weight acc' = layer_weight (la_weight acc)"
proof -
  have "[0..<k_load_octaves_per_layer] = [0, 1, 2, 3]"
    by (simp add: k_load_octaves_per_layer_def upt_rec)
  then show ?thesis
    using assms
    by (auto simp: layer_body_def Let_def layer_weight_def octave_body_weight half_steps
        split: option.splits)
qed

fun weights :: "nat \<Rightarrow> f32" where
  "weights 0 = 0"
| "weights (Suc n) = layer_weight (weights n)"

lemma layers_weight:
  assumes "for_each [0..<n] (layer_body seed base_x base_y) \<lparr>la_sum = 0, la_weight = 0\<rparr> = Some acc"
  shows "la_weight acc = weights n"
proof -
  have "\<exists>t. for_each [0..<n] (layer_body seed base_x base_y) \<lparr>la_sum = 0, la_weight = 0\<rparr> = Some t
      \<and> la_weight t = weights n"
  proof (rule for_each_upt_invariant [where I = "\<lambda>i t. la_weight t = weights i"])
    fix i and t :: load_acc
    assume "la_weight t = weights i"
    then show "\<exists>t'. layer_body seed base_x base_y i t = Some t' \<and> la_weight t' = weights (Suc i)"
      using layer_body_defined [of seed base_x base_y i t] layer_body_weight by fastforce
  qed simp_all
  with assms show ?thesis by auto
qed

lemma amplitudes:
  "represents 0x3F800000 8 (- 3)" "represents 0x3F000000 4 (- 3)"
  "represents 0x3E800000 2 (- 3)" "represents 0x3E000000 1 (- 3)"
  unfolding represents_def fp32_def fp_decode_def binary32_def emin_def
  by (rule exI [of _ 20], simp, rule exI [of _ 21], simp, rule exI [of _ 22], simp,
      rule exI [of _ 23], simp)

lemma weights_value: "n \<le> 64 \<Longrightarrow> represents (weights n) (15 * n) (- 3)"
proof (induction n)
  case 0
  then show ?case by (simp add: represents_zero)
next
  case (Suc n)
  then have w: "represents (weights n) (15 * n) (- 3)" "n \<le> 63" by simp_all
  note a = represents_add [OF represents_add [OF represents_add [OF represents_add
        [OF w(1) amplitudes(1)] amplitudes(2)] amplitudes(3)] amplitudes(4)]
  from w(2) show ?case using a by (simp add: layer_weight_def algebra_simps)
qed

text \<open>
  Property C25: for a layer count that \<open>sdc_set_load_layers\<close> can leave, the weights are positive
  (15/8 per layer, exactly), so a sample is always the weighted mean times 400 and the guard
  against a division by zero never fires.
\<close>

theorem load_sample_weighted_mean:
  assumes "1 \<le> layers" and "layers \<le> 64"
  shows "\<exists>acc. for_each [0..<nat layers]
       (layer_body seed (f32_of_f64 (f64_mul world_x 0x3F90000000000000))
          (f32_of_f64 (f64_mul world_y 0x3F90000000000000))) \<lparr>la_sum = 0, la_weight = 0\<rparr> = Some acc
     \<and> represents (la_weight acc) (15 * nat layers) (- 3)
     \<and> sdc_load_sample layers seed world_x world_y
         = Some (f32_mul (f32_div (la_sum acc) (la_weight acc)) 0x43C80000)"
proof -
  obtain v where "sdc_load_sample layers seed world_x world_y = Some v"
    using load_sample_defined by blast
  then obtain acc where acc: "for_each [0..<nat layers]
       (layer_body seed (f32_of_f64 (f64_mul world_x 0x3F90000000000000))
          (f32_of_f64 (f64_mul world_y 0x3F90000000000000))) \<lparr>la_sum = 0, la_weight = 0\<rparr> = Some acc"
    by (auto simp: sdc_load_sample_def Let_def split: bind_splits)
  have w: "represents (la_weight acc) (15 * nat layers) (- 3)"
    using layers_weight [OF acc] weights_value [of "nat layers"] assms by simp
  then have "f32_less 0 (la_weight acc)"
    using assms by (intro represents_positive [OF w]) simp
  with acc w show ?thesis by (simp add: sdc_load_sample_def Let_def)
qed

lemma load_sample_weighted_mean_witness:
  "\<exists>acc :: load_acc. represents (la_weight acc) (15 * nat 5) (- 3)
     \<and> sdc_load_sample 5 42 0 0 = Some (f32_mul (f32_div (la_sum acc) (la_weight acc)) 0x43C80000)"
proof -
  have "(1 :: int) \<le> 5" "(5 :: int) \<le> 64" by simp_all
  from load_sample_weighted_mean [OF this, of 42 0 0] show ?thesis by blast
qed

end
