(* ===== verification/Hotloop.thy ===== *)
theory Hotloop
  imports Fnv Load
begin

text \<open>
  The measured loop of sdcprobe.cpp: the inline assembly of \<open>compute_rows\<close> instruction by
  instruction, the grid around it, and the three hashes over memory it is compared with.

  The processor is a parameter: a record says what every read of a part of a register
  returns, and what the call of the load returned, for each sample of a pass. On
  \<open>healthy_cpu\<close> these are the architectural values; a faulty processor is any other record.
\<close>

section \<open>The grid\<close>

definition k_cols :: nat where "k_cols = 400"
definition k_rows :: nat where "k_rows = 250"
definition k_step :: f64 where "k_step = 0x400C000000000000"
definition k_origin_x :: f64 where "k_origin_x = 0xC085E00000000000"
definition k_origin_y :: f64 where "k_origin_y = 0xC07B580000000000"

record workspace =
  ws_samples :: "f32 list"
  ws_baseline :: "f32 list"
  ws_forward :: "u64 list"
  ws_backward :: "u64 list"

definition new_workspace :: "nat \<Rightarrow> workspace" where
  "new_workspace sample_count =
     \<lparr>ws_samples = replicate sample_count 0, ws_baseline = replicate sample_count 0,
      ws_forward = replicate (sample_count * 4 + 1) 0, ws_backward = replicate (sample_count * 4 + 1) 0\<rparr>"

section \<open>The instruction sequence\<close>

text \<open>The three reads of a byte out of a register in the sequence.\<close>

record reg_reads =
  rd_cl :: "u32 \<Rightarrow> u8"
  rd_ch :: "u32 \<Rightarrow> u8"
  rd_t1 :: "u32 \<Rightarrow> u8"

definition healthy_reads :: reg_reads where
  "healthy_reads = \<lparr>rd_cl = (\<lambda>r. ucast r), rd_ch = (\<lambda>r. ucast (drop_bit 8 r)), rd_t1 = (\<lambda>r. ucast r)\<rparr>"

datatype insn =
  Movd_f_ecx | Movss_f_dst | Movzbl_cl_t0 | Movzbl_ch_t1 | Xor_acc_t0 | Imul_prime_t0
  | Xor_t1_t0 | Mov_ecx_t1 | Shr_ecx nat | Shr_t1 nat | Movzbl_b_t1 | Xor_rcx_t0

record hot_regs =
  r_f :: f32
  r_acc :: u64
  r_prime :: u64
  r_rcx :: u64
  r_t0 :: u64
  r_t1 :: u64
  m_dst :: f32

text \<open>A write of a 32-bit register clears its upper half.\<close>

fun exec_insn :: "reg_reads \<Rightarrow> insn \<Rightarrow> hot_regs \<Rightarrow> hot_regs" where
  "exec_insn hw Movd_f_ecx s = s\<lparr>r_rcx := ucast (r_f s)\<rparr>"
| "exec_insn hw Movss_f_dst s = s\<lparr>m_dst := r_f s\<rparr>"
| "exec_insn hw Movzbl_cl_t0 s = s\<lparr>r_t0 := ucast (rd_cl hw (ucast (r_rcx s)))\<rparr>"
| "exec_insn hw Movzbl_ch_t1 s = s\<lparr>r_t1 := ucast (rd_ch hw (ucast (r_rcx s)))\<rparr>"
| "exec_insn hw Xor_acc_t0 s = s\<lparr>r_t0 := r_t0 s XOR r_acc s\<rparr>"
| "exec_insn hw Imul_prime_t0 s = s\<lparr>r_t0 := r_t0 s * r_prime s\<rparr>"
| "exec_insn hw Xor_t1_t0 s = s\<lparr>r_t0 := r_t0 s XOR r_t1 s\<rparr>"
| "exec_insn hw Mov_ecx_t1 s = s\<lparr>r_t1 := ucast (ucast (r_rcx s) :: u32)\<rparr>"
| "exec_insn hw (Shr_ecx n) s = s\<lparr>r_rcx := ucast (drop_bit n (ucast (r_rcx s) :: u32))\<rparr>"
| "exec_insn hw (Shr_t1 n) s = s\<lparr>r_t1 := ucast (drop_bit n (ucast (r_t1 s) :: u32))\<rparr>"
| "exec_insn hw Movzbl_b_t1 s = s\<lparr>r_t1 := ucast (rd_t1 hw (ucast (r_t1 s)))\<rparr>"
| "exec_insn hw Xor_rcx_t0 s = s\<lparr>r_t0 := r_t0 s XOR r_rcx s\<rparr>"

definition hot_code :: "insn list" where
  "hot_code =
     [Movd_f_ecx, Movss_f_dst, Movzbl_cl_t0, Movzbl_ch_t1,
      Xor_acc_t0, Imul_prime_t0,
      Xor_t1_t0, Mov_ecx_t1, Shr_ecx 0x18, Imul_prime_t0,
      Shr_t1 0x10, Movzbl_b_t1, Xor_t1_t0, Imul_prime_t0,
      Xor_rcx_t0, Imul_prime_t0]"

definition hot_step :: "reg_reads \<Rightarrow> u64 \<Rightarrow> f32 \<Rightarrow> u64 \<times> f32" where
  \<comment> \<open>the accumulator after one sample, and what was stored through XMM\<close>
  "hot_step hw acc value =
     (let s = fold (exec_insn hw) hot_code
        \<lparr>r_f = value, r_acc = acc, r_prime = k_fnv_prime, r_rcx = 0, r_t0 = 0, r_t1 = 0, m_dst = 0\<rparr>
      in (r_t0 s, m_dst s))"

section \<open>The rows\<close>

record cpu =
  cpu_reads :: "nat \<Rightarrow> reg_reads"
  cpu_load :: "nat \<Rightarrow> f32 \<Rightarrow> f32"

definition healthy_cpu :: cpu where
  "healthy_cpu = \<lparr>cpu_reads = (\<lambda>_. healthy_reads), cpu_load = (\<lambda>_ v. v)\<rparr>"

definition sample_at :: "cpu \<Rightarrow> int \<Rightarrow> u32 \<Rightarrow> nat \<Rightarrow> nat \<Rightarrow> f32 option" where
  \<comment> \<open>the value the load returns for column \<open>i\<close> of row \<open>j\<close>\<close>
  "sample_at cpu layers seed j i =
     (let world_y = f64_add k_origin_y (f64_mul (f64_of_nat j) k_step);
          world_x = f64_add k_origin_x (f64_mul (f64_of_nat i) k_step)
      in map_option (cpu_load cpu (j * k_cols + i)) (sdc_load_sample layers seed world_x world_y))"

definition sample_body ::
  "cpu \<Rightarrow> int \<Rightarrow> u32 \<Rightarrow> nat \<Rightarrow> nat \<Rightarrow> u64 \<times> f32 list \<Rightarrow> (u64 \<times> f32 list) option" where
  "sample_body cpu layers seed j i st =
     do {
       value \<leftarrow> sample_at cpu layers seed j i;
       let (t0, dst) = hot_step (cpu_reads cpu (j * k_cols + i)) (fst st) value;
       samples_data \<leftarrow> vec_set (snd st) (j * k_cols + i) dst;
       Some (t0, samples_data)
     }"

definition compute_rows ::
  "cpu \<Rightarrow> int \<Rightarrow> u32 \<Rightarrow> nat \<Rightarrow> f32 list \<Rightarrow> (u64 \<times> f32 list) option" where
  \<comment> \<open>the accumulator and \<open>work.samples\<close>\<close>
  "compute_rows cpu layers seed rows samples_data =
     for_each [0..<rows] (\<lambda>j. for_each [0..<k_cols] (sample_body cpu layers seed j))
       (k_fnv_basis, samples_data)"

section \<open>The hash over memory\<close>

definition sample_bytes :: "f32 list \<Rightarrow> u8 list" where
  \<comment> \<open>the floats reinterpreted as bytes\<close>
  "sample_bytes data = concat (map (le_bytes 4) data)"

definition replay_hash :: "f32 list \<Rightarrow> nat \<Rightarrow> u64 option" where
  "replay_hash data sample_count =
     for_each [0..<sample_count * 4]
       (\<lambda>k hash. do { b \<leftarrow> vec_get (sample_bytes data) k; Some (fnv_step hash b) }) k_fnv_basis"

definition replay_hash_with_substitution ::
  "f32 list \<Rightarrow> nat \<Rightarrow> nat \<Rightarrow> u8 \<Rightarrow> u64 option" where
  "replay_hash_with_substitution data sample_count byte_index replacement =
     for_each [0..<sample_count * 4]
       (\<lambda>k hash. do {
          p_k \<leftarrow> vec_get (sample_bytes data) k;
          let byte = (if k = byte_index then replacement else p_k);
          Some (fnv_step hash byte) }) k_fnv_basis"

section \<open>The assembly computes the hash of the bytes it reads\<close>

definition read_bytes :: "reg_reads \<Rightarrow> f32 \<Rightarrow> u8 list" where
  \<comment> \<open>the four bytes of a sample as the register path sees them, lane 0 first\<close>
  "read_bytes hw v = [rd_cl hw v, rd_ch hw v, rd_t1 hw (drop_bit 16 v), ucast (drop_bit 24 v)]"

lemma ucast_u32_u64_u32 [simp]: "ucast (ucast (x :: u32) :: u64) = x"
  by (simp add: bit_eq_iff bit_simps)

lemma top_byte_wide: "(ucast (drop_bit 24 (x :: u32)) :: u64) = ucast (ucast (drop_bit 24 x) :: u8)"
  by (auto simp: bit_eq_iff bit_simps dest: bit_imp_le_length)

lemma hot_step_reads:
  "hot_step hw acc value = (foldl fnv_step acc (read_bytes hw value), value)"
  by (simp add: hot_step_def hot_code_def read_bytes_def fnv_step_def top_byte_wide xor.commute)

lemma healthy_read_bytes: "read_bytes healthy_reads v = le_bytes 4 v"
  by (simp add: read_bytes_def healthy_reads_def le_bytes_4)

lemma length_read_bytes [simp]: "length (read_bytes hw v) = 4"
  by (simp add: read_bytes_def)

section \<open>The loops in closed form\<close>

lemma for_each_bytes:
  "n \<le> length bs \<Longrightarrow>
   for_each [0..<n] (\<lambda>k h. do { b \<leftarrow> vec_get bs k; Some (fnv_step h (f k b)) }) h
     = Some (foldl fnv_step h (map (\<lambda>k. f k (bs ! k)) [0..<n]))"
proof (induction n)
  case 0
  show ?case by simp
next
  case (Suc n)
  then have "vec_get bs n = Some (bs ! n)" by (simp add: vec_simps)
  with Suc show ?case by (simp add: for_each_append)
qed

lemma length_sample_bytes [simp]: "length (sample_bytes data) = 4 * length data"
  by (simp add: sample_bytes_def length_concat_blocks)

lemma sample_bytes_nth:
  "k < 4 * length data \<Longrightarrow> sample_bytes data ! k = le_bytes 4 (data ! (k div 4)) ! (k mod 4)"
  unfolding sample_bytes_def by (rule nth_concat_blocks) simp_all

lemma total_bytes: "length data * 4 = length (sample_bytes data)"
  by simp

lemma replay_hash_eq:
  "replay_hash data (length data) = Some (foldl fnv_step k_fnv_basis (sample_bytes data))"
  unfolding replay_hash_def total_bytes
  by (subst for_each_bytes [where f = "\<lambda>_ b. b"]) (simp_all only: map_nth order_refl)

lemma replay_hash_with_substitution_eq:
  assumes "byte_index < 4 * length data"
  shows "replay_hash_with_substitution data (length data) byte_index replacement
    = Some (foldl fnv_step k_fnv_basis ((sample_bytes data)[byte_index := replacement]))"
proof -
  let ?bs = "sample_bytes data"
  have "map (\<lambda>k. if k = byte_index then replacement else ?bs ! k) [0..<length ?bs]
      = ?bs[byte_index := replacement]"
    by (rule nth_equalityI) (auto simp: nth_list_update)
  then show ?thesis
    unfolding replay_hash_with_substitution_def total_bytes Let_def
    by (subst for_each_bytes [where f = "\<lambda>k b. if k = byte_index then replacement else b"])
      (simp_all only: order_refl)
qed

text \<open>The values and the register bytes of the first \<open>n\<close> samples of a pass, in order.\<close>

definition grid_value :: "cpu \<Rightarrow> int \<Rightarrow> u32 \<Rightarrow> nat \<Rightarrow> f32" where
  "grid_value cpu layers seed n = the (sample_at cpu layers seed (n div k_cols) (n mod k_cols))"

definition grid_values :: "cpu \<Rightarrow> int \<Rightarrow> u32 \<Rightarrow> nat \<Rightarrow> f32 list" where
  "grid_values cpu layers seed n = map (grid_value cpu layers seed) [0..<n]"

definition register_bytes :: "cpu \<Rightarrow> int \<Rightarrow> u32 \<Rightarrow> nat \<Rightarrow> u8 list" where
  "register_bytes cpu layers seed n =
     concat (map (\<lambda>k. read_bytes (cpu_reads cpu k) (grid_value cpu layers seed k)) [0..<n])"

lemma sample_at_grid:
  assumes "i < k_cols"
  shows "sample_at cpu layers seed j i = Some (grid_value cpu layers seed (j * k_cols + i))"
proof -
  have "(j * k_cols + i) div k_cols = j" "(j * k_cols + i) mod k_cols = i" using assms by simp_all
  moreover have "\<exists>v. sample_at cpu layers seed j i = Some v"
    using load_sample_defined by (auto simp: sample_at_def Let_def)
  ultimately show ?thesis by (auto simp: grid_value_def)
qed

definition rows_state :: "cpu \<Rightarrow> int \<Rightarrow> u32 \<Rightarrow> f32 list \<Rightarrow> nat \<Rightarrow> u64 \<times> f32 list \<Rightarrow> bool" where
  \<comment> \<open>the loop invariant: what \<open>n\<close> samples leave in the accumulator and in the array\<close>
  "rows_state cpu layers seed data n st \<longleftrightarrow>
     st = (foldl fnv_step k_fnv_basis (register_bytes cpu layers seed n),
           grid_values cpu layers seed n @ drop n data)"

lemma sample_body_state:
  assumes "rows_state cpu layers seed data (j * k_cols + i) st" "i < k_cols"
    and "j * k_cols + i < length data"
  shows "\<exists>st'. sample_body cpu layers seed j i st = Some st'
    \<and> rows_state cpu layers seed data (Suc (j * k_cols + i)) st'"
proof -
  let ?n = "j * k_cols + i" and ?v = "grid_value cpu layers seed (j * k_cols + i)"
  have "drop ?n data = data ! ?n # drop (Suc ?n) data" using assms(3) by (simp add: Cons_nth_drop_Suc)
  then have set: "vec_set (grid_values cpu layers seed ?n @ drop ?n data) ?n ?v
      = Some (grid_values cpu layers seed (Suc ?n) @ drop (Suc ?n) data)"
    using assms(3) by (simp add: vec_simps grid_values_def list_update_append)
  have st: "st = (foldl fnv_step k_fnv_basis (register_bytes cpu layers seed ?n),
      grid_values cpu layers seed ?n @ drop ?n data)"
    using assms(1) by (simp only: rows_state_def)
  have "register_bytes cpu layers seed (Suc ?n)
      = register_bytes cpu layers seed ?n @ read_bytes (cpu_reads cpu ?n) ?v"
    by (simp add: register_bytes_def)
  then show ?thesis
    unfolding rows_state_def st
    by (simp add: sample_body_def sample_at_grid [OF assms(2)] hot_step_reads set del: upt_Suc)
qed

lemma compute_rows_eq:
  assumes "rows * k_cols \<le> length data"
  shows "compute_rows cpu layers seed rows data =
    Some (foldl fnv_step k_fnv_basis (register_bytes cpu layers seed (rows * k_cols)),
          grid_values cpu layers seed (rows * k_cols) @ drop (rows * k_cols) data)"
proof -
  have row: "\<exists>t. for_each [0..<k_cols] (sample_body cpu layers seed j) st = Some t
      \<and> rows_state cpu layers seed data (j * k_cols + k_cols) t"
    if "j < rows" "rows_state cpu layers seed data (j * k_cols) st" for j st
  proof (rule for_each_upt_invariant
      [where I = "\<lambda>i. rows_state cpu layers seed data (j * k_cols + i)"])
    fix i t
    assume i: "i < k_cols" and t: "rows_state cpu layers seed data (j * k_cols + i) t"
    have "Suc j * k_cols \<le> rows * k_cols" using that(1) by (intro mult_le_mono1) simp
    then have "j * k_cols + i < length data" using i assms by simp
    then show "\<exists>t'. sample_body cpu layers seed j i t = Some t'
        \<and> rows_state cpu layers seed data (j * k_cols + Suc i) t'"
      using sample_body_state [OF t i] by simp
  qed (use that in simp_all)
  have "\<exists>t. for_each [0..<rows] (\<lambda>j. for_each [0..<k_cols] (sample_body cpu layers seed j))
      (k_fnv_basis, data) = Some t \<and> rows_state cpu layers seed data (rows * k_cols) t"
  proof (rule for_each_upt_invariant
      [where I = "\<lambda>j. rows_state cpu layers seed data (j * k_cols)"])
    show "rows_state cpu layers seed data (0 * k_cols) (k_fnv_basis, data)"
      by (simp add: rows_state_def register_bytes_def grid_values_def)
  qed (use row in \<open>simp_all add: add.commute\<close>)
  then show ?thesis by (auto simp: compute_rows_def rows_state_def)
qed

lemma length_register_bytes [simp]: "length (register_bytes cpu layers seed n) = 4 * n"
  by (simp add: register_bytes_def length_concat_blocks)

lemma length_grid_values [simp]: "length (grid_values cpu layers seed n) = n"
  by (simp add: grid_values_def)

lemma register_bytes_healthy:
  assumes "\<And>k. cpu_reads cpu k = healthy_reads"
  shows "register_bytes cpu layers seed n = sample_bytes (grid_values cpu layers seed n)"
  by (simp add: register_bytes_def sample_bytes_def grid_values_def assms healthy_read_bytes comp_def)

text \<open>
  Property C4: the sixteen instructions of the measured loop, with architectural register
  reads, advance the accumulator by the FNV-1a hash of the four bytes of the value in memory
  order, and store the value itself: the two paths see the same bytes.
\<close>

theorem hot_step_is_fnv:
  "hot_step healthy_reads acc value = (foldl fnv_step acc (le_bytes 4 value), value)"
  by (simp add: hot_step_reads healthy_read_bytes)

text \<open>
  Property C12: no false alarm. On a processor whose register reads are right, whatever its
  load calls return, a pass over the whole sample array is defined and its register hash is
  the memory hash of the array it left.
\<close>

theorem clean_round_agrees:
  assumes "\<And>k. cpu_reads cpu k = healthy_reads" and "rows * k_cols = length data"
  shows "\<exists>hash data'. compute_rows cpu layers seed rows data = Some (hash, data')
    \<and> length data' = length data \<and> replay_hash data' (length data') = Some hash"
  using compute_rows_eq [of rows data cpu layers seed] assms
  by (simp add: replay_hash_eq register_bytes_healthy)

lemma clean_round_agrees_witness:
  "\<exists>hash data'. compute_rows healthy_cpu 5 42 1 (replicate 400 0) = Some (hash, data')
     \<and> replay_hash data' (length data') = Some hash"
proof -
  have "1 * k_cols = length (replicate 400 (0 :: f32))" by (simp add: k_cols_def)
  moreover have "\<And>k. cpu_reads healthy_cpu k = healthy_reads" by (simp add: healthy_cpu_def)
  ultimately show ?thesis using clean_round_agrees [of healthy_cpu 1 "replicate 400 0" 5 42] by blast
qed

end
