(* ===== verification/Reverse.thy ===== *)
theory Reverse
  imports Hotloop
begin

text \<open>
  The reverse analysis of sdcprobe.cpp: \<open>popcount64\<close> and \<open>reverse_fnv\<close>, with the two buffers
  of the workspace written by index and every access of a vector checked. The lemmas give the
  analysis in closed form: it reports the first byte whose replacement explains the hash.
\<close>

section \<open>Counting bits\<close>

lemma and_pred_less: "v \<noteq> 0 \<Longrightarrow> unat (v AND (v - 1)) < unat v" for v :: u64
proof -
  assume "v \<noteq> 0"
  have "unat (v AND (v - 1)) \<le> unat (v - 1)"
    using word_and_le1 [of v "v - 1"] by (simp only: word_le_nat_alt)
  moreover have "unat (v - 1) = unat v - 1" using \<open>v \<noteq> 0\<close> by (rule unat_minus_one)
  moreover have "unat v \<noteq> 0" using \<open>v \<noteq> 0\<close> by (simp only: unat_eq_zero) simp
  ultimately show ?thesis by linarith
qed

function popcount_loop :: "u64 \<Rightarrow> u32 \<Rightarrow> u32" where
  "popcount_loop value count =
     (if value \<noteq> 0 then popcount_loop (value AND (value - 1)) (count + 1) else count)"
  by pat_completeness auto

termination
  by (relation "measure (\<lambda>(value, _). unat value)") (simp_all add: and_pred_less)

declare popcount_loop.simps [simp del]

definition popcount64 :: "u64 \<Rightarrow> u32" where
  "popcount64 value = popcount_loop value 0"

section \<open>The analysis\<close>

record reverse_result =
  rr_single_byte :: bool
  rr_lane :: u32
  rr_sample_index :: u64
  rr_stored :: u32
  rr_observed :: u32
  rr_min_popcount :: u32

definition reverse_result_init :: reverse_result where
  "reverse_result_init =
     \<lparr>rr_single_byte = False, rr_lane = 0, rr_sample_index = 0, rr_stored = 0, rr_observed = 0,
      rr_min_popcount = 65\<rparr>"

definition forward_body :: "u8 list \<Rightarrow> nat \<Rightarrow> u64 list \<Rightarrow> u64 list option" where
  "forward_body bytes k forward =
     do {
       f_k \<leftarrow> vec_get forward k;
       b_k \<leftarrow> vec_get bytes k;
       vec_set forward (k + 1) (fnv_step f_k b_k)
     }"

definition backward_body :: "u8 list \<Rightarrow> nat \<Rightarrow> u64 list \<Rightarrow> u64 list option" where
  "backward_body bytes k backward =
     do {
       h_k \<leftarrow> vec_get backward k;
       b \<leftarrow> vec_get bytes (k - 1);
       vec_set backward (k - 1) (fnv_unstep h_k b)
     }"

definition scan_body ::
  "u8 list \<Rightarrow> u64 list \<Rightarrow> u64 list \<Rightarrow> nat \<Rightarrow> reverse_result \<Rightarrow> reverse_result option" where
  "scan_body bytes forward backward k result =
     do {
       f_k \<leftarrow> vec_get forward k;
       h_k \<leftarrow> vec_get backward k;
       let diff = f_k XOR h_k;
       let bits = popcount64 diff;
       let result = (if bits < rr_min_popcount result
                     then result\<lparr>rr_min_popcount := bits\<rparr> else result);
       if diff \<noteq> 0 \<and> diff < 256 \<and> \<not> rr_single_byte result
       then do {
         b_k \<leftarrow> vec_get bytes k;
         Some (result\<lparr>rr_single_byte := True,
                      rr_lane := of_nat (k mod 4),
                      rr_sample_index := of_nat (k div 4),
                      rr_stored := ucast b_k,
                      rr_observed := ucast (b_k XOR ucast diff)\<rparr>)
       }
       else Some result
     }"

definition reverse_fnv ::
  "f32 list \<Rightarrow> u64 \<Rightarrow> u64 list \<Rightarrow> u64 list \<Rightarrow> (reverse_result \<times> u64 list \<times> u64 list) option" where
  \<comment> \<open>the result and the contents the two buffers are left with\<close>
  "reverse_fnv correct_samples wrong_hash forward backward =
     do {
       let bytes = sample_bytes correct_samples;
       let n = length correct_samples * 4;
       forward \<leftarrow> vec_set forward 0 k_fnv_basis;
       forward \<leftarrow> for_each [0..<n] (forward_body bytes) forward;
       backward \<leftarrow> vec_set backward n wrong_hash;
       backward \<leftarrow> for_each (rev [1..<n + 1]) (backward_body bytes) backward;
       result \<leftarrow> for_each [0..<n + 1] (scan_body bytes forward backward) reverse_result_init;
       Some (result, forward, backward)
     }"

section \<open>Bit counts\<close>

fun bit_count :: "nat \<Rightarrow> nat" where
  "bit_count n = (if n = 0 then 0 else n mod 2 + bit_count (n div 2))"

declare bit_count.simps [simp del]

lemma bit_count_0 [simp]: "bit_count 0 = 0"
  by (simp add: bit_count.simps)

lemma bit_count_double: "bit_count (2 * m) = bit_count m"
  by (cases "m = 0") (simp_all add: bit_count.simps [of "2 * m"])

lemma bit_count_Suc_double: "bit_count (Suc (2 * m)) = Suc (bit_count m)"
  by (simp add: bit_count.simps [of "Suc (2 * m)"])

lemma and_pred_even: "0 < m \<Longrightarrow> (2 * m) AND (2 * m - 1) = 2 * (m AND (m - 1))" for m :: nat
proof -
  assume "0 < m"
  then obtain j where m: "m = Suc j" by (cases m) auto
  show ?thesis by (subst and_nat_unfold) (simp add: m)
qed

lemma and_pred_odd: "Suc (2 * m) AND (2 * m) = (2 * m :: nat)"
  using and_nat_unfold by auto

lemma bit_count_pred: "n \<noteq> 0 \<Longrightarrow> bit_count n = Suc (bit_count (n AND (n - 1)))"
proof (induction n rule: bit_count.induct)
  case (1 n)
  show ?case
  proof (cases "even n")
    case True
    then obtain m where n: "n = 2 * m" by blast
    with 1 have "bit_count m = Suc (bit_count (m AND (m - 1)))" by simp
    moreover have "n AND (n - 1) = 2 * (m AND (m - 1))"
      using 1(2) by (simp only: n) (rule and_pred_even, simp)
    ultimately show ?thesis by (simp only: n bit_count_double)
  next
    case False
    then obtain m where n: "n = Suc (2 * m)" by (metis oddE Suc_eq_plus1)
    show ?thesis by (simp add: n and_pred_odd bit_count_double bit_count_Suc_double)
  qed
qed

lemma bit_count_card: "bit_count n = card {i. bit n i}"
proof (induction n rule: bit_count.induct)
  case (1 n)
  show ?case
  proof (cases "n = 0")
    case True
    then show ?thesis by simp
  next
    case False
    have split: "{i. bit n i} = (if odd n then {0} else {}) \<union> Suc ` {i. bit (n div 2) i}"
      by (auto simp: image_iff bit_Suc bit_0 gr0_conv_Suc split: if_splits) (metis bit_0 bit_Suc not0_implies_Suc)+
    have fin: "finite {i. bit (n div 2) i}"
    proof (rule finite_subset)
      show "{i. bit (n div 2) i} \<subseteq> {..<n div 2}"
      proof
        fix i
        assume "i \<in> {i. bit (n div 2) i}"
        then have "odd (n div 2 div 2 ^ i)" by (simp add: bit_iff_odd)
        then have "n div 2 div 2 ^ i \<noteq> 0" by (metis even_zero)
        then have "2 ^ i \<le> n div 2" by (meson div_less not_less)
        moreover have "i < 2 ^ i" by (rule less_exp)
        ultimately show "i \<in> {..<n div 2}" by (meson lessThan_iff less_le_trans)
      qed
    qed simp
    show ?thesis
      using 1 False fin
      by (subst split) (auto simp: bit_count.simps [of n] card_image odd_iff_mod_2_eq_one card_insert_if)
  qed
qed

lemma bit_count_le: "n < 2 ^ k \<Longrightarrow> bit_count n \<le> k"
proof (induction k arbitrary: n)
  case 0
  then show ?case by simp
next
  case (Suc k)
  then have "bit_count (n div 2) \<le> k" by (simp add: less_mult_imp_div_less mult.commute)
  moreover have "n mod 2 \<le> 1" by simp
  ultimately show ?case by (subst bit_count.simps) simp
qed

lemma popcount_loop_eq: "popcount_loop v count = count + of_nat (bit_count (unat v))"
proof (induction v count rule: popcount_loop.induct)
  case (1 v count)
  show ?case
  proof (cases "v = 0")
    case True
    then show ?thesis by (simp add: popcount_loop.simps)
  next
    case False
    then have "unat (v - 1) = unat v - 1" by (simp add: unat_minus_one)
    then have "bit_count (unat v) = Suc (bit_count (unat (v AND (v - 1))))"
      using bit_count_pred [of "unat v"] False by (simp add: unsigned_and_eq unat_eq_0)
    with 1 False show ?thesis by (simp add: popcount_loop.simps [of v])
  qed
qed

text \<open>
  The population count stops after as many steps as the value has bits set and
  returns their number, at most 64.
\<close>

lemma popcount64_counts: "unat (popcount64 v) = card {i. bit v i} \<and> unat (popcount64 v) \<le> 64"
proof -
  have "bit_count (unat v) \<le> 64"
    by (rule bit_count_le) (use unsigned_less [of v] in simp)
  moreover have "popcount64 v = of_nat (bit_count (unat v))"
    by (simp add: popcount64_def popcount_loop_eq)
  moreover have "{i. bit (unat v) i} = {i. bit v i}" by (simp add: bit_unsigned_iff)
  ultimately show ?thesis
    by (simp add: unat_of_nat take_bit_nat_eq_self_iff bit_count_card)
qed

section \<open>The two buffers\<close>

text \<open>
  What the accumulator must have been before byte \<open>k\<close>, and what it was if the rest of the
  stream was processed correctly: the specification of the two loops.
\<close>

definition fwd_state :: "u8 list \<Rightarrow> nat \<Rightarrow> u64" where
  "fwd_state bytes k = foldl fnv_step k_fnv_basis (take k bytes)"

definition bwd_state :: "u8 list \<Rightarrow> u64 \<Rightarrow> nat \<Rightarrow> u64" where
  "bwd_state bytes wrong k = foldr (\<lambda>b h. fnv_unstep h b) (drop k bytes) wrong"

lemma fwd_state_0: "fwd_state bytes 0 = k_fnv_basis"
  by (simp add: fwd_state_def)

lemma fwd_state_Suc:
  "k < length bytes \<Longrightarrow> fwd_state bytes (Suc k) = fnv_step (fwd_state bytes k) (bytes ! k)"
  by (simp add: fwd_state_def take_Suc_conv_app_nth)

lemma bwd_state_end: "bwd_state bytes wrong (length bytes) = wrong"
  by (simp add: bwd_state_def)

lemma bwd_state_step:
  "k < length bytes \<Longrightarrow> bwd_state bytes wrong k = fnv_unstep (bwd_state bytes wrong (Suc k)) (bytes ! k)"
  by (simp add: bwd_state_def Cons_nth_drop_Suc [symmetric])

lemma bwd_state_Suc:
  "k < length bytes \<Longrightarrow> bwd_state bytes wrong (Suc k) = fnv_step (bwd_state bytes wrong k) (bytes ! k)"
  by (simp add: bwd_state_step fnv_simps)

lemma forward_fill:
  assumes "length bytes < length forward"
  shows "\<exists>forward'. for_each [0..<length bytes] (forward_body bytes) (forward[0 := k_fnv_basis]) = Some forward'
    \<and> length forward' = length forward \<and> (\<forall>k\<le>length bytes. forward' ! k = fwd_state bytes k)"
proof (rule for_each_upt_invariant
    [where I = "\<lambda>n f. length f = length forward \<and> (\<forall>k\<le>n. f ! k = fwd_state bytes k)"])
  show "length (forward[0 := k_fnv_basis]) = length forward
      \<and> (\<forall>k\<le>0. forward[0 := k_fnv_basis] ! k = fwd_state bytes k)"
    using assms by (cases forward) (auto simp: fwd_state_0)
next
  fix i f
  assume "i < length bytes" and inv: "length f = length forward \<and> (\<forall>k\<le>i. f ! k = fwd_state bytes k)"
  then have "forward_body bytes i f = Some (f[Suc i := fwd_state bytes (Suc i)])"
    using assms by (simp add: forward_body_def vec_simps fwd_state_Suc)
  then show "\<exists>f'. forward_body bytes i f = Some f' \<and> length f' = length forward
      \<and> (\<forall>k\<le>Suc i. f' ! k = fwd_state bytes k)"
    using inv assms \<open>i < length bytes\<close> by (auto simp: nth_list_update le_Suc_eq)
qed simp

lemma backward_fill:
  assumes "length bytes < length backward"
  shows "\<exists>backward'. for_each (rev [1..<length bytes + 1]) (backward_body bytes)
      (backward[length bytes := wrong]) = Some backward'
    \<and> length backward' = length backward \<and> (\<forall>k\<le>length bytes. backward' ! k = bwd_state bytes wrong k)"
proof -
  let ?n = "length bytes"
  have "\<exists>b'. for_each (rev [Suc m..<?n + 1]) (backward_body bytes) (backward[?n := wrong]) = Some b'
      \<and> length b' = length backward \<and> (\<forall>k. m \<le> k \<and> k \<le> ?n \<longrightarrow> b' ! k = bwd_state bytes wrong k)"
    if "m \<le> ?n" for m
    using that
  proof (induction "?n - m" arbitrary: m)
    case 0
    then show ?case using assms by (auto simp: bwd_state_end)
  next
    case (Suc d)
    then have m: "m < ?n" by simp
    have "d = ?n - Suc m" "Suc m \<le> ?n" using Suc(2) by simp_all
    from Suc(1) [OF this]
    obtain b' where b': "for_each (rev [Suc (Suc m)..<?n + 1]) (backward_body bytes)
        (backward[?n := wrong]) = Some b'" "length b' = length backward"
        "\<forall>k. Suc m \<le> k \<and> k \<le> ?n \<longrightarrow> b' ! k = bwd_state bytes wrong k"
      by blast
    have "[Suc m..<?n + 1] = Suc m # [Suc (Suc m)..<?n + 1]" using m by (intro upt_conv_Cons) simp
    moreover have "backward_body bytes (Suc m) b' = Some (b'[m := bwd_state bytes wrong m])"
      using b' m assms by (simp add: backward_body_def vec_simps bwd_state_step [OF m])
    ultimately show ?case
      using b' m assms by (auto simp: for_each_append nth_list_update simp del: upt_Suc)
  qed
  from this [of 0] show ?thesis by simp
qed

section \<open>The scan\<close>

definition candidate :: "u8 list \<Rightarrow> u64 \<Rightarrow> nat \<Rightarrow> bool" where
  \<comment> \<open>at step \<open>k\<close> the two states differ in the low byte only\<close>
  "candidate bytes wrong k \<longleftrightarrow> low_diff (fwd_state bytes k) (bwd_state bytes wrong k)"

definition min_bits :: "u8 list \<Rightarrow> u64 \<Rightarrow> nat \<Rightarrow> u32" where
  \<comment> \<open>the least number of bits by which the states of the first \<open>n\<close> steps differ\<close>
  "min_bits bytes wrong n =
     fold (\<lambda>k m. min m (popcount64 (fwd_state bytes k XOR bwd_state bytes wrong k))) [0..<n] 65"

definition found_at :: "u8 list \<Rightarrow> u64 \<Rightarrow> nat \<Rightarrow> nat \<Rightarrow> reverse_result" where
  \<comment> \<open>the result when step \<open>k\<close> is the first candidate, after \<open>n\<close> steps\<close>
  "found_at bytes wrong k n =
     \<lparr>rr_single_byte = True, rr_lane = of_nat (k mod 4), rr_sample_index = of_nat (k div 4),
      rr_stored = ucast (bytes ! k),
      rr_observed = ucast (bytes ! k XOR ucast (fwd_state bytes k XOR bwd_state bytes wrong k)),
      rr_min_popcount = min_bits bytes wrong n\<rparr>"

definition scan_result :: "u8 list \<Rightarrow> u64 \<Rightarrow> nat \<Rightarrow> reverse_result" where
  "scan_result bytes wrong n =
     (case find (candidate bytes wrong) [0..<n] of
        None \<Rightarrow> reverse_result_init\<lparr>rr_min_popcount := min_bits bytes wrong n\<rparr>
      | Some k \<Rightarrow> found_at bytes wrong k n)"

lemma min_bits_Suc: "min_bits bytes wrong (Suc n)
    = min (min_bits bytes wrong n) (popcount64 (fwd_state bytes n XOR bwd_state bytes wrong n))"
  by (simp add: min_bits_def)

lemma find_upt_Suc: "find P [0..<Suc n] = (case find P [0..<n] of None \<Rightarrow> if P n then Some n else None
    | Some k \<Rightarrow> Some k)"
proof -
  have "find P (xs @ [x]) = (case find P xs of None \<Rightarrow> if P x then Some x else None | Some k \<Rightarrow> Some k)"
    for xs x by (induction xs) simp_all
  then show ?thesis by simp
qed

lemma scan_step:
  assumes "k < length forward" "k < length backward" "forward ! k = fwd_state bytes k"
    and "backward ! k = bwd_state bytes wrong k"
  shows "scan_body bytes forward backward k (scan_result bytes wrong k) =
    (if find (candidate bytes wrong) [0..<k] = None \<and> candidate bytes wrong k \<and> length bytes \<le> k
     then None else Some (scan_result bytes wrong (Suc k)))"
proof -
  have less: "(p < m) = (min m p \<noteq> m)" "min m p = (if p < m then p else m)" for m p :: u32
    by (auto simp: min_def)
  show ?thesis
    using assms
    by (auto simp: scan_body_def scan_result_def vec_simps Let_def find_upt_Suc found_at_def
        reverse_result_init_def min_bits_Suc less(2) candidate_def low_diff_def vec_get_def
        simp del: upt_Suc split: option.splits)
qed

lemma scan_all:
  assumes "length bytes < length forward" "length bytes < length backward"
    and "\<forall>k\<le>length bytes. forward ! k = fwd_state bytes k"
    and "\<forall>k\<le>length bytes. backward ! k = bwd_state bytes wrong k"
  shows "for_each [0..<length bytes + 1] (scan_body bytes forward backward) reverse_result_init =
    (if find (candidate bytes wrong) [0..<length bytes + 1] = Some (length bytes) then None
     else Some (scan_result bytes wrong (length bytes + 1)))"
proof -
  let ?n = "length bytes" and ?c = "candidate bytes wrong"
  have "\<exists>t. for_each [0..<?n] (scan_body bytes forward backward) reverse_result_init = Some t
      \<and> t = scan_result bytes wrong ?n"
  proof (rule for_each_upt_invariant [where I = "\<lambda>k t. t = scan_result bytes wrong k"])
    show "reverse_result_init = scan_result bytes wrong 0"
      by (simp add: scan_result_def min_bits_def reverse_result_init_def)
  qed (use assms in \<open>simp_all add: scan_step\<close>)
  moreover have "find ?c [0..<?n] \<noteq> Some ?n" by (auto simp: find_Some_iff)
  ultimately show ?thesis
    using assms scan_step [of ?n forward backward bytes wrong]
    by (auto simp: for_each_append find_upt_Suc [simplified] split: option.splits)
qed

lemma reverse_fnv_eq:
  fixes data forward backward
  defines "bytes \<equiv> sample_bytes data"
  assumes "4 * length data < length forward" "4 * length data < length backward"
  shows "\<exists>f b. length f = length forward \<and> length b = length backward
    \<and> reverse_fnv data wrong forward backward =
       (if find (candidate bytes wrong) [0..<length bytes + 1] = Some (length bytes) then None
        else Some (scan_result bytes wrong (length bytes + 1), f, b))"
proof -
  have n: "length data * 4 = length bytes" "length bytes < length forward" "length bytes < length backward"
    using assms by simp_all
  obtain f where f: "for_each [0..<length bytes] (forward_body bytes) (forward[0 := k_fnv_basis]) = Some f"
      "length f = length forward" "\<forall>k\<le>length bytes. f ! k = fwd_state bytes k"
    using forward_fill [OF n(2)] by blast
  obtain b where b: "for_each (rev [1..<length bytes + 1]) (backward_body bytes)
        (backward[length bytes := wrong]) = Some b"
      "length b = length backward" "\<forall>k\<le>length bytes. b ! k = bwd_state bytes wrong k"
    using backward_fill [OF n(3)] by blast
  have "vec_set forward 0 k_fnv_basis = Some (forward[0 := k_fnv_basis])"
    "vec_set backward (length bytes) wrong = Some (backward[length bytes := wrong])"
    using n by (auto simp: vec_set_def)
  then have "reverse_fnv data wrong forward backward =
       (if find (candidate bytes wrong) [0..<length bytes + 1] = Some (length bytes) then None
        else Some (scan_result bytes wrong (length bytes + 1), f, b))"
    unfolding reverse_fnv_def bytes_def [symmetric] n(1) Let_def
    using scan_all [of bytes f b wrong] f b n by simp
  then show ?thesis using f(2) b(2) by blast
qed

section \<open>Explanations\<close>

text \<open>
  The specification: byte \<open>k\<close> replaced by \<open>b\<close> explains a hash if the stream with that one byte
  changed has it.
\<close>

definition explains :: "u8 list \<Rightarrow> u64 \<Rightarrow> nat \<Rightarrow> u8 \<Rightarrow> bool" where
  "explains bytes wrong k b \<longleftrightarrow>
     b \<noteq> bytes ! k \<and> foldl fnv_step k_fnv_basis (bytes[k := b]) = wrong"

lemma explains_states:
  assumes "k < length bytes"
  shows "foldl fnv_step k_fnv_basis (bytes[k := b]) = wrong
    \<longleftrightarrow> fwd_state bytes k = bwd_state bytes wrong k XOR ucast (bytes ! k) XOR ucast b"
proof -
  have "foldl fnv_step k_fnv_basis (bytes[k := b])
      = foldl fnv_step (fnv_step (fwd_state bytes k) b) (drop (Suc k) bytes)"
    using assms by (simp add: upd_conv_take_nth_drop fwd_state_def)
  moreover have "foldl fnv_step (fnv_step (fwd_state bytes k) b) (drop (Suc k) bytes) = wrong
      \<longleftrightarrow> fwd_state bytes k = fnv_unstep (bwd_state bytes wrong (Suc k)) b"
    by (simp only: fnv.foldl_eq_iff fnv.step_eq_iff_unstep bwd_state_def)
  ultimately have "foldl fnv_step k_fnv_basis (bytes[k := b]) = wrong
      \<longleftrightarrow> fwd_state bytes k = fnv_unstep (bwd_state bytes wrong (Suc k)) b"
    by simp
  moreover have "fnv_unstep (bwd_state bytes wrong (Suc k)) b
      = bwd_state bytes wrong k XOR ucast (bytes ! k) XOR ucast b"
    by (simp add: bwd_state_step [OF assms] fnv_unstep_def xor.assoc)
  ultimately show ?thesis by simp
qed

lemma explains_candidate:
  assumes "k < length bytes" and "explains bytes wrong k b"
  shows "candidate bytes wrong k"
    and "b = bytes ! k XOR ucast (fwd_state bytes k XOR bwd_state bytes wrong k)"
proof -
  let ?h = "bwd_state bytes wrong k XOR ucast (bytes ! k)"
  have f: "fwd_state bytes k = ?h XOR ucast b"
    using assms by (simp add: explains_def explains_states xor.assoc)
  have h: "bwd_state bytes wrong k = ?h XOR ucast (bytes ! k)" by (simp add: xor.assoc)
  have "low_diff (?h XOR ucast b) (?h XOR ucast (bytes ! k))"
    using assms(2) by (simp add: explains_def)
  then show "candidate bytes wrong k" unfolding candidate_def f using h by simp
  have "fwd_state bytes k XOR bwd_state bytes wrong k = ucast (bytes ! k XOR b)"
    unfolding f by (simp add: bit_eq_iff bit_simps) blast
  moreover have "ucast (ucast (bytes ! k XOR b) :: u64) = bytes ! k XOR b"
    by (simp add: bit_eq_iff bit_simps)
  ultimately show "b = bytes ! k XOR ucast (fwd_state bytes k XOR bwd_state bytes wrong k)"
    by (simp add: xor.assoc [symmetric])
qed

lemma ucast_byte_u32 [simp]:
  "ucast (ucast (b :: u8) :: u32) = b" "(ucast (b :: u8) :: u32) < 256"
  "(ucast (a :: u8) :: u32) = ucast b \<longleftrightarrow> a = b"
proof -
  have n: "unat (ucast x :: u32) = unat x" for x :: u8
    using unsigned_less [of x, where ?'a = nat] by (simp add: unsigned_ucast_eq take_bit_nat_eq_self_iff)
  show "ucast (ucast b :: u32) = b" by (simp add: bit_eq_iff bit_simps)
  show "(ucast b :: u32) < 256" using unsigned_less [of b] by (simp add: word_less_nat_alt n)
  show "(ucast a :: u32) = ucast b \<longleftrightarrow> a = b"
    using n by (metis word_unat_eq_iff)
qed

lemma xor_nonzero: "d \<noteq> 0 \<Longrightarrow> x XOR d \<noteq> x" for x d :: u8
proof
  assume "d \<noteq> 0" and "x XOR d = x"
  then have "x XOR (x XOR d) = 0" by simp
  with \<open>d \<noteq> 0\<close> show False by (simp add: xor.assoc [symmetric])
qed

lemma candidate_explains:
  assumes "k < length bytes" and "candidate bytes wrong k"
  shows "explains bytes wrong k (bytes ! k XOR ucast (fwd_state bytes k XOR bwd_state bytes wrong k))"
proof -
  let ?d = "fwd_state bytes k XOR bwd_state bytes wrong k"
  have d: "ucast (ucast ?d :: u8) = ?d" "?d \<noteq> 0"
    using assms(2) ucast_byte_of_low by (auto simp: candidate_def low_diff_def)
  have "bwd_state bytes wrong k XOR ucast (bytes ! k) XOR ucast (bytes ! k XOR ucast ?d)
      = bwd_state bytes wrong k XOR ucast (ucast ?d :: u8)"
    by (simp add: bit_eq_iff bit_simps) blast
  also have "\<dots> = fwd_state bytes k"
    unfolding d(1) by (simp add: bit_eq_iff bit_simps) blast
  finally have "foldl fnv_step k_fnv_basis (bytes[k := bytes ! k XOR ucast ?d]) = wrong"
    using explains_states [OF assms(1)] by simp
  moreover have "ucast ?d \<noteq> (0 :: u8)" using d by (metis unsigned_0)
  then have "bytes ! k XOR ucast ?d \<noteq> bytes ! k" by (rule xor_nonzero)
  ultimately show ?thesis by (simp add: explains_def)
qed

lemma candidate_iff: "k < length bytes \<Longrightarrow> candidate bytes wrong k \<longleftrightarrow> (\<exists>b. explains bytes wrong k b)"
  using explains_candidate candidate_explains by blast

lemma candidates_apart:
  assumes "candidate bytes wrong i" "i < k" "k \<le> i + 3" "k \<le> length bytes"
  shows "\<not> candidate bytes wrong k"
proof -
  let ?run = "take (k - i) (drop i bytes)"
  have "take k bytes = take i bytes @ ?run"
    using assms(2) by (metis le_add_diff_inverse less_imp_le take_add)
  then have "fwd_state bytes k = foldl fnv_step (fwd_state bytes i) ?run" by (simp add: fwd_state_def)
  moreover have "drop i bytes = ?run @ drop k bytes"
    using assms(2) by (metis append_take_drop_id drop_drop le_add_diff_inverse2 less_imp_le)
  then have "bwd_state bytes wrong k = foldl fnv_step (bwd_state bytes wrong i) ?run"
    by (simp only: bwd_state_def) (metis fnv.foldl_step foldr_append comp_apply)
  ultimately show ?thesis
    using low_diff_spread [of "fwd_state bytes i" "bwd_state bytes wrong i" ?run] assms
    by (simp add: candidate_def)
qed

text \<open>The position a result names, as an index into the byte stream.\<close>

definition reported_byte :: "reverse_result \<Rightarrow> nat" where
  "reported_byte r = 4 * unat (rr_sample_index r) + unat (rr_lane r)"

lemma small_index: "k < 2 ^ 64 \<Longrightarrow> unat (of_nat (k div 4) :: u64) = k div 4" for k :: nat
  by (simp add: unat_of_nat take_bit_nat_eq_self_iff)

lemma small_lane: "unat (of_nat (k mod 4) :: u32) = k mod 4" for k :: nat
  by (simp add: unat_of_nat take_bit_nat_eq_self_iff)

lemma found_at_fields:
  assumes "k < 2 ^ 64"
  shows "reported_byte (found_at bytes wrong k n) = k" "rr_single_byte (found_at bytes wrong k n)"
    "unat (rr_lane (found_at bytes wrong k n)) < 4"
    "rr_stored (found_at bytes wrong k n) = ucast (bytes ! k)"
    "rr_observed (found_at bytes wrong k n)
       = ucast (bytes ! k XOR ucast (fwd_state bytes k XOR bwd_state bytes wrong k))"
  by (simp_all add: found_at_def reported_byte_def small_index [OF assms] small_lane)

definition buffers_fit :: "f32 list \<Rightarrow> u64 list \<Rightarrow> u64 list \<Rightarrow> bool" where
  \<comment> \<open>the sizes the workspace allocates for its sample count\<close>
  "buffers_fit data forward backward \<longleftrightarrow> length data < 2 ^ 61
     \<and> length forward = 4 * length data + 1 \<and> length backward = 4 * length data + 1"

lemma new_workspace_fits:
  "n < 2 ^ 61 \<Longrightarrow> buffers_fit (ws_samples (new_workspace n)) (ws_forward (new_workspace n))
     (ws_backward (new_workspace n))"
  by (simp add: buffers_fit_def new_workspace_def)

lemma find_first: "find P [0..<n] = Some k \<longleftrightarrow> k < n \<and> P k \<and> (\<forall>i<k. \<not> P i)"
  by (auto simp: find_Some_iff)

lemma reverse_fnv_cases:
  assumes "buffers_fit data forward backward"
  shows "(\<exists>k f b. k < 4 * length data \<and> candidate (sample_bytes data) wrong k
            \<and> (\<forall>i<k. \<not> candidate (sample_bytes data) wrong i)
            \<and> reverse_fnv data wrong forward backward
                = Some (found_at (sample_bytes data) wrong k (4 * length data + 1), f, b))
       \<or> (\<forall>k<4 * length data. \<not> candidate (sample_bytes data) wrong k)
          \<and> (if candidate (sample_bytes data) wrong (4 * length data)
             then reverse_fnv data wrong forward backward = None
             else \<exists>r f b. reverse_fnv data wrong forward backward = Some (r, f, b) \<and> \<not> rr_single_byte r)"
proof -
  let ?n = "4 * length data" and ?c = "candidate (sample_bytes data) wrong"
  obtain f b where eq: "reverse_fnv data wrong forward backward =
      (if find ?c [0..<?n + 1] = Some ?n then None
       else Some (scan_result (sample_bytes data) wrong (?n + 1), f, b))"
    using assms reverse_fnv_eq [of data forward backward wrong, unfolded length_sample_bytes]
    by (auto simp: buffers_fit_def simp del: upt_Suc upt_Suc_append)
  show ?thesis
  proof (cases "find ?c [0..<?n + 1]")
    case None
    then have none: "\<not> ?c k" if "k \<le> ?n" for k using that None
      using find_None_iff [of ?c "[0..<?n + 1]"] by (simp add: less_Suc_eq_le del: upt_Suc)
    with None eq show ?thesis by (auto simp: scan_result_def reverse_result_init_def)
  next
    case (Some k)
    then have k: "k < ?n + 1" "?c k" "\<forall>i<k. \<not> ?c i" unfolding find_first by blast+
    show ?thesis
    proof (cases "k = ?n")
      case True
      with k Some eq show ?thesis by auto
    next
      case False
      with k(1) have "k < ?n" by simp
      moreover have "reverse_fnv data wrong forward backward
          = Some (found_at (sample_bytes data) wrong k (?n + 1), f, b)"
        unfolding eq Some using False by (simp add: scan_result_def Some [simplified])
      ultimately show ?thesis using k(2,3) by blast
    qed
  qed
qed

lemma substitution_explains:
  "b \<noteq> sample_bytes data ! k \<Longrightarrow> k < 4 * length data \<Longrightarrow> explains (sample_bytes data) wrong k b
     \<longleftrightarrow> replay_hash_with_substitution data (length data) k b = Some wrong"
  by (simp add: explains_def replay_hash_with_substitution_eq)

lemma no_candidate:
  "(\<forall>k<4 * length data. \<not> candidate (sample_bytes data) wrong k) \<longleftrightarrow>
      (\<forall>k<4 * length data. \<forall>b. b \<noteq> sample_bytes data ! k \<longrightarrow>
         replay_hash_with_substitution data (length data) k b \<noteq> Some wrong)"
  by (auto simp: candidate_iff substitution_explains [symmetric]) (auto simp: explains_def)

lemma last_candidate:
  "candidate (sample_bytes data) wrong (4 * length data) \<longleftrightarrow>
     (\<exists>hash. replay_hash data (length data) = Some hash \<and> hash XOR wrong \<noteq> 0 \<and> hash XOR wrong < 256)"
  using bwd_state_end [of "sample_bytes data" wrong]
  by (simp add: candidate_def low_diff_def replay_hash_eq fwd_state_def)

lemma single_byte_found:
  assumes "buffers_fit data forward backward"
    and "reverse_fnv data wrong forward backward = Some (r, f, b)" and "rr_single_byte r"
  shows "\<exists>k<4 * length data. candidate (sample_bytes data) wrong k
    \<and> r = found_at (sample_bytes data) wrong k (4 * length data + 1) \<and> k < 2 ^ 64"
  using reverse_fnv_cases [OF assms(1), of wrong] assms by (auto simp: buffers_fit_def split: if_splits)

lemma single_byte_reported:
  assumes "buffers_fit data forward backward"
    and "reverse_fnv data wrong forward backward = Some (r, f, b)" and "rr_single_byte r"
  shows "candidate (sample_bytes data) wrong (reported_byte r)"
  using single_byte_found [OF assms] by (auto simp: found_at_fields)

lemma misread_found:
  assumes "buffers_fit data forward backward" and "k < 4 * length data"
    and e: "explains (sample_bytes data) wrong k b"
  shows "\<exists>i f g. i \<le> k \<and> (k < i + 4 \<longrightarrow> i = k) \<and> i < 2 ^ 64
    \<and> reverse_fnv data wrong forward backward
        = Some (found_at (sample_bytes data) wrong i (4 * length data + 1), f, g)
    \<and> b = sample_bytes data ! k
        XOR ucast (fwd_state (sample_bytes data) k XOR bwd_state (sample_bytes data) wrong k)"
proof -
  let ?bs = "sample_bytes data"
  have c: "candidate ?bs wrong k" using e assms(2) by (simp add: explains_candidate)
  then obtain i f g where i: "i < 4 * length data" "candidate ?bs wrong i" "\<forall>j<i. \<not> candidate ?bs wrong j"
      "reverse_fnv data wrong forward backward = Some (found_at ?bs wrong i (4 * length data + 1), f, g)"
    using reverse_fnv_cases [OF assms(1), of wrong] assms(2) by (auto split: if_splits)
  have "i < 2 ^ 64" using i(1) assms(1) by (simp add: buffers_fit_def)
  moreover have "i \<le> k" using c i(3) by (meson not_le)
  moreover have "i = k" if "k < i + 4"
    using candidates_apart [OF i(2), of k] c assms(2) that \<open>i \<le> k\<close> by (cases "i = k") simp_all
  moreover have "b = ?bs ! k XOR ucast (fwd_state ?bs k XOR bwd_state ?bs wrong k)"
    using explains_candidate(2) [OF _ e] assms(2) by simp
  ultimately show ?thesis using i(4) by blast
qed

section \<open>What the analysis promises\<close>

text \<open>
  Property C3: the diagnosis is sound. Whenever the analysis names a byte, that byte lies inside
  the sample array, the lane is a byte lane of that sample, the stored value is the byte in
  memory, the observed value is a different byte, and re-hashing the array with that one byte
  replaced gives exactly the wrong hash.
\<close>

theorem reverse_sound:
  assumes "buffers_fit data forward backward"
    and "reverse_fnv data wrong forward backward = Some (r, f, b)" and "rr_single_byte r"
  shows "reported_byte r < 4 * length data \<and> unat (rr_lane r) < 4
    \<and> rr_stored r = ucast (sample_bytes data ! reported_byte r)
    \<and> rr_observed r < 256 \<and> rr_observed r \<noteq> rr_stored r
    \<and> replay_hash_with_substitution data (length data) (reported_byte r) (ucast (rr_observed r))
        = Some wrong"
proof -
  let ?bs = "sample_bytes data"
  obtain k where k: "k < 4 * length data" "candidate ?bs wrong k"
      "r = found_at ?bs wrong k (4 * length data + 1)"
and "k < 2 ^ 64"
    using single_byte_found [OF assms] by blast
  note fields = found_at_fields [OF \<open>k < 2 ^ 64\<close>, of ?bs wrong "4 * length data + 1", folded k(3)]
  define byte where "byte = ?bs ! k XOR ucast (fwd_state ?bs k XOR bwd_state ?bs wrong k)"
  have e: "explains ?bs wrong k byte" using k(1,2) by (simp add: byte_def candidate_explains)
  then have "byte \<noteq> ?bs ! k" by (simp add: explains_def)
  with e substitution_explains [OF this k(1)] k(1) show ?thesis
    by (simp add: fields byte_def [symmetric] ucast_byte_u32)
qed

text \<open>
  Property C10: the diagnosis is complete and exact. If the wrong hash is what one misread byte
  produces, the analysis finishes and names a byte; the byte it names is not after the misread,
  and within the three bytes before it there is no rival: a reported position there is the
  misread itself, with the value that was read.
\<close>

theorem reverse_complete:
  assumes "buffers_fit data forward backward" and "k < 4 * length data"
    and "b \<noteq> sample_bytes data ! k"
    and "replay_hash_with_substitution data (length data) k b = Some wrong"
  shows "\<exists>r f g. reverse_fnv data wrong forward backward = Some (r, f, g) \<and> rr_single_byte r
    \<and> reported_byte r \<le> k
    \<and> (k < reported_byte r + 4 \<longrightarrow> reported_byte r = k \<and> rr_observed r = ucast b)"
proof -
  have "explains (sample_bytes data) wrong k b" using assms(2-4) by (simp add: substitution_explains)
  from misread_found [OF assms(1,2) this] obtain i f g where
    i: "i \<le> k" "k < i + 4 \<longrightarrow> i = k" "i < 2 ^ 64"
      "reverse_fnv data wrong forward backward
        = Some (found_at (sample_bytes data) wrong i (4 * length data + 1), f, g)"
    and b: "b = sample_bytes data ! k
        XOR ucast (fwd_state (sample_bytes data) k XOR bwd_state (sample_bytes data) wrong k)" by blast
  define r where "r = found_at (sample_bytes data) wrong i (4 * length data + 1)"
  note fields = found_at_fields [OF i(3), of "sample_bytes data" wrong "4 * length data + 1", folded r_def]
  show ?thesis using i b unfolding r_def [symmetric] by (auto simp: fields)
qed

text \<open>
  Property C18: the scan reads one byte past the sample array, which C++ leaves undefined,
  exactly when the wrong hash differs from the memory hash in its low byte only and no misread
  of a single byte explains it: the step after the last byte passes the test of the loop, and
  there is no byte for it.
\<close>

theorem reverse_overread:
  assumes "buffers_fit data forward backward"
  shows "reverse_fnv data wrong forward backward = None \<longleftrightarrow>
    (\<exists>hash. replay_hash data (length data) = Some hash \<and> hash XOR wrong \<noteq> 0 \<and> hash XOR wrong < 256)
    \<and> (\<forall>k<4 * length data. \<forall>b. b \<noteq> sample_bytes data ! k \<longrightarrow>
         replay_hash_with_substitution data (length data) k b \<noteq> Some wrong)"
proof -
  show ?thesis
    unfolding no_candidate [symmetric] last_candidate [symmetric]
    using reverse_fnv_cases [OF assms, of wrong] by (auto split: if_splits)
qed

section \<open>Two misreads in one sample\<close>

lemma near_pair_list:
  assumes "a \<noteq> a'" and "length mid \<le> 2"
  shows "foldl fnv_step h (p @ a # mid @ c # q) \<noteq> foldl fnv_step h (p @ a' # mid @ c' # q)"
proof
  let ?F = "foldl fnv_step h p"
  let ?x = "?F XOR ucast a" and ?y = "?F XOR ucast a'"
  assume "foldl fnv_step h (p @ a # mid @ c # q) = foldl fnv_step h (p @ a' # mid @ c' # q)"
  then have "fnv_step (foldl fnv_step ?x (0 # mid)) c = fnv_step (foldl fnv_step ?y (0 # mid)) c'"
    by (simp add: fnv.foldl_inject fnv_step_def)
  then have same: "foldl fnv_step ?x (0 # mid) XOR ucast c = foldl fnv_step ?y (0 # mid) XOR ucast c'"
    by (simp only: fnv_step_inject_xor)
  have x: "low_diff ?x ?y" using assms(1) by simp
  then have "\<not> low_diff (foldl fnv_step ?x (0 # mid)) (foldl fnv_step ?y (0 # mid))"
    by (rule low_diff_spread) (use assms(2) in simp_all)
  moreover have "foldl fnv_step ?x (0 # mid) \<noteq> foldl fnv_step ?y (0 # mid)"
    using x by (auto simp: fnv.foldl_inject low_diff_def simp del: foldl_Cons)
  ultimately show False using same xor_bytes_low_diff by blast
qed

lemma near_pair:
  assumes "length ys = length xs" and "i < j" "j \<le> i + 3" "j < length xs" and "xs ! i \<noteq> ys ! i"
    and "\<And>k. k < length xs \<Longrightarrow> k \<noteq> i \<Longrightarrow> k \<noteq> j \<Longrightarrow> xs ! k = ys ! k"
  shows "foldl fnv_step h xs \<noteq> foldl fnv_step h ys"
proof -
  have split: "zs = take i zs @ zs ! i # take (j - Suc i) (drop (Suc i) zs) @ zs ! j # drop (Suc j) zs"
    if "length zs = length xs" for zs :: "u8 list"
  proof -
    have "drop (Suc i) zs = take (j - Suc i) (drop (Suc i) zs) @ drop (j - Suc i) (drop (Suc i) zs)"
      by (simp only: append_take_drop_id)
    also have "drop (j - Suc i) (drop (Suc i) zs) = zs ! j # drop (Suc j) zs"
      using assms that by (simp add: Cons_nth_drop_Suc)
    finally show ?thesis using assms that by (subst id_take_nth_drop [of i]) simp_all
  qed
  have "take i ys = take i xs" "drop (Suc j) ys = drop (Suc j) xs"
    "take (j - Suc i) (drop (Suc i) ys) = take (j - Suc i) (drop (Suc i) xs)"
    using assms by (auto intro!: nth_equalityI)
  note eqs = this
  have "foldl fnv_step h (take i xs @ xs ! i # take (j - Suc i) (drop (Suc i) xs) @ xs ! j # drop (Suc j) xs)
      \<noteq> foldl fnv_step h (take i ys @ ys ! i # take (j - Suc i) (drop (Suc i) ys) @ ys ! j # drop (Suc j) ys)"
    unfolding eqs by (rule near_pair_list) (use assms in simp_all)
  then show ?thesis by (simp only: split [OF refl, symmetric] split [OF assms(1), symmetric]) simp
qed

lemma single_change:
  assumes "j < length xs" and "a \<noteq> xs ! j"
  shows "foldl fnv_step h (xs[j := a]) \<noteq> foldl fnv_step h xs"
proof -
  have "foldl fnv_step h (take j xs @ a # drop (Suc j) xs)
      \<noteq> foldl fnv_step h (take j xs @ xs ! j # drop (Suc j) xs)"
    using assms(2) by (simp add: fnv.foldl_inject fnv_step_inject_xor)
  then show ?thesis using assms(1) by (simp add: upd_conv_take_nth_drop Cons_nth_drop_Suc)
qed

lemma near_pair_any:
  assumes "length ys = length xs" and "i < j" "j \<le> i + 3" "j < length xs" and "xs \<noteq> ys"
    and same: "\<And>k. k < length xs \<Longrightarrow> k \<noteq> i \<Longrightarrow> k \<noteq> j \<Longrightarrow> xs ! k = ys ! k"
  shows "foldl fnv_step h xs \<noteq> foldl fnv_step h ys"
proof (cases "xs ! i = ys ! i")
  case True
  then have "xs = ys[j := xs ! j]"
    using assms by (intro nth_equalityI) (auto simp: nth_list_update)
  then show ?thesis using single_change [of j ys "xs ! j" h] assms by (metis list_update_id)
next
  case False
  then show ?thesis using near_pair [OF assms(1-4) _ same] by blast
qed

text \<open>
  Property C23: two misreads are not passed off as one. When two bytes at most three apart (two
  lanes of one sample, in particular) were misread in a pass, the hashes differ, so the pass is
  reported, and if the analysis names a byte at all it is neither of the two.
\<close>

theorem two_misreads_not_blamed:
  assumes "buffers_fit data forward backward" and "i < j" "j \<le> i + 3" "j < 4 * length data"
    and "bi \<noteq> sample_bytes data ! i" "bj \<noteq> sample_bytes data ! j"
    and "wrong = foldl fnv_step k_fnv_basis ((sample_bytes data)[i := bi, j := bj])"
  shows "replay_hash data (length data) \<noteq> Some wrong
    \<and> (\<forall>r f g. reverse_fnv data wrong forward backward = Some (r, f, g) \<and> rr_single_byte r
         \<longrightarrow> reported_byte r \<noteq> i \<and> reported_byte r \<noteq> j)"
proof -
  let ?bs = "sample_bytes data"
  let ?read = "?bs[i := bi, j := bj]"
  have ij: "i \<noteq> j" "i < length ?bs" "j < length ?bs" using assms(2,4) by simp_all
  note apart = near_pair_any [of _ ?read i j k_fnv_basis, OF _ assms(2,3)]
  have "foldl fnv_step k_fnv_basis ?bs \<noteq> wrong"
    unfolding assms(7) using assms(5) ij
    by (intro apart [symmetric]) (auto simp: nth_list_update dest: arg_cong [of _ _ "\<lambda>xs. xs ! i"])
  moreover have "\<not> explains ?bs wrong i b" for b
    unfolding explains_def assms(7) using assms(6) ij
    by (intro notI, elim conjE notE [rotated], intro apart [symmetric])
      (auto simp: nth_list_update dest: arg_cong [of _ _ "\<lambda>xs. xs ! j"])
  moreover have "\<not> explains ?bs wrong j b" for b
    unfolding explains_def assms(7) using assms(5) ij
    by (intro notI, elim conjE notE [rotated], intro apart [symmetric])
      (auto simp: nth_list_update dest: arg_cong [of _ _ "\<lambda>xs. xs ! i"])
  ultimately have "foldl fnv_step k_fnv_basis ?bs \<noteq> wrong" "\<not> candidate ?bs wrong i"
    "\<not> candidate ?bs wrong j"
    using ij by (auto simp: candidate_iff)
  then show ?thesis by (auto simp: replay_hash_eq dest!: single_byte_reported [OF assms(1)])
qed
section \<open>Witnesses\<close>

text \<open>One sample, 1.0, with its byte 1 (the CH lane) misread as 0x12, and a hash one bit off.\<close>

lemmas fnv_eval = fnv_step_def fnv_unstep_def k_fnv_basis_def k_fnv_prime_def k_fnv_prime_inverse_def

definition one_sample :: "f32 list" where "one_sample = [0x3F800000]"
definition five_zeros :: "u64 list" where "five_zeros = [0, 0, 0, 0, 0]"
definition ch_misread_hash :: u64 where "ch_misread_hash = 0xB2EDE57F46EFE41E"
definition one_bit_off_hash :: u64 where "one_bit_off_hash = 0x4B72477F9C5C2F99"

lemma one_sample_facts:
  "sample_bytes one_sample = [0, 0, 0x80, 0x3F]" "length one_sample = 1"
  "buffers_fit one_sample five_zeros five_zeros"
  by (simp_all add: one_sample_def five_zeros_def sample_bytes_def le_bytes_4 buffers_fit_def drop_bit_eq_div)

lemma ch_candidate: "candidate [0, 0, 0x80, 0x3F] ch_misread_hash 1"
  by (simp add: candidate_def fwd_state_def bwd_state_def low_diff_def fnv_eval ch_misread_hash_def)

lemma ch_misread:
  "replay_hash_with_substitution one_sample (length one_sample) 1 0x12 = Some ch_misread_hash"
  using replay_hash_with_substitution_eq [where data = one_sample and byte_index = 1 and replacement = "0x12"]
  by (simp add: one_sample_facts fnv_eval ch_misread_hash_def)

lemma reverse_sound_witness:
  "\<exists>r f b. reverse_fnv one_sample ch_misread_hash five_zeros five_zeros = Some (r, f, b)
     \<and> rr_observed r \<noteq> rr_stored r"
proof -
  obtain r f b where "reverse_fnv one_sample ch_misread_hash five_zeros five_zeros = Some (r, f, b)"
      "rr_single_byte r"
    using reverse_fnv_cases [OF one_sample_facts(3), of ch_misread_hash] ch_candidate
    by (auto simp: one_sample_facts found_at_def)
  with reverse_sound [OF one_sample_facts(3) this] show ?thesis by blast
qed

lemma reverse_complete_witness:
  "\<exists>r f g. reverse_fnv one_sample ch_misread_hash five_zeros five_zeros = Some (r, f, g)
     \<and> reported_byte r \<le> 1"
proof -
  have "1 < 4 * length one_sample" "(0x12 :: u8) \<noteq> sample_bytes one_sample ! 1"
    by (simp_all add: one_sample_facts)
  from reverse_complete [OF one_sample_facts(3) this ch_misread] show ?thesis by blast
qed

lemma reverse_overread_witness:
  "reverse_fnv one_sample one_bit_off_hash five_zeros five_zeros = None"
proof -
  have last: "candidate [0, 0, 0x80, 0x3F] one_bit_off_hash 4"
    by (simp add: candidate_def fwd_state_def bwd_state_def low_diff_def fnv_eval one_bit_off_hash_def)
  have first: "\<not> candidate [0, 0, 0x80, 0x3F] one_bit_off_hash 0"
    by (simp add: candidate_def fwd_state_def bwd_state_def low_diff_def fnv_eval one_bit_off_hash_def)
  have "\<not> candidate [0, 0, 0x80, 0x3F] one_bit_off_hash k" if "k < 4" for k
    using candidates_apart [of "[0, 0, 0x80, 0x3F]" one_bit_off_hash k 4] last first that
    by (cases "k = 0") auto
  with last show ?thesis
    using reverse_overread [OF one_sample_facts(3), of one_bit_off_hash]
      no_candidate [of one_sample one_bit_off_hash] last_candidate [of one_sample one_bit_off_hash]
    by (simp add: one_sample_facts)
qed

lemma two_misreads_not_blamed_witness:
  "replay_hash one_sample (length one_sample)
     \<noteq> Some (foldl fnv_step k_fnv_basis ((sample_bytes one_sample)[0 := 1, 1 := 1]))"
  using two_misreads_not_blamed [OF one_sample_facts(3), of 0 1 1 1, OF _ _ _ _ _ refl]
  by (simp add: one_sample_facts)

end
