(* ===== verification/Run_Ch.thy ===== *)
theory Run_Ch
  imports Reverse Probe_Loop
begin

text \<open>
  One core under the ch probe (sdcprobe.cpp, \<open>RunResult\<close> and \<open>run_on_current_cpu\<close>): a round fills
  the samples through the register path, hashes them again from memory, compares them with those
  of the first round, and has a mismatch analysed, counted and listed. The processor of the
  \<open>t\<close>-th pass is a parameter. An undefined access in a round is None.
\<close>

section \<open>A round\<close>

record run_result =
  rn_cpu_index :: u32
  rn_rounds :: u64
  rn_checks :: u64
  rn_detections :: u64
  rn_lane_counts :: "u64 list"
  rn_unexplained :: u64
  rn_value_drift :: u64
  rn_elapsed_s :: f64
  rn_ns_per_check :: f64
  rn_interrupted :: bool

definition run_result_init :: "u32 \<Rightarrow> run_result" where
  "run_result_init cpu_index =
     \<lparr>rn_cpu_index = cpu_index, rn_rounds = 0, rn_checks = 0, rn_detections = 0,
      rn_lane_counts = [0, 0, 0, 0], rn_unexplained = 0, rn_value_drift = 0,
      rn_elapsed_s = 0, rn_ns_per_check = 0, rn_interrupted = False\<rparr>"

record ch_state =
  ch_work :: workspace
  ch_result :: run_result
  ch_reported :: u32

definition value_drift :: "f32 list \<Rightarrow> f32 list \<Rightarrow> nat \<Rightarrow> u64 \<Rightarrow> u64 option" where
  "value_drift baseline samples sample_count drift =
     for_each [0..<sample_count]
       (\<lambda>k drift. do {
          a \<leftarrow> vec_get baseline k;
          b \<leftarrow> vec_get samples k;
          Some (if a \<noteq> b then drift + 1 else drift) }) drift"

definition ch_detect_line :: "u32 \<Rightarrow> u64 \<Rightarrow> reverse_result \<Rightarrow> string" where
  "ch_detect_line cpu_index rounds r =
     (if rr_single_byte r then
        ''  DETECT cpu '' @ dec (unat cpu_index) @ '' round '' @ dec (unat rounds)
        @ '': lane '' @ dec (unat (rr_lane r)) @ '' of sample '' @ dec (unat (rr_sample_index r))
        @ '' - memory '' @ hex0 2 (unat (rr_stored r)) @ '', register '' @ hex0 2 (unat (rr_observed r))
      else
        ''  DETECT cpu '' @ dec (unat cpu_index) @ '' round '' @ dec (unat rounds)
        @ '': no single-byte explanation (min popcount '' @ dec (unat (rr_min_popcount r))
        @ '') - two or more bytes'')"

definition list_detection :: "string \<Rightarrow> logger \<Rightarrow> u32 \<Rightarrow> logger \<times> u32" where
  "list_detection message lg reported =
     (if reported < k_max_reported_per_cpu then
        let lg = log_line message lg;
            reported = reported + 1
        in (if reported = k_max_reported_per_cpu
            then log_line ''  (further detections on this cpu counted but not listed)'' lg else lg, reported)
      else (lg, reported))"

definition ch_detect :: "u32 \<Rightarrow> u64 \<Rightarrow> logger \<Rightarrow> ch_state \<Rightarrow> (logger \<times> ch_state) option" where
  "ch_detect cpu_index register_hash lg s =
     do {
       let result = ch_result s;
       let work = ch_work s;
       let result = result\<lparr>rn_detections := rn_detections result + 1\<rparr>;
       (r, forward, backward) \<leftarrow>
          reverse_fnv (ws_samples work) register_hash (ws_forward work) (ws_backward work);
       result \<leftarrow> (if rr_single_byte r
                  then do {
                    count \<leftarrow> vec_get (rn_lane_counts result) (unat (rr_lane r));
                    lanes \<leftarrow> vec_set (rn_lane_counts result) (unat (rr_lane r)) (count + 1);
                    Some (result\<lparr>rn_lane_counts := lanes\<rparr>)
                  }
                  else Some (result\<lparr>rn_unexplained := rn_unexplained result + 1\<rparr>));
       let (lg, reported) =
         list_detection (ch_detect_line cpu_index (rn_rounds result) r) lg (ch_reported s);
       Some (lg, s\<lparr>ch_work := work\<lparr>ws_forward := forward, ws_backward := backward\<rparr>,
                   ch_result := result, ch_reported := reported\<rparr>)
     }"

definition ch_round :: "(nat \<Rightarrow> cpu) \<Rightarrow> int \<Rightarrow> u32 \<Rightarrow> u32 \<Rightarrow> ch_state probe_body" where
  "ch_round cpus layers seed cpu_index t lg s =
     do {
       let sample_count = length (ws_samples (ch_work s));
       (register_hash, samples) \<leftarrow> compute_rows (cpus t) layers seed k_rows (ws_samples (ch_work s));
       memory_hash \<leftarrow> replay_hash samples sample_count;
       let work = (ch_work s)\<lparr>ws_samples := samples\<rparr>;
       let result = ch_result s;
       (work, result) \<leftarrow>
         (if rn_rounds result = 0 then Some (work\<lparr>ws_baseline := samples\<rparr>, result)
          else do {
            drift \<leftarrow> value_drift (ws_baseline work) samples sample_count (rn_value_drift result);
            Some (work, result\<lparr>rn_value_drift := drift\<rparr>)
          });
       let s = s\<lparr>ch_work := work, ch_result := result\<rparr>;
       (lg, s) \<leftarrow> (if register_hash \<noteq> memory_hash then ch_detect cpu_index register_hash lg s
                    else Some (lg, s));
       let result = ch_result s;
       Some (t + 1, lg, s\<lparr>ch_result := result\<lparr>rn_rounds := rn_rounds result + 1\<rparr>\<rparr>)
     }"

definition ch_progress :: "u32 \<Rightarrow> u32 \<Rightarrow> int \<Rightarrow> ch_state \<Rightarrow> string" where
  "ch_progress cpu_index minutes elapsed_s s =
     ''  cpu '' @ pad_right 3 (dec (unat cpu_index)) @ '' [ '' @ pad_left (CHR '' '') 5 (dec_int elapsed_s)
     @ ''s / '' @ dec (unat minutes * 60) @ ''s ]  rounds ''
     @ pad_right 8 (dec (unat (rn_rounds (ch_result s))))
     @ '' detections '' @ dec (unat (rn_detections (ch_result s)))"

section \<open>The run\<close>

definition f64_of_int :: "int \<Rightarrow> f64" where
  "f64_of_int i = to_f64 (Fin (i < 0) (nat \<bar>i\<bar>) 0)"

definition elapsed_seconds :: "int \<Rightarrow> f64" where
  \<comment> \<open>milliseconds / 1000.0\<close>
  "elapsed_seconds ms = f64_div (f64_of_int ms) 0x408F400000000000"

definition ns_per :: "f64 \<Rightarrow> u64 \<Rightarrow> f64" where
  \<comment> \<open>elapsed_s * 1.0e9 / count, and 0 for no count\<close>
  "ns_per elapsed_s count =
     (if count \<noteq> 0 then f64_div (f64_mul elapsed_s 0x41CDCD6500000000) (f64_of_nat (unat count)) else 0)"

definition run_on_current_cpu ::
  "env \<Rightarrow> (nat \<Rightarrow> cpu) \<Rightarrow> int \<Rightarrow> u32 \<Rightarrow> u32 \<Rightarrow> u32 \<Rightarrow> nat \<Rightarrow> logger \<Rightarrow> workspace
    \<Rightarrow> (run_result \<times> nat \<times> logger \<times> workspace) option" where
  "run_on_current_cpu env cpus layers cpu_index seed minutes t lg work =
     do {
       let sample_count = length (ws_samples work);
       (interrupted, ms, t, lg, s) \<leftarrow>
         run_measured env (ch_round cpus layers seed cpu_index) (ch_progress cpu_index minutes) minutes t lg
           \<lparr>ch_work = work, ch_result = run_result_init cpu_index, ch_reported = 0\<rparr>;
       let result = (ch_result s)\<lparr>rn_interrupted := interrupted\<rparr>;
       let elapsed_s = elapsed_seconds ms;
       let checks = rn_rounds result * of_nat sample_count;
       Some (result\<lparr>rn_elapsed_s := elapsed_s, rn_checks := checks, rn_ns_per_check := ns_per elapsed_s checks\<rparr>,
             t, lg, ch_work s)
     }"

section \<open>The invariant\<close>

definition work_ok :: "workspace \<Rightarrow> bool" where
  \<comment> \<open>the sizes of the one workspace the program allocates\<close>
  "work_ok work \<longleftrightarrow> length (ws_samples work) = k_rows * k_cols \<and> length (ws_baseline work) = k_rows * k_cols
     \<and> length (ws_forward work) = 4 * (k_rows * k_cols) + 1 \<and> length (ws_backward work) = 4 * (k_rows * k_cols) + 1"

definition ch_inv :: "ch_state \<Rightarrow> bool" where
  "ch_inv s \<longleftrightarrow> work_ok (ch_work s) \<and> length (rn_lane_counts (ch_result s)) = 4
     \<and> rn_detections (ch_result s) = sum_list (rn_lane_counts (ch_result s)) + rn_unexplained (ch_result s)
     \<and> ch_reported s \<le> k_max_reported_per_cpu"

lemma work_ok_new: "work_ok (new_workspace (k_rows * k_cols))"
  by (simp add: work_ok_def new_workspace_def)

lemma grid_size: "k_rows * k_cols = 100000"
  by (simp add: k_rows_def k_cols_def)

lemma work_buffers_fit:
  "work_ok work \<Longrightarrow> buffers_fit (ws_samples work) (ws_forward work) (ws_backward work)"
  by (simp add: work_ok_def buffers_fit_def grid_size)

lemma reverse_fnv_lengths:
  assumes "buffers_fit data forward backward" and "reverse_fnv data wrong forward backward = Some (r, f, b)"
  shows "length f = length forward \<and> length b = length backward"
  using assms reverse_fnv_eq [of data forward backward wrong] by (auto simp: buffers_fit_def split: if_splits)

lemma list_detection_range:
  "reported \<le> k_max_reported_per_cpu \<Longrightarrow> snd (list_detection message lg reported) \<le> k_max_reported_per_cpu"
  by (auto simp: list_detection_def Let_def k_max_reported_per_cpu_def inc_le)

lemma sum_list_update_u64:
  "k < length xs \<Longrightarrow> sum_list (xs[k := x]) = sum_list xs - xs ! k + (x :: u64)"
  by (induction xs arbitrary: k) (auto split: nat.splits)

lemma value_drift_eq:
  assumes "n \<le> length baseline" "n \<le> length samples"
  shows "value_drift baseline samples n drift
    = Some (drift + of_nat (length (filter (\<lambda>k. baseline ! k \<noteq> samples ! k) [0..<n])))"
proof -
  let ?I = "\<lambda>i d. d = drift + of_nat (length (filter (\<lambda>k. baseline ! k \<noteq> samples ! k) [0..<i]))"
  have "\<exists>d. value_drift baseline samples n drift = Some d \<and> ?I n d"
    unfolding value_drift_def
    by (rule for_each_upt_invariant [where I = ?I]) (use assms in \<open>simp_all add: vec_simps\<close>)
  then show ?thesis by blast
qed

text \<open>A round up to the comparison of the hashes.\<close>

definition pass_values :: "(nat \<Rightarrow> cpu) \<Rightarrow> int \<Rightarrow> u32 \<Rightarrow> nat \<Rightarrow> f32 list" where
  "pass_values cpus layers seed t = grid_values (cpus t) layers seed (k_rows * k_cols)"

definition pass_bytes :: "(nat \<Rightarrow> cpu) \<Rightarrow> int \<Rightarrow> u32 \<Rightarrow> nat \<Rightarrow> u8 list" where
  "pass_bytes cpus layers seed t = register_bytes (cpus t) layers seed (k_rows * k_cols)"

definition after_pass :: "f32 list \<Rightarrow> ch_state \<Rightarrow> ch_state" where
  "after_pass vals s =
     (if rn_rounds (ch_result s) = 0
      then s\<lparr>ch_work := ch_work s\<lparr>ws_samples := vals, ws_baseline := vals\<rparr>\<rparr>
      else s\<lparr>ch_work := ch_work s\<lparr>ws_samples := vals\<rparr>,
             ch_result := ch_result s\<lparr>rn_value_drift := rn_value_drift (ch_result s) + of_nat (length
               (filter (\<lambda>k. ws_baseline (ch_work s) ! k \<noteq> vals ! k) [0..<k_rows * k_cols]))\<rparr>\<rparr>)"

definition count_round :: "ch_state \<Rightarrow> ch_state" where
  "count_round s = s\<lparr>ch_result := ch_result s\<lparr>rn_rounds := rn_rounds (ch_result s) + 1\<rparr>\<rparr>"

lemma after_pass_ok:
  assumes "ch_inv s" and "length vals = k_rows * k_cols"
  shows "ch_inv (after_pass vals s)" "ws_samples (ch_work (after_pass vals s)) = vals"
    "rn_rounds (ch_result (after_pass vals s)) = rn_rounds (ch_result s)"
    "rn_detections (ch_result (after_pass vals s)) = rn_detections (ch_result s)"
    "rn_lane_counts (ch_result (after_pass vals s)) = rn_lane_counts (ch_result s)"
    "rn_unexplained (ch_result (after_pass vals s)) = rn_unexplained (ch_result s)"
  using assms by (simp_all add: after_pass_def ch_inv_def work_ok_def)

lemma length_pass_values [simp]: "length (pass_values cpus layers seed t) = k_rows * k_cols"
  by (simp add: pass_values_def)

lemma ch_round_eq:
  assumes "ch_inv s"
  shows "ch_round cpus layers seed cpu_index t lg s =
    map_option (\<lambda>(lg, s). (t + 1, lg, count_round s))
      (let hash = foldl fnv_step k_fnv_basis (pass_bytes cpus layers seed t);
           vals = pass_values cpus layers seed t
       in if hash \<noteq> foldl fnv_step k_fnv_basis (sample_bytes vals)
          then ch_detect cpu_index hash lg (after_pass vals s) else Some (lg, after_pass vals s))"
proof -
  let ?n = "k_rows * k_cols"
  have len: "length (ws_samples (ch_work s)) = ?n" "length (ws_baseline (ch_work s)) = ?n"
    using assms by (simp_all add: ch_inv_def work_ok_def)
  have rows: "compute_rows (cpus t) layers seed k_rows (ws_samples (ch_work s))
      = Some (foldl fnv_step k_fnv_basis (pass_bytes cpus layers seed t), pass_values cpus layers seed t)"
    using compute_rows_eq [of k_rows "ws_samples (ch_work s)" "cpus t" layers seed] len
    by (simp add: pass_bytes_def pass_values_def)
  have mem: "replay_hash (pass_values cpus layers seed t) ?n
      = Some (foldl fnv_step k_fnv_basis (sample_bytes (pass_values cpus layers seed t)))"
    using replay_hash_eq [of "pass_values cpus layers seed t"] by simp
  show ?thesis
    by (simp add: ch_round_def len rows mem value_drift_eq after_pass_def count_round_def Let_def
        bind_map_option map_option_case split: option.splits prod.splits)
qed

section \<open>A detection\<close>

lemma ch_detect_cases:
  assumes "ch_inv s" and "ch_detect cpu_index hash lg s = Some (lg', s')"
  obtains r f b where "reverse_fnv (ws_samples (ch_work s)) hash (ws_forward (ch_work s)) (ws_backward (ch_work s))
      = Some (r, f, b)"
    and "unat (rr_lane r) < 4 \<or> \<not> rr_single_byte r"
    and "ch_work s' = (ch_work s)\<lparr>ws_forward := f, ws_backward := b\<rparr>"
    and "ch_reported s' = snd (list_detection (ch_detect_line cpu_index (rn_rounds (ch_result s)) r) lg (ch_reported s))"
    and "ch_result s' = (let result = (ch_result s)\<lparr>rn_detections := rn_detections (ch_result s) + 1\<rparr>;
           lanes = rn_lane_counts (ch_result s); l = unat (rr_lane r)
         in if rr_single_byte r then result\<lparr>rn_lane_counts := lanes[l := lanes ! l + 1]\<rparr>
            else result\<lparr>rn_unexplained := rn_unexplained (ch_result s) + 1\<rparr>)"
proof -
  let ?w = "ch_work s"
  have fit: "buffers_fit (ws_samples ?w) (ws_forward ?w) (ws_backward ?w)"
    and four: "length (rn_lane_counts (ch_result s)) = 4"
    using assms(1) work_buffers_fit by (auto simp: ch_inv_def)
  obtain r f b where r: "reverse_fnv (ws_samples ?w) hash (ws_forward ?w) (ws_backward ?w) = Some (r, f, b)"
    using assms(2) by (auto simp: ch_detect_def Let_def split: bind_splits)
  have lane: "unat (rr_lane r) < 4" if "rr_single_byte r"
    using single_byte_found [OF fit r that] found_at_fields(3) by auto
  show thesis
  proof (rule that [OF r])
    show "unat (rr_lane r) < 4 \<or> \<not> rr_single_byte r" using lane by blast
  qed (use assms(2) r lane four in \<open>auto simp: ch_detect_def Let_def vec_simps split: if_splits prod.splits\<close>)
qed

lemma ch_detect_keeps:
  assumes "ch_inv s" and "ch_detect cpu_index hash lg s = Some (lg', s')"
  shows "ch_inv s' \<and> rn_rounds (ch_result s') = rn_rounds (ch_result s)"
  using assms
proof (cases rule: ch_detect_cases)
  case (1 r f b)
  have fit: "buffers_fit (ws_samples (ch_work s)) (ws_forward (ch_work s)) (ws_backward (ch_work s))"
    using assms(1) work_buffers_fit by (auto simp: ch_inv_def)
  with 1 assms(1) reverse_fnv_lengths [OF fit 1(1)] show ?thesis
    by (auto simp: ch_inv_def work_ok_def Let_def sum_list_update_u64 list_detection_range)
qed

lemma count_round_ok:
  "ch_inv (count_round s) = ch_inv s" "rn_rounds (ch_result (count_round s)) = rn_rounds (ch_result s) + 1"
  by (simp_all add: count_round_def ch_inv_def)

lemma count_round_fields:
  "ch_work (count_round s) = ch_work s" "rn_detections (ch_result (count_round s)) = rn_detections (ch_result s)"
  "rn_unexplained (ch_result (count_round s)) = rn_unexplained (ch_result s)"
  "rn_lane_counts (ch_result (count_round s)) = rn_lane_counts (ch_result s)"
  "rn_value_drift (ch_result (count_round s)) = rn_value_drift (ch_result s)"
  by (simp_all add: count_round_def)

lemma ch_round_keeps:
  assumes "ch_inv s" and "ch_round cpus layers seed cpu_index t lg s = Some (t', lg', s')"
  shows "ch_inv s' \<and> t \<le> t' \<and> rn_rounds (ch_result s') = rn_rounds (ch_result s) + 1"
  using assms after_pass_ok [OF assms(1), of "pass_values cpus layers seed t"] ch_detect_keeps
  by (auto simp: ch_round_eq [OF assms(1)] count_round_ok Let_def split: if_splits)

lemma ch_detect_cpu:
  assumes "ch_inv s" and "ch_detect cpu_index hash lg s = Some (lg', s')"
  shows "rn_cpu_index (ch_result s') = rn_cpu_index (ch_result s)"
  using assms by (cases rule: ch_detect_cases) (auto simp: Let_def)

lemma ch_round_cpu:
  assumes "ch_inv s" and "ch_round cpus layers seed cpu_index t lg s = Some (t', lg', s')"
  shows "rn_cpu_index (ch_result s') = rn_cpu_index (ch_result s)"
  using assms after_pass_ok(1) [OF assms(1), of "pass_values cpus layers seed t"] ch_detect_cpu
  by (auto simp: ch_round_eq [OF assms(1)] count_round_def after_pass_def Let_def split: if_splits)

interpretation ch: probe "ch_round cpus layers seed cpu_index" ch_inv "\<lambda>s. rn_rounds (ch_result s)"
  for cpus layers seed cpu_index
  by unfold_locales (rule ch_round_keeps)

text \<open>The same with the number of the core, which no round changes.\<close>

interpretation ch_core: probe "ch_round cpus layers seed cpu_index"
    "\<lambda>s. ch_inv s \<and> rn_cpu_index (ch_result s) = core" "\<lambda>s. rn_rounds (ch_result s)"
  for cpus layers seed cpu_index core
  by unfold_locales (use ch_round_keeps ch_round_cpu in blast)

section \<open>Rounds with a misread, rounds without\<close>

lemma quiet_round:
  assumes "ch_inv s" and "pass_bytes cpus layers seed t = sample_bytes (pass_values cpus layers seed t)"
  shows "ch_round cpus layers seed cpu_index t lg s
    = Some (t + 1, lg, count_round (after_pass (pass_values cpus layers seed t) s))"
  by (simp add: ch_round_eq [OF assms(1)] assms(2))

lemma misread_round:
  fixes cpus layers seed t
  defines "vals \<equiv> pass_values cpus layers seed t"
  assumes "ch_inv s" and "k < 4 * (k_rows * k_cols)" "b \<noteq> sample_bytes vals ! k"
    and "pass_bytes cpus layers seed t = (sample_bytes vals)[k := b]"
  shows "\<exists>i lg' s'. i \<le> k \<and> (k < i + 4 \<longrightarrow> i = k)
    \<and> ch_round cpus layers seed cpu_index t lg s = Some (t + 1, lg', s')
    \<and> rn_detections (ch_result s') = rn_detections (ch_result s) + 1
    \<and> rn_unexplained (ch_result s') = rn_unexplained (ch_result s)
    \<and> rn_lane_counts (ch_result s')
        = (rn_lane_counts (ch_result s))[i mod 4 := rn_lane_counts (ch_result s) ! (i mod 4) + 1]"
proof -
  let ?s = "after_pass vals s"
  let ?w = "ch_work ?s" and ?hash = "foldl fnv_step k_fnv_basis ((sample_bytes vals)[k := b])"
  have len: "length vals = k_rows * k_cols" by (simp add: vals_def)
  note ok = after_pass_ok [OF assms(2) len]
  have fit: "buffers_fit vals (ws_forward ?w) (ws_backward ?w)"
    using work_buffers_fit [of ?w] ok(1,2) by (simp add: ch_inv_def)
  have e: "explains (sample_bytes vals) ?hash k b" using assms(4) by (simp add: explains_def)
  have kl: "k < 4 * length vals" using assms(3) len by simp
  obtain i f g where i: "i \<le> k" "k < i + 4 \<longrightarrow> i = k" "i < 2 ^ 64"
      "reverse_fnv vals ?hash (ws_forward ?w) (ws_backward ?w)
        = Some (found_at (sample_bytes vals) ?hash i (4 * length vals + 1), f, g)"
    using misread_found [OF fit kl e] by blast
  define r where "r = found_at (sample_bytes vals) ?hash i (4 * length vals + 1)"
  have r: "rr_single_byte r" "unat (rr_lane r) = i mod 4"
    using small_lane [of i] by (simp_all add: r_def found_at_def)
  have "?hash \<noteq> foldl fnv_step k_fnv_basis (sample_bytes vals)"
    using single_change [of k "sample_bytes vals" b] assms(3,4) len by simp
  moreover have "length (rn_lane_counts (ch_result ?s)) = 4" "i mod 4 < 4"
    using ok(1) by (simp_all add: ch_inv_def)
  ultimately show ?thesis
    using i r(1) assms(5) unfolding r_def [symmetric]
    by (auto simp: ch_round_eq [OF assms(2)] vals_def [symmetric] ch_detect_def Let_def ok r vec_simps
        count_round_def intro!: exI [of _ i] split: prod.splits)
qed

text \<open>
  Property C7: a misread is counted, once, and on its lane. In a round whose pass misreads one
  byte, whatever byte of the 100000 samples it is, the run returns from the round with one more
  detection, on exactly one lane counter, and nothing unexplained; the lane is that of the
  misread byte unless the analysis found a rival at least four bytes earlier.
\<close>

theorem misread_counted:
  assumes "ch_inv s" and "k < 400000" and "b \<noteq> sample_bytes (pass_values cpus layers seed t) ! k"
    and "pass_bytes cpus layers seed t = (sample_bytes (pass_values cpus layers seed t))[k := b]"
  shows "\<exists>i lg' s'. ch_round cpus layers seed cpu_index t lg s = Some (t + 1, lg', s')
    \<and> rn_detections (ch_result s') = rn_detections (ch_result s) + 1
    \<and> rn_unexplained (ch_result s') = rn_unexplained (ch_result s)
    \<and> rn_lane_counts (ch_result s')
        = (rn_lane_counts (ch_result s))[i mod 4 := rn_lane_counts (ch_result s) ! (i mod 4) + 1]
    \<and> (i = k \<or> i + 4 \<le> k)"
  using misread_round [OF assms(1) _ assms(3,4), of cpu_index lg] assms(2) grid_size
  by (fastforce simp: not_le)

section \<open>The whole run\<close>

definition ch_start :: "u32 \<Rightarrow> workspace \<Rightarrow> ch_state" where
  "ch_start cpu_index work = \<lparr>ch_work = work, ch_result = run_result_init cpu_index, ch_reported = 0\<rparr>"

lemma ch_start_inv: "work_ok work \<Longrightarrow> ch_inv (ch_start cpu_index work)"
  by (simp add: ch_start_def ch_inv_def run_result_init_def)

lemma run_on_current_cpu_eq:
  "run_on_current_cpu env cpus layers cpu_index seed minutes t lg work =
     map_option (\<lambda>(i, ms, t, lg, s).
        let checks = rn_rounds (ch_result s) * of_nat (length (ws_samples work))
        in ((ch_result s)\<lparr>rn_interrupted := i, rn_elapsed_s := elapsed_seconds ms, rn_checks := checks,
              rn_ns_per_check := ns_per (elapsed_seconds ms) checks\<rparr>, t, lg, ch_work s))
       (run_measured env (ch_round cpus layers seed cpu_index) (ch_progress cpu_index minutes) minutes t lg
          (ch_start cpu_index work))"
  by (simp add: run_on_current_cpu_def ch_start_def Let_def map_option_case split: option.splits prod.splits)

text \<open>What every result of a run satisfies.\<close>

definition run_ok :: "u32 \<Rightarrow> run_result \<Rightarrow> bool" where
  "run_ok cpu_index r \<longleftrightarrow> rn_cpu_index r = cpu_index \<and> length (rn_lane_counts r) = 4
     \<and> rn_detections r = sum_list (rn_lane_counts r) + rn_unexplained r \<and> rn_checks r = rn_rounds r * 100000"

lemma run_gives:
  assumes "work_ok work"
    and "run_on_current_cpu env cpus layers cpu_index seed minutes t lg work = Some (result, t', lg', work')"
  shows "run_ok cpu_index result \<and> work_ok work' \<and> t < t'
    \<and> (if rn_interrupted result then e_interrupt env (t' - 2)
       else e_now env t + nanos (60 * uint minutes) \<le> e_now env (t' - 2))"
proof -
  obtain i ms s where run: "run_measured env (ch_round cpus layers seed cpu_index) (ch_progress cpu_index minutes)
        minutes t lg (ch_start cpu_index work) = Some (i, ms, t', lg', s)"
    and res: "work' = ch_work s" "rn_interrupted result = i" "rn_rounds result = rn_rounds (ch_result s)"
      "rn_detections result = rn_detections (ch_result s)" "rn_lane_counts result = rn_lane_counts (ch_result s)"
      "rn_unexplained result = rn_unexplained (ch_result s)" "rn_cpu_index result = rn_cpu_index (ch_result s)"
      "rn_checks result = rn_rounds (ch_result s) * of_nat (length (ws_samples work))"
    using assms(2) by (auto simp: run_on_current_cpu_eq Let_def)
  have "length (ws_samples work) = 100000" using assms(1) by (simp add: work_ok_def grid_size)
  moreover have "ch_inv (ch_start cpu_index work) \<and> rn_cpu_index (ch_result (ch_start cpu_index work)) = cpu_index"
    using ch_start_inv [OF assms(1)] by (simp add: ch_start_def run_result_init_def)
  ultimately show ?thesis
    using ch_core.run_result [OF run] res by (simp add: ch_inv_def run_ok_def)
qed

text \<open>
  Property C14: the result of a run adds up. Whatever the processor did, every detection is on
  one lane counter or unexplained, the checks are 100000 per round, and the run ended because
  the interrupt flag was set or because the requested minutes were over.
\<close>

theorem run_accounts:
  assumes "work_ok work"
    and "run_on_current_cpu env cpus layers cpu_index seed minutes t lg work = Some (result, t', lg', work')"
  shows "rn_detections result = sum_list (rn_lane_counts result) + rn_unexplained result
    \<and> rn_checks result = rn_rounds result * 100000
    \<and> (if rn_interrupted result then e_interrupt env (t' - 2)
       else e_now env t + nanos (60 * uint minutes) \<le> e_now env (t' - 2))
    \<and> work_ok work'"
  using run_gives [OF assms] by (simp add: run_ok_def)

text \<open>A processor whose register reads are right and whose loads give the same values every time.\<close>

locale sound_processor =
  fixes cpus :: "nat \<Rightarrow> cpu"
  assumes reads: "cpu_reads (cpus t) k = healthy_reads"
    and steady: "cpu_load (cpus t) = cpu_load (cpus 0)"
begin

lemma pass_bytes_memory: "pass_bytes cpus layers seed t = sample_bytes (pass_values cpus layers seed t)"
  using register_bytes_healthy [of "cpus t"] reads by (simp add: pass_bytes_def pass_values_def)

lemma pass_values_steady: "pass_values cpus layers seed t = pass_values cpus layers seed 0"
  by (simp add: pass_values_def grid_values_def grid_value_def sample_at_def Let_def steady [of t])

definition clean :: "int \<Rightarrow> u32 \<Rightarrow> ch_state \<Rightarrow> bool" where
  "clean layers seed s \<longleftrightarrow> ch_inv s \<and> rn_detections (ch_result s) = 0 \<and> rn_unexplained (ch_result s) = 0
     \<and> rn_lane_counts (ch_result s) = [0, 0, 0, 0] \<and> rn_value_drift (ch_result s) = 0
     \<and> (rn_rounds (ch_result s) = 0 \<or> ws_baseline (ch_work s) = pass_values cpus layers seed 0)"

lemma clean_round:
  assumes "clean layers seed s"
  shows "\<exists>s'. ch_round cpus layers seed cpu_index t lg s = Some (t + 1, lg, s') \<and> clean layers seed s'"
proof -
  let ?vals = "pass_values cpus layers seed 0"
  have inv: "ch_inv s" using assms by (simp add: clean_def)
  have "ch_round cpus layers seed cpu_index t lg s = Some (t + 1, lg, count_round (after_pass ?vals s))"
    using quiet_round [OF inv pass_bytes_memory] pass_values_steady [of layers seed t] by simp
  moreover have "ws_baseline (ch_work (after_pass ?vals s)) = ?vals" "rn_value_drift (ch_result (after_pass ?vals s)) = 0"
    using assms by (cases "rn_rounds (ch_result s) = 0"; simp add: after_pass_def clean_def)+
  then have "clean layers seed (count_round (after_pass ?vals s))"
    using assms after_pass_ok [OF inv, of ?vals] by (simp add: clean_def count_round_ok count_round_fields)
  ultimately show ?thesis by blast
qed

lemma clean_start: "work_ok work \<Longrightarrow> clean layers seed (ch_start cpu_index work)"
  using ch_start_inv [of work cpu_index] by (simp add: clean_def ch_start_def run_result_init_def)

end

sublocale sound_processor \<subseteq> clean: probe "ch_round cpus layers seed cpu_index" "clean layers seed"
    "\<lambda>s. rn_rounds (ch_result s)" for layers seed cpu_index
proof unfold_locales
  fix s t lg t' lg' s'
  assume "clean layers seed s" "ch_round cpus layers seed cpu_index t lg s = Some (t', lg', s')"
  then show "clean layers seed s' \<and> t \<le> t' \<and> rn_rounds (ch_result s') = rn_rounds (ch_result s) + 1"
    using clean_round [of layers seed s cpu_index t lg] ch_round_keeps
    by (auto simp: clean_def)
qed

context sound_processor
begin

lemma sound_run:
  assumes "\<And>T. \<exists>late. \<forall>k\<ge>late. T \<le> e_now env k" and "work_ok work"
  shows "\<exists>result t' lg' work'.
    run_on_current_cpu env cpus layers cpu_index seed minutes t lg work = Some (result, t', lg', work')
    \<and> rn_detections result = 0 \<and> rn_lane_counts result = [0, 0, 0, 0] \<and> rn_unexplained result = 0
    \<and> rn_value_drift result = 0"
proof -
  note start = clean_start [OF assms(2), of layers seed cpu_index]
  have "ch_round cpus layers seed cpu_index t lg s \<noteq> None" if "clean layers seed s" for t lg s
    using clean_round [OF that, of cpu_index t lg] by auto
  from clean.run_returns [OF assms(1) this start]
  obtain i ms t' lg' s where run: "run_measured env (ch_round cpus layers seed cpu_index)
      (ch_progress cpu_index minutes) minutes t lg (ch_start cpu_index work) = Some (i, ms, t', lg', s)"
    by (metis surj_pair)
  from clean.run_result [OF run start] run show ?thesis
    by (auto simp: run_on_current_cpu_eq Let_def clean_def)
qed

end

interpretation healthy: sound_processor "\<lambda>_. healthy_cpu"
  by unfold_locales (simp_all add: healthy_cpu_def)

text \<open>
  Property C13: a sound core is never accused. On a processor whose register reads are right
  and whose loads give the same values in every pass, with a clock that reaches any time, a run
  returns, and it reports no detection on any lane, nothing unexplained and no value drift.
\<close>

theorem sound_core_clean:
  assumes "\<And>t k. cpu_reads (cpus t) k = healthy_reads" and "\<And>t. cpu_load (cpus t) = cpu_load (cpus 0)"
    and "\<And>T. \<exists>late. \<forall>k\<ge>late. T \<le> e_now env k" and "work_ok work"
  shows "\<exists>result t' lg' work'.
    run_on_current_cpu env cpus layers cpu_index seed minutes t lg work = Some (result, t', lg', work')
    \<and> rn_detections result = 0 \<and> rn_lane_counts result = [0, 0, 0, 0] \<and> rn_unexplained result = 0
    \<and> rn_value_drift result = 0"
proof -
  have "sound_processor cpus" using assms(1,2) by unfold_locales
  from sound_processor.sound_run [OF this assms(3,4)] show ?thesis .
qed

section \<open>Witnesses\<close>

text \<open>A clock that advances by a second with every reading, and no interrupt.\<close>

definition tick_env :: env where
  "tick_env = \<lparr>e_now = (\<lambda>t. nanos (int t)), e_interrupt = (\<lambda>_. False), e_stamp = (\<lambda>_. None)\<rparr>"

lemma tick_env_late: "\<exists>late. \<forall>k\<ge>late. T \<le> e_now tick_env k"
  by (rule exI [of _ "nat T"]) (auto simp: tick_env_def nanos_def)

definition grid_work :: workspace where
  "grid_work = new_workspace (k_rows * k_cols)"

lemma grid_work_ok: "work_ok grid_work"
  unfolding grid_work_def by (rule work_ok_new)

lemma sound_core_clean_witness:
  "\<exists>result t' lg' work'.
     run_on_current_cpu tick_env (\<lambda>_. healthy_cpu) 5 0 42 1 0 (new_logger [] (\<lambda>_. None)) grid_work
       = Some (result, t', lg', work') \<and> rn_detections result = 0"
proof -
  have "\<And>t k. cpu_reads ((\<lambda>_. healthy_cpu) t) k = healthy_reads" by (simp add: healthy_cpu_def)
  from sound_core_clean [of "\<lambda>_. healthy_cpu", OF this refl tick_env_late grid_work_ok] show ?thesis
    by blast
qed

lemma run_accounts_witness:
  "\<exists>result t' lg' work'.
     run_on_current_cpu tick_env (\<lambda>_. healthy_cpu) 5 0 42 1 0 (new_logger [] (\<lambda>_. None)) grid_work
       = Some (result, t', lg', work') \<and> rn_checks result = rn_rounds result * 100000"
proof -
  obtain result t' lg' work' where
    "run_on_current_cpu tick_env (\<lambda>_. healthy_cpu) 5 0 42 1 0 (new_logger [] (\<lambda>_. None)) grid_work
       = Some (result, t', lg', work')"
    using healthy.sound_run [OF tick_env_late grid_work_ok, of 5 0 42 1 0] by blast
  from run_accounts [OF grid_work_ok this] this show ?thesis by blast
qed

text \<open>A processor that reads its CH byte wrong in the very first sample of the pass.\<close>

definition ch_fault_cpu :: cpu where
  "ch_fault_cpu =
     \<lparr>cpu_reads = (\<lambda>k. if k = 0 then healthy_reads\<lparr>rd_ch := \<lambda>r. NOT (ucast (drop_bit 8 r))\<rparr> else healthy_reads),
      cpu_load = (\<lambda>_ v. v)\<rparr>"

lemma ch_fault_pass:
  "pass_bytes (\<lambda>_. ch_fault_cpu) layers seed t
     = (sample_bytes (pass_values (\<lambda>_. ch_fault_cpu) layers seed t))
         [1 := NOT (sample_bytes (pass_values (\<lambda>_. ch_fault_cpu) layers seed t) ! 1)]"
proof -
  let ?g = "grid_value ch_fault_cpu layers seed" and ?n = "k_rows * k_cols"
  have n: "[0..<?n] = 0 # [Suc 0..<?n]" by (rule upt_conv_Cons) (simp add: grid_size)
  have "concat (map (\<lambda>k. read_bytes (cpu_reads ch_fault_cpu k) (?g k)) [Suc 0..<?n])
      = concat (map (\<lambda>k. le_bytes 4 (?g k)) [Suc 0..<?n])"
    by (rule arg_cong [where f = concat], rule map_cong [OF refl])
      (simp add: ch_fault_cpu_def healthy_read_bytes)
  moreover have "read_bytes (cpu_reads ch_fault_cpu 0) v = (le_bytes 4 v)[1 := NOT (le_bytes 4 v ! 1)]" for v
    by (simp add: ch_fault_cpu_def read_bytes_def healthy_reads_def le_bytes_4)
  ultimately show ?thesis
    unfolding pass_bytes_def pass_values_def register_bytes_def grid_values_def sample_bytes_def n
    by (simp add: list_update_append nth_append comp_def)
qed

lemma misread_counted_witness:
  "\<exists>lg' s'. ch_round (\<lambda>_. ch_fault_cpu) 5 42 0 0 (new_logger [] (\<lambda>_. None)) (ch_start 0 grid_work) = Some (1, lg', s')
     \<and> rn_detections (ch_result s') = 1 \<and> rn_lane_counts (ch_result s') = [0, 1, 0, 0]"
proof -
  have neq: "NOT x \<noteq> x" for x :: u8 by (metis bit_not_iff bit_0 len_gt_0 possible_bit_word)
  obtain i lg' s' where r: "ch_round (\<lambda>_. ch_fault_cpu) 5 42 0 0 (new_logger [] (\<lambda>_. None)) (ch_start 0 grid_work)
        = Some (0 + 1, lg', s')"
      "rn_detections (ch_result s') = rn_detections (ch_result (ch_start 0 grid_work)) + 1"
      "rn_lane_counts (ch_result s') = (rn_lane_counts (ch_result (ch_start 0 grid_work)))
        [i mod 4 := rn_lane_counts (ch_result (ch_start 0 grid_work)) ! (i mod 4) + 1]"
      "i = 1 \<or> i + 4 \<le> 1"
    using misread_counted [where k = 1 and cpu_index = 0 and lg = "new_logger [] (\<lambda>_. None)",
        OF ch_start_inv [OF grid_work_ok, of 0] _ neq ch_fault_pass, of 5 42 0] by auto
  then show ?thesis by (simp add: ch_start_def run_result_init_def)
qed

end
