(* ===== verification/Run_Rbx.thy ===== *)
theory Run_Rbx
  imports Rbx_Pass Run_Ch
begin

text \<open>
  One core under the rbx probe (sdcprobe.cpp, \<open>RbxRunResult\<close> and \<open>run_rbx_on_current_cpu\<close>): a
  round is one pass; a detection is counted by what was seen and listed. The payload of the
  \<open>t\<close>-th pass is a parameter. A pass whose exception is not taken ends the process: None.
\<close>

section \<open>A round\<close>

record rbx_run_result =
  rb_cpu_index :: u32
  rb_passes :: u64
  rb_calls :: u64
  rb_detections :: u64
  rb_signature :: u64
  rb_other_fault :: u64
  rb_mismatch :: u64
  rb_elapsed_s :: f64
  rb_ns_per_call :: f64
  rb_interrupted :: bool

definition rbx_run_result_init :: "u32 \<Rightarrow> rbx_run_result" where
  "rbx_run_result_init cpu_index =
     \<lparr>rb_cpu_index = cpu_index, rb_passes = 0, rb_calls = 0, rb_detections = 0, rb_signature = 0,
      rb_other_fault = 0, rb_mismatch = 0, rb_elapsed_s = 0, rb_ns_per_call = 0, rb_interrupted = False\<rparr>"

record rbx_loop =
  rl_state :: rbx_state
  rl_result :: rbx_run_result
  rl_reported :: u32

definition rbx_detect_line :: "rbx_symbols \<Rightarrow> u32 \<Rightarrow> u64 \<Rightarrow> rbx_pass \<Rightarrow> bool \<Rightarrow> string" where
  "rbx_detect_line sy cpu_index passes pass signature =
     (let fault = ps_fault pass; r = fr_regs fault in
      if ps_faulted pass then
        ''  DETECT cpu '' @ dec (unat cpu_index) @ '' pass '' @ dec (unat passes) @ '': ''
        @ fr_what fault @ '' at '' @ c_str (sdc_rbx_describe_address sy (rg_rip r))
        @ '', rbx-rsp=0x'' @ hex (unat (rg_rbx r - rg_rsp r))
        @ '' rbp-rsp=0x'' @ hex (unat (rg_rbp r - rg_rsp r))
        @ (if signature then ''  [frame base moved by 0xa0]'' else [])
      else
        ''  DETECT cpu '' @ dec (unat cpu_index) @ '' pass '' @ dec (unat passes) @ '': hash ''
        @ hex0 16 (unat (ps_hash pass)) @ '', expected '' @ hex0 16 (unat (ps_expected pass)))"

definition rbx_detect :: "rbx_symbols \<Rightarrow> u32 \<Rightarrow> rbx_pass \<Rightarrow> logger \<Rightarrow> rbx_loop \<Rightarrow> logger \<times> rbx_loop" where
  "rbx_detect sy cpu_index pass lg s =
     (let result = (rl_result s)\<lparr>rb_detections := rb_detections (rl_result s) + 1\<rparr>;
          signature = (ps_faulted pass \<and> sdc_rbx_is_signature sy (ps_fault pass));
          result =
            (if signature then result\<lparr>rb_signature := rb_signature result + 1\<rparr>
             else if ps_faulted pass then result\<lparr>rb_other_fault := rb_other_fault result + 1\<rparr>
             else result\<lparr>rb_mismatch := rb_mismatch result + 1\<rparr>);
          (lg, reported) =
            list_detection (rbx_detect_line sy cpu_index (rb_passes result) pass signature) lg (rl_reported s)
      in (lg, s\<lparr>rl_result := result, rl_reported := reported\<rparr>))"

definition rbx_round ::
  "rbx_symbols \<Rightarrow> (nat \<Rightarrow> payload) \<Rightarrow> (nat \<Rightarrow> bool) \<Rightarrow> u32 \<Rightarrow> rbx_loop probe_body" where
  "rbx_round sy payloads prctl_ok cpu_index t lg s =
     do {
       (pass, state) \<leftarrow> sdc_rbx_run_pass sy (payloads t) (prctl_ok t) (rl_state s);
       let s = s\<lparr>rl_state := state\<rparr>;
       let (lg, s) = (if ps_faulted pass \<or> ps_mismatch pass then rbx_detect sy cpu_index pass lg s else (lg, s));
       let result = rl_result s;
       Some (t + 1, lg, s\<lparr>rl_result := result\<lparr>rb_passes := rb_passes result + 1\<rparr>\<rparr>)
     }"

definition rbx_progress :: "u32 \<Rightarrow> u32 \<Rightarrow> int \<Rightarrow> rbx_loop \<Rightarrow> string" where
  "rbx_progress cpu_index minutes elapsed_s s =
     ''  cpu '' @ pad_right 3 (dec (unat cpu_index)) @ '' [ '' @ pad_left (CHR '' '') 5 (dec_int elapsed_s)
     @ ''s / '' @ dec (unat minutes * 60) @ ''s ]  passes ''
     @ pad_right 8 (dec (unat (rb_passes (rl_result s))))
     @ '' detections '' @ dec (unat (rb_detections (rl_result s)))"

section \<open>The run\<close>

definition rbx_start :: "u32 \<Rightarrow> rbx_state \<Rightarrow> rbx_loop" where
  "rbx_start cpu_index state =
     \<lparr>rl_state = state, rl_result = rbx_run_result_init cpu_index, rl_reported = 0\<rparr>"

definition run_rbx_on_current_cpu ::
  "env \<Rightarrow> rbx_symbols \<Rightarrow> (nat \<Rightarrow> payload) \<Rightarrow> (nat \<Rightarrow> bool) \<Rightarrow> u32 \<Rightarrow> u32 \<Rightarrow> nat \<Rightarrow> logger \<Rightarrow> rbx_state
    \<Rightarrow> (rbx_run_result \<times> nat \<times> logger \<times> rbx_state) option" where
  "run_rbx_on_current_cpu env sy payloads prctl_ok cpu_index minutes t lg state =
     do {
       (interrupted, ms, t, lg, s) \<leftarrow>
         run_measured env (rbx_round sy payloads prctl_ok cpu_index) (rbx_progress cpu_index minutes) minutes t lg
           (rbx_start cpu_index state);
       let result = (rl_result s)\<lparr>rb_interrupted := interrupted\<rparr>;
       let elapsed_s = elapsed_seconds ms;
       let calls = rb_passes result * k_rbx_calls_per_pass;
       Some (result\<lparr>rb_elapsed_s := elapsed_s, rb_calls := calls, rb_ns_per_call := ns_per elapsed_s calls\<rparr>,
             t, lg, rl_state s)
     }"

section \<open>The invariant\<close>

definition rbx_inv :: "rbx_symbols \<Rightarrow> rbx_loop \<Rightarrow> bool" where
  "rbx_inv sy s \<longleftrightarrow> rbx_ready sy (rl_state s) \<and> rl_reported s \<le> k_max_reported_per_cpu
     \<and> rb_detections (rl_result s)
         = rb_signature (rl_result s) + rb_other_fault (rl_result s) + rb_mismatch (rl_result s)"

lemma rbx_detect_keeps:
  assumes "rbx_inv sy s" and "rbx_detect sy cpu_index pass lg s = (lg', s')"
  shows "rbx_inv sy s' \<and> rb_passes (rl_result s') = rb_passes (rl_result s) \<and> rl_state s' = rl_state s"
proof -
  have "reported \<le> k_max_reported_per_cpu" if "list_detection message lg (rl_reported s) = (lg'', reported)"
    for message lg'' reported
    using assms(1) list_detection_range [of "rl_reported s" message lg] that by (simp add: rbx_inv_def)
  with assms show ?thesis by (auto simp: rbx_inv_def rbx_detect_def Let_def split: if_splits prod.splits)
qed

lemma rbx_round_keeps:
  assumes "rbx_inv sy s" and "rbx_round sy payloads prctl_ok cpu_index t lg s = Some (t', lg', s')"
  shows "rbx_inv sy s' \<and> t \<le> t' \<and> rb_passes (rl_result s') = rb_passes (rl_result s) + 1"
proof -
  obtain pass state where pass: "sdc_rbx_run_pass sy (payloads t) (prctl_ok t) (rl_state s) = Some (pass, state)"
    using assms(2) by (auto simp: rbx_round_def split: bind_splits)
  let ?s = "s\<lparr>rl_state := state\<rparr>"
  have inv: "rbx_inv sy ?s" using run_pass_ready [OF _ pass] assms(1) by (simp add: rbx_inv_def)
  obtain lg1 s1 where d: "(if ps_faulted pass \<or> ps_mismatch pass then rbx_detect sy cpu_index pass lg ?s else (lg, ?s)) = (lg1, s1)"
    by (rule prod.exhaust)
  then have "rbx_inv sy s1 \<and> rb_passes (rl_result s1) = rb_passes (rl_result s)"
    using rbx_detect_keeps [OF inv, of cpu_index pass lg lg1 s1] inv by (auto split: if_splits)
  then show ?thesis using assms(2) pass d by (auto simp: rbx_round_def rbx_inv_def Let_def)
qed

lemma rbx_round_cpu:
  assumes "rbx_round sy payloads prctl_ok cpu_index t lg s = Some (t', lg', s')"
  shows "rb_cpu_index (rl_result s') = rb_cpu_index (rl_result s)"
  using assms by (auto simp: rbx_round_def rbx_detect_def Let_def split: bind_splits if_splits prod.splits)

interpretation rbx: probe "rbx_round sy payloads prctl_ok cpu_index" "rbx_inv sy" "\<lambda>s. rb_passes (rl_result s)"
  for sy payloads prctl_ok cpu_index
  by unfold_locales (rule rbx_round_keeps)

interpretation rbx_core: probe "rbx_round sy payloads prctl_ok cpu_index"
    "\<lambda>s. rbx_inv sy s \<and> rb_cpu_index (rl_result s) = core" "\<lambda>s. rb_passes (rl_result s)"
  for sy payloads prctl_ok cpu_index core
  by unfold_locales (use rbx_round_keeps rbx_round_cpu in blast)

lemma rbx_start_inv: "rbx_ready sy state \<Longrightarrow> rbx_inv sy (rbx_start cpu_index state)"
  by (simp add: rbx_inv_def rbx_start_def rbx_run_result_init_def)

lemma run_rbx_eq:
  "run_rbx_on_current_cpu env sy payloads prctl_ok cpu_index minutes t lg state =
     map_option (\<lambda>(i, ms, t, lg, s).
        let calls = rb_passes (rl_result s) * k_rbx_calls_per_pass
        in ((rl_result s)\<lparr>rb_interrupted := i, rb_elapsed_s := elapsed_seconds ms, rb_calls := calls,
              rb_ns_per_call := ns_per (elapsed_seconds ms) calls\<rparr>, t, lg, rl_state s))
       (run_measured env (rbx_round sy payloads prctl_ok cpu_index) (rbx_progress cpu_index minutes) minutes t lg
          (rbx_start cpu_index state))"
  by (simp add: run_rbx_on_current_cpu_def Let_def map_option_case split: option.splits prod.splits)

lemma run_rbx_cases:
  assumes "run_rbx_on_current_cpu env sy payloads prctl_ok cpu_index minutes t lg state = Some (result, t', lg', state')"
  obtains i ms s where "run_measured env (rbx_round sy payloads prctl_ok cpu_index) (rbx_progress cpu_index minutes)
        minutes t lg (rbx_start cpu_index state) = Some (i, ms, t', lg', s)"
    "state' = rl_state s" "rb_interrupted result = i" "rb_passes result = rb_passes (rl_result s)"
    "rb_detections result = rb_detections (rl_result s)" "rb_signature result = rb_signature (rl_result s)"
    "rb_other_fault result = rb_other_fault (rl_result s)" "rb_mismatch result = rb_mismatch (rl_result s)"
    "rb_calls result = rb_passes (rl_result s) * k_rbx_calls_per_pass" "rb_cpu_index result = rb_cpu_index (rl_result s)"
  using assms by (auto simp: run_rbx_eq Let_def)

definition rbx_run_ok :: "u32 \<Rightarrow> rbx_run_result \<Rightarrow> bool" where
  "rbx_run_ok cpu_index r \<longleftrightarrow> rb_cpu_index r = cpu_index
     \<and> rb_detections r = rb_signature r + rb_other_fault r + rb_mismatch r \<and> rb_calls r = rb_passes r * 262144"

lemma rbx_run_gives:
  assumes "rbx_ready sy state"
    and "run_rbx_on_current_cpu env sy payloads prctl_ok cpu_index minutes t lg state = Some (result, t', lg', state')"
  shows "rbx_run_ok cpu_index result \<and> rbx_ready sy state' \<and> t < t'
    \<and> (if rb_interrupted result then e_interrupt env (t' - 2)
       else e_now env t + nanos (60 * uint minutes) \<le> e_now env (t' - 2))"
  using assms(2)
proof (cases rule: run_rbx_cases)
  case (1 i ms s)
  have "rbx_inv sy (rbx_start cpu_index state) \<and> rb_cpu_index (rl_result (rbx_start cpu_index state)) = cpu_index"
    using rbx_start_inv [OF assms(1)] by (simp add: rbx_start_def rbx_run_result_init_def)
  from rbx_core.run_result [OF 1(1) this] 1 show ?thesis
    by (simp add: rbx_inv_def rbx_run_ok_def k_rbx_calls_per_pass_def)
qed

text \<open>
  Property C15: the result of an rbx run adds up. Whatever the payload did in each pass, every
  detection is counted once, as a signature, another fault or a wrong hash; the calls are 262144
  per pass; the run ended because the interrupt flag was set or the requested minutes were over;
  and the probe is ready for the next core.
\<close>

theorem rbx_run_accounts:
  assumes "rbx_ready sy state"
    and "run_rbx_on_current_cpu env sy payloads prctl_ok cpu_index minutes t lg state = Some (result, t', lg', state')"
  shows "rb_detections result = rb_signature result + rb_other_fault result + rb_mismatch result
    \<and> rb_calls result = rb_passes result * 262144
    \<and> (if rb_interrupted result then e_interrupt env (t' - 2)
       else e_now env t + nanos (60 * uint minutes) \<le> e_now env (t' - 2))
    \<and> rbx_ready sy state'"
  using rbx_run_gives [OF assms] by (simp add: rbx_run_ok_def)

section \<open>A pass with a fault\<close>

lemma faulted_round:
  assumes "sdc_rbx_run_pass sy (payloads t) (prctl_ok t) (rl_state s) = Some (pass, state)"
    and "ps_faulted pass \<or> ps_mismatch pass"
  shows "\<exists>lg' s'. rbx_round sy payloads prctl_ok cpu_index t lg s = Some (t + 1, lg', s') \<and> rl_state s' = state
    \<and> rb_detections (rl_result s') = rb_detections (rl_result s) + 1
    \<and> rb_signature (rl_result s') = rb_signature (rl_result s)
        + (if ps_faulted pass \<and> sdc_rbx_is_signature sy (ps_fault pass) then 1 else 0)
    \<and> rb_mismatch (rl_result s') = rb_mismatch (rl_result s) + (if ps_faulted pass then 0 else 1)"
  using assms by (auto simp: rbx_round_def rbx_detect_def Let_def split: prod.splits)

text \<open>
  Property C11: a fault in the payload is survived and counted once. When the payload of a pass
  raises an exception the handlers take, whatever it has written to memory before, the run
  goes on with one more detection; it is counted as the signature exactly if the exception was
  raised inside \<open>emit_i16\<close> with \<open>rbx\<close> ahead of \<open>rsp\<close> by \<open>0xA0\<close>; and the arena and its shadow are
  what a first build leaves there.
\<close>

theorem fault_counted:
  assumes "rbx_ready sy (rl_state s)" and "taken x"
    and "payload_run sy (payloads t) (prctl_ok t) (rl_state s) = (m, cd, Raised x regs)"
  shows "\<exists>lg' s'. rbx_round sy payloads prctl_ok cpu_index t lg s = Some (t + 1, lg', s')
    \<and> rb_detections (rl_result s') = rb_detections (rl_result s) + 1
    \<and> rb_signature (rl_result s') = rb_signature (rl_result s)
        + (if rg_rip regs \<in> {sy_emit_begin sy ..< sy_emit_end sy} \<and> rg_rbx regs = rg_rsp regs + 0xA0 then 1 else 0)
    \<and> rb_mismatch (rl_result s') = rb_mismatch (rl_result s)
    \<and> agree (rx_mem (rl_state s')) fresh_memory"
proof -
  obtain pass state where p: "sdc_rbx_run_pass sy (payloads t) (prctl_ok t) (rl_state s) = Some (pass, state)"
      "ps_faulted pass" "fr_regs (ps_fault pass) = regs"
    using run_pass_taken [OF assms(1,3,2)] by blast
  have d: "ps_faulted pass \<or> ps_mismatch pass" using p(2) by simp
  have "sdc_rbx_is_signature sy (ps_fault pass)
      \<longleftrightarrow> rg_rip regs \<in> {sy_emit_begin sy ..< sy_emit_end sy} \<and> rg_rbx regs = rg_rsp regs + 0xA0"
    using signature_iff [of sy "ps_fault pass"] p(3) by simp
  moreover obtain lg' s' where "rbx_round sy payloads prctl_ok cpu_index t lg s = Some (t + 1, lg', s')"
      "rl_state s' = state" "rb_detections (rl_result s') = rb_detections (rl_result s) + 1"
      "rb_signature (rl_result s') = rb_signature (rl_result s)
        + (if ps_faulted pass \<and> sdc_rbx_is_signature sy (ps_fault pass) then 1 else 0)"
      "rb_mismatch (rl_result s') = rb_mismatch (rl_result s) + (if ps_faulted pass then 0 else 1)"
    using faulted_round [where payloads = payloads and t = t and prctl_ok = prctl_ok, OF p(1) d] by blast
  ultimately show ?thesis
    using run_pass_agrees [OF assms(1) p(1) d] p(2) by (intro exI [of _ lg'] exI [of _ s']) simp
qed

section \<open>A sound core\<close>

definition rbx_quiet :: "(memory \<Rightarrow> bool) \<Rightarrow> rbx_symbols \<Rightarrow> rbx_loop \<Rightarrow> bool" where
  "rbx_quiet usable sy s \<longleftrightarrow> rbx_inv sy s \<and> rbx_clean usable sy (rl_state s) \<and> rb_detections (rl_result s) = 0
     \<and> rb_signature (rl_result s) = 0 \<and> rb_other_fault (rl_result s) = 0 \<and> rb_mismatch (rl_result s) = 0"

context payload_contract
begin

lemma quiet_pass:
  assumes "rbx_quiet usable sy s"
  shows "\<exists>s'. rbx_round sy (\<lambda>_. payload) prctl_ok cpu_index t lg s = Some (t + 1, lg, s') \<and> rbx_quiet usable sy s'"
proof -
  obtain pass state where p: "sdc_rbx_run_pass sy payload (prctl_ok t) (rl_state s) = Some (pass, state)"
      "\<not> ps_faulted pass" "\<not> ps_mismatch pass" "rbx_clean usable sy state"
    using clean_pass [of "rl_state s" "prctl_ok t"] assms by (auto simp: rbx_quiet_def)
  then have r: "rbx_round sy (\<lambda>_. payload) prctl_ok cpu_index t lg s = Some (t + 1, lg,
      s\<lparr>rl_state := state, rl_result := (rl_result s)\<lparr>rb_passes := rb_passes (rl_result s) + 1\<rparr>\<rparr>)"
    by (simp add: rbx_round_def Let_def)
  moreover have "rbx_inv sy s" using assms by (simp add: rbx_quiet_def)
  note rbx_round_keeps [OF this r]
  ultimately show ?thesis using p(4) assms by (simp add: rbx_quiet_def)
qed

end

sublocale payload_contract \<subseteq> rbx_quiet: probe "rbx_round sy (\<lambda>_. payload) prctl_ok cpu_index"
    "rbx_quiet usable sy" "\<lambda>s. rb_passes (rl_result s)" for prctl_ok cpu_index
proof unfold_locales
  fix s t lg t' lg' s'
  assume "rbx_quiet usable sy s" "rbx_round sy (\<lambda>_. payload) prctl_ok cpu_index t lg s = Some (t', lg', s')"
  then show "rbx_quiet usable sy s' \<and> t \<le> t' \<and> rb_passes (rl_result s') = rb_passes (rl_result s) + 1"
    using quiet_pass [of s prctl_ok cpu_index t lg] rbx_round_keeps [of sy s "\<lambda>_. payload" prctl_ok cpu_index t lg]
    by (auto simp: rbx_quiet_def)
qed

context payload_contract
begin

lemma quiet_run:
  assumes "\<And>T. \<exists>late. \<forall>k\<ge>late. T \<le> e_now env k" and "rbx_clean usable sy state"
  shows "\<exists>result t' lg' state'.
    run_rbx_on_current_cpu env sy (\<lambda>_. payload) prctl_ok cpu_index minutes t lg state = Some (result, t', lg', state')
    \<and> rb_detections result = 0 \<and> rb_signature result = 0 \<and> rb_other_fault result = 0 \<and> rb_mismatch result = 0
    \<and> rbx_clean usable sy state'"
proof -
  have start: "rbx_quiet usable sy (rbx_start cpu_index state)"
    using assms(2) rbx_start_inv [of sy state cpu_index]
    by (simp add: rbx_quiet_def rbx_clean_def) (simp add: rbx_start_def rbx_run_result_init_def)
  have "rbx_round sy (\<lambda>_. payload) prctl_ok cpu_index t lg s \<noteq> None" if "rbx_quiet usable sy s" for t lg s
    using quiet_pass [OF that, of prctl_ok cpu_index t lg] by auto
  from rbx_quiet.run_returns [OF assms(1) this start]
  obtain i ms t' lg' s where run: "run_measured env (rbx_round sy (\<lambda>_. payload) prctl_ok cpu_index)
      (rbx_progress cpu_index minutes) minutes t lg (rbx_start cpu_index state) = Some (i, ms, t', lg', s)"
    by (metis surj_pair)
  from rbx_quiet.run_result [OF run start] run show ?thesis by (auto simp: run_rbx_eq Let_def rbx_quiet_def)
qed

end

section \<open>Witnesses\<close>

definition prepared :: rbx_state where
  "prepared = snd (sdc_rbx_prepare linux_symbols willing_os rbx_globals)"

lemma prepared_clean: "rbx_clean (\<lambda>_. True) linux_symbols prepared"
proof -
  have "sdc_rbx_prepare linux_symbols willing_os rbx_globals = (None, prepared)"
    unfolding prepared_def using prepare_willing by (metis prod.collapse)
  then show ?thesis by (rule repro.initial_clean [OF rbx_globals_initial])
qed

lemma prepared_ready: "rbx_ready linux_symbols prepared"
  using prepared_clean by (simp add: rbx_clean_def)

lemma repro_contract: "payload_contract linux_symbols repro_payload (\<lambda>_. True)"
  by unfold_locales

lemma rbx_run_accounts_witness:
  "\<exists>result t' lg' state'.
    run_rbx_on_current_cpu tick_env linux_symbols (\<lambda>_. repro_payload) (\<lambda>_. True) 0 1 0 (new_logger [] (\<lambda>_. None)) prepared
      = Some (result, t', lg', state') \<and> rb_calls result = rb_passes result * 262144"
proof -
  obtain result t' lg' state' where
    "run_rbx_on_current_cpu tick_env linux_symbols (\<lambda>_. repro_payload) (\<lambda>_. True) 0 1 0 (new_logger [] (\<lambda>_. None)) prepared
      = Some (result, t', lg', state')"
    using repro.quiet_run [OF tick_env_late prepared_clean] by blast
  from rbx_run_accounts [OF prepared_ready this] this show ?thesis by blast
qed

lemma fault_counted_witness:
  "\<exists>lg' s'. rbx_round linux_symbols (\<lambda>_. crash_payload) (\<lambda>_. True) 0 0 (new_logger [] (\<lambda>_. None)) (rbx_start 0 prepared)
      = Some (1, lg', s') \<and> rb_detections (rl_result s') = 1 \<and> rb_signature (rl_result s') = 1"
proof -
  have s: "rl_state (rbx_start 0 prepared) = prepared" "rb_detections (rl_result (rbx_start 0 prepared)) = 0"
    "rb_signature (rl_result (rbx_start 0 prepared)) = 0"
    by (simp_all add: rbx_start_def rbx_run_result_init_def)
  have ready: "rbx_ready linux_symbols (rl_state (rbx_start 0 prepared))" by (simp only: s prepared_ready)
  have t: "taken (Signal SIGSEGV 0)" by (simp add: fault_signals_def)
  have run: "payload_run linux_symbols ((\<lambda>_. crash_payload) (0 :: nat)) ((\<lambda>_. True) (0 :: nat)) (rl_state (rbx_start 0 prepared))
      = (\<lambda>_. 0xFF, rx_countdown prepared, Raised (Signal SIGSEGV 0) crash_regs)"
    by (simp only: s payload_run_def crash_payload_def)
  have regs: "rg_rip crash_regs \<in> {sy_emit_begin linux_symbols ..< sy_emit_end linux_symbols}
      \<and> rg_rbx crash_regs = rg_rsp crash_regs + 0xA0"
    by (simp add: crash_regs_def linux_symbols_def)
  show ?thesis
    using fault_counted [where t = 0, OF ready t run, of 0 "new_logger [] (\<lambda>_. None)"] regs
    unfolding s by auto
qed

end
