(* ===== verification/Sweep.thy ===== *)
theory Sweep
  imports Run_Rbx "HOL-Library.Multiset" "HOL-Library.Sublist"
begin

text \<open>
  The sweep over the selected cores (sdcprobe.cpp, the loop of \<open>main\<close>): poll the interrupt, pin,
  verify, run the selected probes, stop after an interrupted run. Whether the system grants a
  pinning and what it reports of it is the machine's answer, at each of its ticks.
\<close>

section \<open>The machine and the plan\<close>

record machine =
  mc_env :: env
  mc_grants :: "nat \<Rightarrow> affinity_request \<Rightarrow> bool"
  mc_reports :: "nat \<Rightarrow> affinity_report"
  mc_cpus :: "nat \<Rightarrow> cpu"
  mc_payloads :: "nat \<Rightarrow> payload"
  mc_prctl :: "nat \<Rightarrow> bool"
  mc_symbols :: rbx_symbols

abbreviation mc_platform :: "machine \<Rightarrow> platform" where
  "mc_platform mc \<equiv> sy_platform (mc_symbols mc)"

abbreviation pins :: "machine \<Rightarrow> nat \<Rightarrow> cpu_info \<Rightarrow> bool option" where
  "pins mc t cpu \<equiv> sdc_pin_to_cpu (mc_platform mc) (mc_grants mc t) cpu"

text \<open>\<open>pl_layers\<close>: the layer count that is set while the sweep runs.\<close>

record plan =
  pl_probes :: probe_selection
  pl_seed :: u32
  pl_minutes :: u32
  pl_layers :: int

record sweep =
  sw_results :: "run_result list"
  sw_rbx_results :: "rbx_run_result list"
  sw_skipped :: u64
  sw_measured :: u64
  sw_interrupted :: bool
  sw_tick :: nat
  sw_log :: logger
  sw_work :: workspace
  sw_rbx :: rbx_state

section \<open>One core\<close>

definition num :: "'a::len word \<Rightarrow> string" where
  \<comment> \<open>\<open>%u\<close>, \<open>%llu\<close>\<close>
  "num w = dec (unat w)"

definition interrupted_text :: "bool \<Rightarrow> string" where
  "interrupted_text interrupted = (if interrupted then ''  (interrupted)'' else [])"

definition ch_done_line :: "run_result \<Rightarrow> u32 \<Rightarrow> string" where
  "ch_done_line r cpu_index =
     ''  cpu '' @ num cpu_index @ '' ch done: rounds '' @ num (rn_rounds r) @ '', checks '' @ num (rn_checks r)
     @ '', detections '' @ num (rn_detections r)
     @ '', lanes L0 '' @ num (rn_lane_counts r ! 0) @ '' L1 '' @ num (rn_lane_counts r ! 1)
     @ '' L2 '' @ num (rn_lane_counts r ! 2) @ '' L3 '' @ num (rn_lane_counts r ! 3)
     @ '', multi-byte '' @ num (rn_unexplained r) @ '', value drift '' @ num (rn_value_drift r)
     @ '', '' @ fixed 0 (fp64 (rn_ns_per_check r)) @ '' ns per check'' @ interrupted_text (rn_interrupted r)"

definition rbx_done_line :: "rbx_run_result \<Rightarrow> u32 \<Rightarrow> string" where
  "rbx_done_line r cpu_index =
     ''  cpu '' @ num cpu_index @ '' rbx done: passes '' @ num (rb_passes r) @ '', calls '' @ num (rb_calls r)
     @ '', detections '' @ num (rb_detections r) @ '', frame base '' @ num (rb_signature r)
     @ '', other fault '' @ num (rb_other_fault r) @ '', wrong hash '' @ num (rb_mismatch r)
     @ '', '' @ fixed 1 (fp64 (rb_ns_per_call r)) @ '' ns per call'' @ interrupted_text (rb_interrupted r)"

definition probe_ch :: "machine \<Rightarrow> plan \<Rightarrow> cpu_info \<Rightarrow> sweep \<Rightarrow> (bool \<times> sweep) option" where
  \<comment> \<open>with \<open>core_interrupted\<close>\<close>
  "probe_ch mc plan cpu s =
     do {
       (result, t, lg, work) \<leftarrow>
         run_on_current_cpu (mc_env mc) (mc_cpus mc) (pl_layers plan) (ci_index cpu) (pl_seed plan)
           (pl_minutes plan) (sw_tick s) (sw_log s) (sw_work s);
       Some (rn_interrupted result,
             s\<lparr>sw_results := sw_results s @ [result], sw_tick := t, sw_work := work,
               sw_log := log_line (ch_done_line result (ci_index cpu)) lg\<rparr>)
     }"

definition probe_rbx :: "machine \<Rightarrow> plan \<Rightarrow> cpu_info \<Rightarrow> sweep \<Rightarrow> (bool \<times> sweep) option" where
  "probe_rbx mc plan cpu s =
     do {
       (result, t, lg, state) \<leftarrow>
         run_rbx_on_current_cpu (mc_env mc) (mc_symbols mc) (mc_payloads mc) (mc_prctl mc) (ci_index cpu)
           (pl_minutes plan) (sw_tick s) (sw_log s) (sw_rbx s);
       Some (rb_interrupted result,
             s\<lparr>sw_rbx_results := sw_rbx_results s @ [result], sw_tick := t, sw_rbx := state,
               sw_log := log_line (rbx_done_line result (ci_index cpu)) lg\<rparr>)
     }"

definition measure_core :: "machine \<Rightarrow> plan \<Rightarrow> cpu_info \<Rightarrow> sweep \<Rightarrow> (bool \<times> sweep) option" where
  "measure_core mc plan cpu s =
     do {
       (core_interrupted, s) \<leftarrow> (if sel_ch (pl_probes plan) then probe_ch mc plan cpu s else Some (False, s));
       (core_interrupted, s) \<leftarrow>
         (if sel_rbx (pl_probes plan) \<and> \<not> core_interrupted then probe_rbx mc plan cpu s
          else Some (core_interrupted, s));
       Some (core_interrupted, s\<lparr>sw_log := log_blank (sw_log s)\<rparr>)
     }"

definition start_core :: "machine \<Rightarrow> nat \<Rightarrow> nat \<Rightarrow> cpu_info \<Rightarrow> sweep \<Rightarrow> sweep" where
  \<comment> \<open>a core that could be pinned, up to its first probe\<close>
  "start_core mc cores n cpu s =
     (let pin_problem = sdc_verify_pin (mc_platform mc) (mc_reports mc (sw_tick s)) cpu
      in s\<lparr>sw_measured := sw_measured s + 1, sw_tick := sw_tick s + 1,
           sw_log := (if pin_problem \<noteq> []
             then log_line (''  WARNING: pinning not confirmed - '' @ c_str pin_problem) (sw_log s) else sw_log s)\<rparr>)"

definition end_core :: "nat \<Rightarrow> nat \<Rightarrow> bool \<Rightarrow> sweep \<Rightarrow> sweep" where
  "end_core cores n core_interrupted s =
     (if core_interrupted
      then s\<lparr>sw_interrupted := True,
             sw_log := (let remaining = cores - (n + 1)
               in if remaining \<noteq> 0
                  then log_line (''--- interrupted; '' @ dec remaining @ '' core(s) not tested ---'') (sw_log s)
                  else sw_log s)\<rparr>
      else s)"

definition sweep_core ::
  "machine \<Rightarrow> plan \<Rightarrow> nat \<Rightarrow> nat \<Rightarrow> cpu_info \<Rightarrow> sweep \<Rightarrow> (bool \<times> sweep) option" where
  \<comment> \<open>the body of the loop for core \<open>n\<close> of \<open>cores\<close>, and whether it broke out of it\<close>
  "sweep_core mc plan cores n cpu s =
     (if e_interrupt (mc_env mc) (sw_tick s) then
        Some (True, s\<lparr>sw_interrupted := True, sw_tick := sw_tick s + 1,
          sw_log := log_line (''--- interrupted before cpu '' @ num (ci_index cpu) @ ''; '' @ dec (cores - n)
                      @ '' core(s) not tested ---'') (sw_log s)\<rparr>)
      else
        let t = sw_tick s + 1;
            s = s\<lparr>sw_tick := t + 1,
                  sw_log := log_line (''--- cpu '' @ num (ci_index cpu) @ ''  ('' @ dec (n + 1) @ '' of ''
                              @ dec cores @ '') ---'') (sw_log s)\<rparr>
        in do {
             pinned \<leftarrow> pins mc t cpu;
             if \<not> pinned then
               Some (False, s\<lparr>sw_skipped := sw_skipped s + 1,
                 sw_log := log_line (''  SKIPPED: could not pin to core '' @ num (ci_index cpu)) (sw_log s)\<rparr>)
             else do {
               (core_interrupted, s) \<leftarrow> measure_core mc plan cpu (start_core mc cores n cpu s);
               Some (core_interrupted, end_core cores n core_interrupted s)
             }
           })"

fun sweep_loop :: "machine \<Rightarrow> plan \<Rightarrow> nat \<Rightarrow> nat \<Rightarrow> cpu_info list \<Rightarrow> sweep \<Rightarrow> sweep option" where
  "sweep_loop mc plan cores n [] s = Some s"
| "sweep_loop mc plan cores n (cpu # rest) s =
     do {
       (broke, s) \<leftarrow> sweep_core mc plan cores n cpu s;
       if broke then Some s else sweep_loop mc plan cores (n + 1) rest s
     }"

definition sweep_start :: "nat \<Rightarrow> logger \<Rightarrow> workspace \<Rightarrow> rbx_state \<Rightarrow> sweep" where
  "sweep_start t lg work state =
     \<lparr>sw_results = [], sw_rbx_results = [], sw_skipped = 0, sw_measured = 0, sw_interrupted = False,
      sw_tick = t, sw_log = lg, sw_work = work, sw_rbx = state\<rparr>"

definition sweep_cores :: "machine \<Rightarrow> plan \<Rightarrow> cpu_info list \<Rightarrow> sweep \<Rightarrow> sweep option" where
  "sweep_cores mc plan selected s = sweep_loop mc plan (length selected) 0 selected s"


section \<open>What one core adds\<close>

text \<open>The invariant of the sweep: the workspace's sizes, the rbx probe ready if it is selected, and every result good.\<close>

definition sweep_inv :: "machine \<Rightarrow> plan \<Rightarrow> sweep \<Rightarrow> bool" where
  "sweep_inv mc plan s \<longleftrightarrow> work_ok (sw_work s)
     \<and> (sel_rbx (pl_probes plan) \<longrightarrow> rbx_ready (mc_symbols mc) (sw_rbx s))
     \<and> (\<forall>r\<in>set (sw_results s). run_ok (rn_cpu_index r) r)
     \<and> (\<forall>r\<in>set (sw_rbx_results s). rbx_run_ok (rb_cpu_index r) r)"

lemma probe_ch_gives:
  assumes "sweep_inv mc plan s" and "probe_ch mc plan cpu s = Some (i, s')"
  obtains result where "sw_results s' = sw_results s @ [result]" "run_ok (ci_index cpu) result"
    "rn_interrupted result = i" "sw_rbx_results s' = sw_rbx_results s" "sw_measured s' = sw_measured s"
    "sw_skipped s' = sw_skipped s" "sw_interrupted s' = sw_interrupted s" "sw_tick s < sw_tick s'"
    "sw_rbx s' = sw_rbx s" "sweep_inv mc plan s'" "i \<longrightarrow> e_interrupt (mc_env mc) (sw_tick s' - 2)"
proof -
  obtain result t lg work where run: "run_on_current_cpu (mc_env mc) (mc_cpus mc) (pl_layers plan) (ci_index cpu)
      (pl_seed plan) (pl_minutes plan) (sw_tick s) (sw_log s) (sw_work s) = Some (result, t, lg, work)"
    and s': "i = rn_interrupted result" "s' = s\<lparr>sw_results := sw_results s @ [result], sw_tick := t, sw_work := work,
               sw_log := log_line (ch_done_line result (ci_index cpu)) lg\<rparr>"
    using assms(2) by (auto simp: probe_ch_def split: bind_splits)
  have w: "work_ok (sw_work s)" using assms(1) by (simp add: sweep_inv_def)
  note gives = run_gives [OF w run]
  have "rn_cpu_index result = ci_index cpu" using gives by (simp add: run_ok_def)
  then have "sweep_inv mc plan s'" using gives assms(1) by (simp add: s' sweep_inv_def)
  then show thesis using gives by (intro that [of result]) (auto simp: s' split: if_splits)
qed

lemma probe_rbx_gives:
  assumes "sweep_inv mc plan s" and "sel_rbx (pl_probes plan)" and "probe_rbx mc plan cpu s = Some (i, s')"
  obtains result where "sw_rbx_results s' = sw_rbx_results s @ [result]" "rbx_run_ok (ci_index cpu) result"
    "rb_interrupted result = i" "sw_results s' = sw_results s" "sw_measured s' = sw_measured s"
    "sw_skipped s' = sw_skipped s" "sw_interrupted s' = sw_interrupted s" "sw_tick s < sw_tick s'"
    "sweep_inv mc plan s'" "i \<longrightarrow> e_interrupt (mc_env mc) (sw_tick s' - 2)"
proof -
  obtain result t lg state where run: "run_rbx_on_current_cpu (mc_env mc) (mc_symbols mc) (mc_payloads mc) (mc_prctl mc)
      (ci_index cpu) (pl_minutes plan) (sw_tick s) (sw_log s) (sw_rbx s) = Some (result, t, lg, state)"
    and s': "i = rb_interrupted result" "s' = s\<lparr>sw_rbx_results := sw_rbx_results s @ [result], sw_tick := t, sw_rbx := state,
               sw_log := log_line (rbx_done_line result (ci_index cpu)) lg\<rparr>"
    using assms(3) by (auto simp: probe_rbx_def split: bind_splits)
  have w: "rbx_ready (mc_symbols mc) (sw_rbx s)" using assms(1,2) by (simp add: sweep_inv_def)
  note gives = rbx_run_gives [OF w run]
  have "rb_cpu_index result = ci_index cpu" using gives by (simp add: rbx_run_ok_def)
  then have "sweep_inv mc plan s'" using gives assms(1) by (simp add: s' sweep_inv_def)
  then show thesis using gives by (intro that [of result]) (auto simp: s' split: if_splits)
qed


text \<open>A pinned core, from the state its first probe starts in.\<close>

lemma sweep_core_pinned:
  assumes inv: "sweep_inv mc plan s" and run: "sweep_core mc plan cores n cpu s = Some (broke, s')"
    and pin: "\<not> e_interrupt (mc_env mc) (sw_tick s)" "pins mc (sw_tick s + 1) cpu = Some True"
  obtains s0 s3 where "measure_core mc plan cpu s0 = Some (broke, s3)" "s' = end_core cores n broke s3"
    "sweep_inv mc plan s0" "sw_results s0 = sw_results s" "sw_rbx_results s0 = sw_rbx_results s"
    "sw_skipped s0 = sw_skipped s" "sw_measured s0 = sw_measured s + 1" "sw_interrupted s0 = sw_interrupted s"
proof -
  let ?s = "s\<lparr>sw_tick := sw_tick s + 2, sw_log := log_line (''--- cpu '' @ num (ci_index cpu) @ ''  (''
      @ dec (n + 1) @ '' of '' @ dec cores @ '') ---'') (sw_log s)\<rparr>"
  define s0 where "s0 = start_core mc cores n cpu ?s"
  have "sweep_inv mc plan s0" using inv by (simp add: s0_def start_core_def sweep_inv_def Let_def)
  moreover have "sw_results s0 = sw_results s" "sw_rbx_results s0 = sw_rbx_results s" "sw_skipped s0 = sw_skipped s"
      "sw_measured s0 = sw_measured s + 1" "sw_interrupted s0 = sw_interrupted s"
    by (simp_all add: s0_def start_core_def Let_def)
  moreover obtain s3 where "measure_core mc plan cpu s0 = Some (broke, s3)" "s' = end_core cores n broke s3"
    using run pin by (auto simp: sweep_core_def s0_def Let_def split: bind_splits)
  ultimately show thesis by (rule that [rotated 2])
qed

text \<open>One iteration of the loop, in its three outcomes.\<close>

lemma sweep_core_cases:
  assumes inv: "sweep_inv mc plan s" and run: "sweep_core mc plan cores n cpu s = Some (broke, s')"
  obtains (stopped) "broke" "e_interrupt (mc_env mc) (sw_tick s)" "sw_interrupted s'"
      "sw_results s' = sw_results s" "sw_rbx_results s' = sw_rbx_results s"
      "sw_measured s' = sw_measured s" "sw_skipped s' = sw_skipped s" "sweep_inv mc plan s'"
    | (skipped) "\<not> broke" "\<not> e_interrupt (mc_env mc) (sw_tick s)" "pins mc (sw_tick s + 1) cpu = Some False"
      "sw_interrupted s' = sw_interrupted s"
      "sw_results s' = sw_results s" "sw_rbx_results s' = sw_rbx_results s"
      "sw_measured s' = sw_measured s" "sw_skipped s' = sw_skipped s + 1" "sweep_inv mc plan s'"
    | (measured) rs rbs where "\<not> e_interrupt (mc_env mc) (sw_tick s)" "pins mc (sw_tick s + 1) cpu = Some True"
      "sw_interrupted s' = (broke \<or> sw_interrupted s)"
      "sw_results s' = sw_results s @ rs" "map rn_cpu_index rs = (if sel_ch (pl_probes plan) then [ci_index cpu] else [])"
      "sw_rbx_results s' = sw_rbx_results s @ rbs"
      "map rb_cpu_index rbs = (if sel_rbx (pl_probes plan) then [ci_index cpu] else []) \<or> broke \<and> rbs = []"
      "sw_measured s' = sw_measured s + 1" "sw_skipped s' = sw_skipped s" "sweep_inv mc plan s'"
proof -
  let ?stop = "e_interrupt (mc_env mc) (sw_tick s)" and ?pin = "pins mc (sw_tick s + 1) cpu"
  have "?pin \<noteq> None" if "\<not> ?stop" using run that by (auto simp: sweep_core_def Let_def split: bind_splits)
  then consider "?stop" | "\<not> ?stop" "?pin = Some False" | "\<not> ?stop" "?pin = Some True" by (cases ?pin) auto
  then show thesis
  proof cases
    case 1
    with run inv show ?thesis by (intro stopped) (auto simp: sweep_core_def sweep_inv_def)
  next
    case 2
    with run inv show ?thesis by (intro skipped) (auto simp: sweep_core_def sweep_inv_def Let_def)
  next
    case 3
    from inv run 3 obtain s0 s3 where m: "measure_core mc plan cpu s0 = Some (broke, s3)"
      and end_: "s' = end_core cores n broke s3" and inv0: "sweep_inv mc plan s0"
      and same0: "sw_results s0 = sw_results s" "sw_rbx_results s0 = sw_rbx_results s" "sw_skipped s0 = sw_skipped s"
        "sw_measured s0 = sw_measured s + 1" "sw_interrupted s0 = sw_interrupted s"
      by (rule sweep_core_pinned)
    have s': "sw_interrupted s' = (broke \<or> sw_interrupted s3)" "sw_results s' = sw_results s3"
        "sw_rbx_results s' = sw_rbx_results s3" "sw_measured s' = sw_measured s3" "sw_skipped s' = sw_skipped s3"
        "sweep_inv mc plan s' = sweep_inv mc plan s3"
      by (cases broke; simp add: end_ end_core_def sweep_inv_def)+
    obtain i1 s1 where first: "(if sel_ch (pl_probes plan) then probe_ch mc plan cpu s0 else Some (False, s0)) = Some (i1, s1)"
      using m by (auto simp: measure_core_def split: bind_splits)
    obtain s2 where second: "(if sel_rbx (pl_probes plan) \<and> \<not> i1 then probe_rbx mc plan cpu s1 else Some (i1, s1))
        = Some (broke, s2)" and s3: "s3 = s2\<lparr>sw_log := log_blank (sw_log s2)\<rparr>"
      using m first by (auto simp: measure_core_def split: bind_splits)
    obtain rs where rs: "sw_results s1 = sw_results s @ rs" "sw_rbx_results s1 = sw_rbx_results s"
        "map rn_cpu_index rs = (if sel_ch (pl_probes plan) then [ci_index cpu] else [])"
        "sw_measured s1 = sw_measured s + 1" "sw_skipped s1 = sw_skipped s" "sw_interrupted s1 = sw_interrupted s"
        "sweep_inv mc plan s1"
    proof (cases "sel_ch (pl_probes plan)")
      case True
      with first have "probe_ch mc plan cpu s0 = Some (i1, s1)" by simp
      from inv0 this show ?thesis
      proof (rule probe_ch_gives)
        fix result
        assume "sw_results s1 = sw_results s0 @ [result]" "run_ok (ci_index cpu) result"
          "sw_rbx_results s1 = sw_rbx_results s0" "sw_measured s1 = sw_measured s0" "sw_skipped s1 = sw_skipped s0"
          "sw_interrupted s1 = sw_interrupted s0" "sweep_inv mc plan s1"
        with True same0 that [of "[result]"] show ?thesis by (simp add: run_ok_def)
      qed
    next
      case False
      with first inv0 same0 that [of "[]"] show ?thesis by simp
    qed
    obtain rbs where rbs: "sw_rbx_results s2 = sw_rbx_results s @ rbs" "sw_results s2 = sw_results s1"
        "map rb_cpu_index rbs = (if sel_rbx (pl_probes plan) then [ci_index cpu] else []) \<or> broke \<and> rbs = []"
        "sw_measured s2 = sw_measured s1" "sw_skipped s2 = sw_skipped s1" "sw_interrupted s2 = sw_interrupted s1"
        "sweep_inv mc plan s2"
    proof (cases "sel_rbx (pl_probes plan) \<and> \<not> i1")
      case True
      then have sel: "sel_rbx (pl_probes plan)" and "probe_rbx mc plan cpu s1 = Some (broke, s2)" using second by simp_all
      from rs(7) this show ?thesis
      proof (rule probe_rbx_gives)
        fix result
        assume "sw_rbx_results s2 = sw_rbx_results s1 @ [result]" "rbx_run_ok (ci_index cpu) result"
          "sw_results s2 = sw_results s1" "sw_measured s2 = sw_measured s1" "sw_skipped s2 = sw_skipped s1"
          "sw_interrupted s2 = sw_interrupted s1" "sweep_inv mc plan s2"
        with sel rs that [of "[result]"] show ?thesis by (simp add: rbx_run_ok_def)
      qed
    next
      case False
      with second rs that [of "[]"] show ?thesis by (auto split: if_splits)
    qed
    have "sweep_inv mc plan s3" using rbs(7) by (simp add: s3 sweep_inv_def)
    with 3 rs rbs s' show ?thesis by (intro measured [of rs rbs]) (simp_all add: s3)
  qed
qed


section \<open>The sweep as a relation\<close>

text \<open>
  What a sweep may do with a list of cores: measure or skip each in order, until an interrupt
  leaves the rest, before a core or after measuring it. The lists are the measured cores, the
  skipped ones and the rest; the flag says whether it was interrupted.
\<close>

inductive swept :: "'c list \<Rightarrow> 'c list \<Rightarrow> 'c list \<Rightarrow> bool \<Rightarrow> 'c list \<Rightarrow> bool" where
  finished: "swept [] [] [] False []"
| interrupted: "swept (c # cs) [] [] True (c # cs)"
| skip: "swept cs m k i u \<Longrightarrow> swept (c # cs) m (c # k) i u"
| measure: "swept cs m k i u \<Longrightarrow> swept (c # cs) (c # m) k i u"
| measured_last: "swept (c # cs) [c] [] True cs"

inductive_cases swept_NilE: "swept [] m k i u"
inductive_cases swept_ConsE: "swept (c # cs) m k i u"

lemma swept_none: "swept cs [] k False u \<Longrightarrow> k = cs"
  by (induction cs arbitrary: k u) (auto elim: swept_NilE swept_ConsE)

lemma swept_parts:
  "swept cs m k i u \<Longrightarrow> mset cs = mset m + mset k + mset u \<and> subseq m cs \<and> subseq k cs
     \<and> (\<exists>before. cs = before @ u) \<and> (\<not> i \<longrightarrow> u = [])"
  by (induction rule: swept.induct) (auto simp: subseq_Cons' intro: exI [of _ "[]"] exI [of _ "_ # _"])

lemma swept_map: "swept cs m k i u \<Longrightarrow> swept (map f cs) (map f m) (map f k) i (map f u)"
  by (induction rule: swept.induct) (auto intro: swept.intros)

lemma sweep_loop_swept:
  assumes "sweep_inv mc plan s" and "sweep_loop mc plan cores n cpus s = Some s'" and "\<not> sw_interrupted s"
  shows "\<exists>m k u rs rbs. swept cpus m k (sw_interrupted s') u \<and> sweep_inv mc plan s'
    \<and> sw_results s' = sw_results s @ rs \<and> sw_rbx_results s' = sw_rbx_results s @ rbs
    \<and> map rn_cpu_index rs = (if sel_ch (pl_probes plan) then map ci_index m else [])
    \<and> (if sel_rbx (pl_probes plan)
       then map rb_cpu_index rbs = map ci_index m \<or> sw_interrupted s' \<and> map rb_cpu_index rbs = map ci_index (butlast m)
       else rbs = [])
    \<and> sw_measured s' = sw_measured s + of_nat (length m) \<and> sw_skipped s' = sw_skipped s + of_nat (length k)
    \<and> (\<forall>cpu\<in>set m. \<exists>t. pins mc t cpu = Some True) \<and> (\<forall>cpu\<in>set k. \<exists>t. pins mc t cpu = Some False)"
  using assms
proof (induction cpus arbitrary: n s)
  case Nil
  then show ?case by (auto intro!: exI [of _ "[]"] swept.finished)
next
  case (Cons cpu rest)
  obtain broke s1 where core: "sweep_core mc plan cores n cpu s = Some (broke, s1)"
    and rest: "if broke then s' = s1 else sweep_loop mc plan cores (n + 1) rest s1 = Some s'"
    using Cons.prems(2) by (auto split: bind_splits if_splits)
  from Cons.prems(1) core show ?case
  proof (cases rule: sweep_core_cases)
    case stopped
    with rest have "s' = s1" by simp
    show ?thesis
      by (rule exI [of _ "[]"], rule exI [of _ "[]"], rule exI [of _ "cpu # rest"], rule exI [of _ "[]"], rule exI [of _ "[]"])
        (use stopped \<open>s' = s1\<close> in \<open>simp add: swept.interrupted\<close>)
  next
    case skipped
    with rest Cons.prems(3) have "sweep_loop mc plan cores (n + 1) rest s1 = Some s'" "\<not> sw_interrupted s1" by simp_all
    from Cons.IH [OF skipped(9) this] obtain m k u rs rbs where
      IH: "swept rest m k (sw_interrupted s') u" "sweep_inv mc plan s'"
        "sw_results s' = sw_results s1 @ rs" "sw_rbx_results s' = sw_rbx_results s1 @ rbs"
        "map rn_cpu_index rs = (if sel_ch (pl_probes plan) then map ci_index m else [])"
        "if sel_rbx (pl_probes plan)
         then map rb_cpu_index rbs = map ci_index m \<or> sw_interrupted s' \<and> map rb_cpu_index rbs = map ci_index (butlast m)
         else rbs = []"
        "sw_measured s' = sw_measured s1 + of_nat (length m)" "sw_skipped s' = sw_skipped s1 + of_nat (length k)"
        "\<forall>cpu\<in>set m. \<exists>t. pins mc t cpu = Some True" "\<forall>cpu\<in>set k. \<exists>t. pins mc t cpu = Some False"
      by blast
    show ?thesis
      by (rule exI [of _ m], rule exI [of _ "cpu # k"], rule exI [of _ u], rule exI [of _ rs], rule exI [of _ rbs])
        (use IH skipped in \<open>auto simp: swept.skip\<close>)
  next
    case (measured rs1 rbs1)
    show ?thesis
    proof (cases broke)
      case True
      with rest have "s' = s1" by simp
      show ?thesis
        by (rule exI [of _ "[cpu]"], rule exI [of _ "[]"], rule exI [of _ rest], rule exI [of _ rs1], rule exI [of _ rbs1])
          (use measured True \<open>s' = s1\<close> in \<open>auto intro: swept.measured_last\<close>)
    next
      case False
      with rest measured Cons.prems(3) have "sweep_loop mc plan cores (n + 1) rest s1 = Some s'" "\<not> sw_interrupted s1"
        by simp_all
      from Cons.IH [OF measured(10) this] obtain m k u rs rbs where
        IH: "swept rest m k (sw_interrupted s') u" "sweep_inv mc plan s'"
          "sw_results s' = sw_results s1 @ rs" "sw_rbx_results s' = sw_rbx_results s1 @ rbs"
          "map rn_cpu_index rs = (if sel_ch (pl_probes plan) then map ci_index m else [])"
          "if sel_rbx (pl_probes plan)
           then map rb_cpu_index rbs = map ci_index m \<or> sw_interrupted s' \<and> map rb_cpu_index rbs = map ci_index (butlast m)
           else rbs = []"
          "sw_measured s' = sw_measured s1 + of_nat (length m)" "sw_skipped s' = sw_skipped s1 + of_nat (length k)"
          "\<forall>cpu\<in>set m. \<exists>t. pins mc t cpu = Some True" "\<forall>cpu\<in>set k. \<exists>t. pins mc t cpu = Some False"
        by blast
      show ?thesis
      proof (rule exI [of _ "cpu # m"], rule exI [of _ k], rule exI [of _ u], rule exI [of _ "rs1 @ rs"], rule exI [of _ "rbs1 @ rbs"], intro conjI)
        show "swept (cpu # rest) (cpu # m) k (sw_interrupted s') u" using IH(1) by (rule swept.measure)
        have "map rb_cpu_index (rbs1 @ rbs) = map ci_index (cpu # m)
            \<or> sw_interrupted s' \<and> map rb_cpu_index (rbs1 @ rbs) = map ci_index (butlast (cpu # m))"
          if "sel_rbx (pl_probes plan)"
          using IH(6) measured(7) False that by (cases m) auto
        moreover have "rbs1 @ rbs = []" if "\<not> sel_rbx (pl_probes plan)"
          using IH(6) measured(7) False that by auto
        ultimately show "if sel_rbx (pl_probes plan)
          then map rb_cpu_index (rbs1 @ rbs) = map ci_index (cpu # m)
            \<or> sw_interrupted s' \<and> map rb_cpu_index (rbs1 @ rbs) = map ci_index (butlast (cpu # m))
          else rbs1 @ rbs = []" by simp
      qed (use IH measured in auto)
    qed
  qed
qed

text \<open>Only an interrupt stops a sweep.\<close>

lemma sweep_core_broke:
  assumes "sweep_inv mc plan s" and "sweep_core mc plan cores n cpu s = Some (True, s')"
  shows "\<exists>t. e_interrupt (mc_env mc) t"
proof (rule ccontr)
  assume quiet: "\<nexists>t. e_interrupt (mc_env mc) t"
  then have "pins mc (sw_tick s + 1) cpu = Some True" using assms(2) by (auto simp: sweep_core_def Let_def split: bind_splits if_splits)
  with quiet obtain s0 s3 where m: "measure_core mc plan cpu s0 = Some (True, s3)" and inv: "sweep_inv mc plan s0"
    using sweep_core_pinned [OF assms] by metis
  obtain i1 s1 where first: "(if sel_ch (pl_probes plan) then probe_ch mc plan cpu s0 else Some (False, s0)) = Some (i1, s1)"
    using m by (auto simp: measure_core_def split: bind_splits)
  obtain s2 where second: "(if sel_rbx (pl_probes plan) \<and> \<not> i1 then probe_rbx mc plan cpu s1 else Some (i1, s1)) = Some (True, s2)"
    using m first by (auto simp: measure_core_def split: bind_splits)
  have i1: "\<not> i1" and inv1: "sweep_inv mc plan s1"
    using first inv quiet by (auto split: if_splits elim: probe_ch_gives)
  show False
  proof (cases "sel_rbx (pl_probes plan)")
    case True
    with second i1 have "probe_rbx mc plan cpu s1 = Some (True, s2)" by simp
    from inv1 True this show ?thesis by (rule probe_rbx_gives) (use quiet in blast)
  next
    case False
    with second i1 show ?thesis by simp
  qed
qed

lemma sweep_loop_interrupted:
  assumes "sweep_inv mc plan s" and "sweep_loop mc plan cores n cpus s = Some s'" and "\<not> sw_interrupted s" and "sw_interrupted s'"
  shows "\<exists>t. e_interrupt (mc_env mc) t"
  using assms
proof (induction cpus arbitrary: n s)
  case (Cons cpu rest)
  obtain broke s1 where core: "sweep_core mc plan cores n cpu s = Some (broke, s1)"
    and rest: "if broke then s' = s1 else sweep_loop mc plan cores (n + 1) rest s1 = Some s'"
    using Cons.prems(2) by (auto split: bind_splits if_splits)
  show ?case
  proof (cases broke)
    case True
    with sweep_core_broke [OF Cons.prems(1)] core show ?thesis by simp
  next
    case False
    from Cons.prems(1) core have "sweep_inv mc plan s1 \<and> \<not> sw_interrupted s1"
      by (cases rule: sweep_core_cases) (use False Cons.prems(3) in auto)
    with Cons.IH rest False Cons.prems(4) show ?thesis by auto
  qed
qed simp

text \<open>The sweep of a selection, from its start.\<close>

lemma sweep_start_inv:
  assumes "work_ok work" and "sel_rbx (pl_probes plan) \<longrightarrow> rbx_ready (mc_symbols mc) state"
  shows "sweep_inv mc plan (sweep_start t lg work state)"
  using assms by (simp add: sweep_inv_def sweep_start_def)

lemma sweep_start_empty [simp]:
  "sw_results (sweep_start t lg work state) = []" "sw_rbx_results (sweep_start t lg work state) = []"
  "sw_measured (sweep_start t lg work state) = 0" "sw_skipped (sweep_start t lg work state) = 0"
  "\<not> sw_interrupted (sweep_start t lg work state)" "sw_work (sweep_start t lg work state) = work"
  "sw_rbx (sweep_start t lg work state) = state" "sw_tick (sweep_start t lg work state) = t"
  "sw_log (sweep_start t lg work state) = lg"
  by (simp_all add: sweep_start_def)

lemma sweep_cores_swept:
  assumes "work_ok work" and "sel_rbx (pl_probes plan) \<longrightarrow> rbx_ready (mc_symbols mc) state"
    and "sweep_cores mc plan selected (sweep_start t lg work state) = Some s'"
  obtains m k u where "swept selected m k (sw_interrupted s') u" "sweep_inv mc plan s'"
    "map rn_cpu_index (sw_results s') = (if sel_ch (pl_probes plan) then map ci_index m else [])"
    "if sel_rbx (pl_probes plan)
     then map rb_cpu_index (sw_rbx_results s') = map ci_index m
       \<or> sw_interrupted s' \<and> map rb_cpu_index (sw_rbx_results s') = map ci_index (butlast m)
     else sw_rbx_results s' = []"
    "sw_measured s' = of_nat (length m)" "sw_skipped s' = of_nat (length k)"
    "\<forall>cpu\<in>set m. \<exists>t. pins mc t cpu = Some True" "\<forall>cpu\<in>set k. \<exists>t. pins mc t cpu = Some False"
  using sweep_loop_swept [OF sweep_start_inv [where mc = mc and plan = plan, OF assms(1,2)] assms(3) [unfolded sweep_cores_def]]
  by auto

text \<open>
  Property C6: the sweep keeps its books. What it did with the selected cores is a run of the
  relation \<open>swept\<close>: every selected core is measured, skipped or left out, once and in order, and
  some are left out only by an interrupt; the two counters are the numbers of measured and
  skipped cores; there is one ch result for each measured core, in order and under its index,
  and one rbx result, except for the last core when an interrupt ended its ch run.
\<close>

theorem sweep_refines:
  assumes "work_ok work" and "sel_rbx (pl_probes plan) \<longrightarrow> rbx_ready (mc_symbols mc) state"
    and "length selected < 2 ^ 64"
    and "sweep_cores mc plan selected (sweep_start t lg work state) = Some s'"
  shows "\<exists>m k u. swept selected m k (sw_interrupted s') u
    \<and> mset selected = mset m + mset k + mset u \<and> (u \<noteq> [] \<longrightarrow> sw_interrupted s')
    \<and> unat (sw_measured s') = length m \<and> unat (sw_skipped s') = length k
    \<and> map rn_cpu_index (sw_results s') = (if sel_ch (pl_probes plan) then map ci_index m else [])
    \<and> (map rb_cpu_index (sw_rbx_results s') = (if sel_rbx (pl_probes plan) then map ci_index m else [])
       \<or> sw_interrupted s' \<and> map rb_cpu_index (sw_rbx_results s') = map ci_index (butlast m))"
  using assms(1,2,4)
proof (rule sweep_cores_swept)
  fix m k u
  assume s: "swept selected m k (sw_interrupted s') u"
    "map rn_cpu_index (sw_results s') = (if sel_ch (pl_probes plan) then map ci_index m else [])"
    "if sel_rbx (pl_probes plan)
     then map rb_cpu_index (sw_rbx_results s') = map ci_index m
       \<or> sw_interrupted s' \<and> map rb_cpu_index (sw_rbx_results s') = map ci_index (butlast m)
     else sw_rbx_results s' = []"
    "sw_measured s' = of_nat (length m)" "sw_skipped s' = of_nat (length k)"
  note parts = swept_parts [OF s(1)]
  then have "size (mset selected) = length m + length k + length u" by simp
  then have "length m < 2 ^ 64" "length k < 2 ^ 64" using assms(3) by simp_all
  then have "unat (sw_measured s') = length m" "unat (sw_skipped s') = length k"
    using s by (simp_all add: unat_of_nat take_bit_nat_eq_self)
  with parts s show ?thesis
    by - (rule exI [of _ m], rule exI [of _ k], rule exI [of _ u], auto split: if_splits)
qed


text \<open>
  What the books of a sweep say: \<open>m\<close>, \<open>k\<close> and \<open>u\<close> are the cores it measured, skipped and left out.
\<close>

definition sweep_account :: "machine \<Rightarrow> plan \<Rightarrow> cpu_info list \<Rightarrow> sweep \<Rightarrow> cpu_info list \<Rightarrow> cpu_info list \<Rightarrow> cpu_info list \<Rightarrow> bool" where
  "sweep_account mc plan selected s m k u \<longleftrightarrow> swept selected m k (sw_interrupted s) u
     \<and> unat (sw_measured s) = length m \<and> unat (sw_skipped s) = length k
     \<and> map rn_cpu_index (sw_results s) = (if sel_ch (pl_probes plan) then map ci_index m else [])
     \<and> (map rb_cpu_index (sw_rbx_results s) = (if sel_rbx (pl_probes plan) then map ci_index m else [])
        \<or> sw_interrupted s \<and> map rb_cpu_index (sw_rbx_results s) = map ci_index (butlast m))
     \<and> (\<forall>cpu\<in>set m. \<exists>t. pins mc t cpu = Some True) \<and> (\<forall>cpu\<in>set k. \<exists>t. pins mc t cpu = Some False)
     \<and> (sw_interrupted s \<longrightarrow> (\<exists>t. e_interrupt (mc_env mc) t))"

lemma sweep_accounted:
  assumes "work_ok work" and "sel_rbx (pl_probes plan) \<longrightarrow> rbx_ready (mc_symbols mc) state"
    and "length selected < 2 ^ 64"
    and "sweep_cores mc plan selected (sweep_start t lg work state) = Some s'"
  obtains m k u where "sweep_account mc plan selected s' m k u"
  using assms(1,2,4)
proof (rule sweep_cores_swept)
  fix m k u
  assume s: "swept selected m k (sw_interrupted s') u"
    "map rn_cpu_index (sw_results s') = (if sel_ch (pl_probes plan) then map ci_index m else [])"
    "if sel_rbx (pl_probes plan)
     then map rb_cpu_index (sw_rbx_results s') = map ci_index m
       \<or> sw_interrupted s' \<and> map rb_cpu_index (sw_rbx_results s') = map ci_index (butlast m)
     else sw_rbx_results s' = []"
    "sw_measured s' = of_nat (length m)" "sw_skipped s' = of_nat (length k)"
    "\<forall>cpu\<in>set m. \<exists>t. pins mc t cpu = Some True" "\<forall>cpu\<in>set k. \<exists>t. pins mc t cpu = Some False"
  have "size (mset selected) = length m + length k + length u" using swept_parts [OF s(1)] by simp
  then have "length m < 2 ^ 64" "length k < 2 ^ 64" using assms(3) by simp_all
  then have "unat (sw_measured s') = length m" "unat (sw_skipped s') = length k"
    using s by (simp_all add: unat_of_nat take_bit_nat_eq_self)
  moreover have "\<exists>t. e_interrupt (mc_env mc) t" if "sw_interrupted s'"
    using sweep_loop_interrupted [OF sweep_start_inv [where mc = mc and plan = plan, OF assms(1,2)] assms(4) [unfolded sweep_cores_def] _ that]
    by simp
  ultimately have "sweep_account mc plan selected s' m k u"
    using s unfolding sweep_account_def by (auto split: if_splits)
  then show thesis by (rule that)
qed

section \<open>A sound machine\<close>

text \<open>
  A machine whose cores read their registers right, whose payload keeps its contract, and whose
  clock reaches any time. It may be interrupted, and cores may refuse to be pinned.
\<close>

locale sound_machine =
  fixes mc :: machine and payload :: payload and usable :: "memory \<Rightarrow> bool"
  assumes cores: "sound_processor (mc_cpus mc)"
    and payloads: "mc_payloads mc = (\<lambda>_. payload)"
    and contract: "payload_contract (mc_symbols mc) payload usable"
    and clock: "\<exists>late. \<forall>k\<ge>late. T \<le> e_now (mc_env mc) k"
begin

definition quiet :: "plan \<Rightarrow> sweep \<Rightarrow> bool" where
  "quiet plan s \<longleftrightarrow> work_ok (sw_work s)
     \<and> (sel_rbx (pl_probes plan) \<longrightarrow> rbx_clean usable (mc_symbols mc) (sw_rbx s))
     \<and> (\<forall>r\<in>set (sw_results s). rn_detections r = 0) \<and> (\<forall>r\<in>set (sw_rbx_results s). rb_detections r = 0)"

lemma quiet_log [simp]: "quiet plan (s\<lparr>sw_log := lg\<rparr>) = quiet plan s"
  "quiet plan (s\<lparr>sw_tick := t\<rparr>) = quiet plan s"
  "quiet plan (s\<lparr>sw_measured := x\<rparr>) = quiet plan s"
  "quiet plan (s\<lparr>sw_skipped := x\<rparr>) = quiet plan s"
  "quiet plan (s\<lparr>sw_interrupted := i\<rparr>) = quiet plan s"
  by (simp_all add: quiet_def)

lemma quiet_ch:
  assumes "quiet plan s"
  shows "\<exists>i s'. probe_ch mc plan cpu s = Some (i, s') \<and> quiet plan s'"
proof -
  have w: "work_ok (sw_work s)" using assms by (simp add: quiet_def)
  obtain result t' lg' work' where run: "run_on_current_cpu (mc_env mc) (mc_cpus mc) (pl_layers plan) (ci_index cpu)
      (pl_seed plan) (pl_minutes plan) (sw_tick s) (sw_log s) (sw_work s) = Some (result, t', lg', work')"
    and "rn_detections result = 0"
    using sound_processor.sound_run [OF cores clock w, where t = "sw_tick s" and lg = "sw_log s"] by blast
  moreover have "work_ok work'" using run_gives [OF w run] by simp
  ultimately show ?thesis using assms by (auto simp: probe_ch_def quiet_def)
qed

lemma quiet_rbx:
  assumes "quiet plan s" and "sel_rbx (pl_probes plan)"
  shows "\<exists>i s'. probe_rbx mc plan cpu s = Some (i, s') \<and> quiet plan s'"
proof -
  have "rbx_clean usable (mc_symbols mc) (sw_rbx s)" using assms by (simp add: quiet_def)
  from payload_contract.quiet_run [OF contract clock this, where t = "sw_tick s" and lg = "sw_log s"]
  obtain result t' lg' state' where "run_rbx_on_current_cpu (mc_env mc) (mc_symbols mc) (mc_payloads mc) (mc_prctl mc)
      (ci_index cpu) (pl_minutes plan) (sw_tick s) (sw_log s) (sw_rbx s) = Some (result, t', lg', state')"
    "rb_detections result = 0" "rbx_clean usable (mc_symbols mc) state'"
    unfolding payloads by blast
  with assms show ?thesis by (auto simp: probe_rbx_def quiet_def)
qed

lemma quiet_measure:
  assumes "quiet plan s"
  shows "\<exists>i s'. measure_core mc plan cpu s = Some (i, s') \<and> quiet plan s'"
proof -
  obtain i1 s1 where 1: "(if sel_ch (pl_probes plan) then probe_ch mc plan cpu s else Some (False, s)) = Some (i1, s1)"
      "quiet plan s1"
    using quiet_ch [OF assms, of cpu] assms by (cases "sel_ch (pl_probes plan)") auto
  obtain i2 s2 where "(if sel_rbx (pl_probes plan) \<and> \<not> i1 then probe_rbx mc plan cpu s1 else Some (i1, s1)) = Some (i2, s2)"
      "quiet plan s2"
    using quiet_rbx [OF 1(2), of cpu] 1(2) by (cases "sel_rbx (pl_probes plan) \<and> \<not> i1") auto
  with 1 show ?thesis by (simp add: measure_core_def)
qed

lemma quiet_core:
  assumes "quiet plan s" and "pins mc (sw_tick s + 1) cpu \<noteq> None"
  shows "\<exists>broke s'. sweep_core mc plan cores n cpu s = Some (broke, s') \<and> quiet plan s'"
proof -
  have start: "quiet plan (start_core mc cores n cpu s)" if "quiet plan s" for s
    using that by (simp add: start_core_def Let_def)
  have end': "quiet plan (end_core cores n broke s) = quiet plan s" for broke s
    by (simp add: end_core_def)
  show ?thesis
  proof (cases "e_interrupt (mc_env mc) (sw_tick s) \<or> pins mc (sw_tick s + 1) cpu = Some False")
    case False
    then have pinned: "\<not> e_interrupt (mc_env mc) (sw_tick s)" "pins mc (sw_tick s + 1) cpu = Some True"
      using assms(2) by auto
    define s1 where "s1 = s\<lparr>sw_tick := sw_tick s + 1 + 1, sw_log := log_line (''--- cpu '' @ num (ci_index cpu) @ ''  (''
      @ dec (n + 1) @ '' of '' @ dec cores @ '') ---'') (sw_log s)\<rparr>"
    have "quiet plan s1" using assms(1) by (simp add: s1_def)
    from quiet_measure [OF start [OF this], of cpu] obtain broke s2 where
      "measure_core mc plan cpu (start_core mc cores n cpu s1) = Some (broke, s2)" "quiet plan s2" by blast
    with pinned show ?thesis unfolding sweep_core_def Let_def s1_def by (simp add: end')
  qed (use assms in \<open>auto simp: sweep_core_def Let_def\<close>)
qed

lemma quiet_loop: "quiet plan s \<Longrightarrow> \<forall>t. \<forall>cpu\<in>set cpus. pins mc t cpu \<noteq> None \<Longrightarrow> \<exists>s'. sweep_loop mc plan cores n cpus s = Some s' \<and> quiet plan s'"
proof (induction cpus arbitrary: n s)
  case (Cons cpu rest)
  obtain broke s1 where core: "sweep_core mc plan cores n cpu s = Some (broke, s1)" and "quiet plan s1"
    using quiet_core [OF Cons.prems(1), of cpu cores n] Cons.prems(2) by auto
  then show ?case using Cons.IH [OF \<open>quiet plan s1\<close>, of "n + 1"] Cons.prems(2) by (cases broke) auto
qed simp

lemma quiet_start:
  assumes "work_ok work" and "sel_rbx (pl_probes plan) \<longrightarrow> rbx_clean usable (mc_symbols mc) state"
  shows "quiet plan (sweep_start t lg work state)"
  using assms by (simp add: quiet_def)

lemma sound_sweep:
  assumes "work_ok work" and "sel_rbx (pl_probes plan) \<longrightarrow> rbx_clean usable (mc_symbols mc) state"
    and "\<forall>t. \<forall>cpu\<in>set selected. pins mc t cpu \<noteq> None"
  shows "\<exists>s'. sweep_cores mc plan selected (sweep_start t lg work state) = Some s'
    \<and> (\<forall>r\<in>set (sw_results s'). rn_detections r = 0) \<and> (\<forall>r\<in>set (sw_rbx_results s'). rb_detections r = 0)"
  using quiet_loop [OF quiet_start [where t = t and lg = lg, OF assms(1,2)] assms(3), of "length selected" 0]
  by (auto simp: sweep_cores_def quiet_def)

end

text \<open>Without an interrupt and with every core pinned, the sweep measures every core.\<close>

lemma measure_not_broken:
  assumes "\<And>t. \<not> e_interrupt (mc_env mc) t" and "sweep_inv mc plan s"
    and "measure_core mc plan cpu s = Some (broke, s')"
  shows "\<not> broke"
proof
  assume broke
  obtain i1 s1 where first: "(if sel_ch (pl_probes plan) then probe_ch mc plan cpu s else Some (False, s)) = Some (i1, s1)"
    using assms(3) by (auto simp: measure_core_def split: bind_splits)
  have 1: "\<not> i1 \<and> sweep_inv mc plan s1"
  proof (cases "sel_ch (pl_probes plan)")
    case True
    with first have "probe_ch mc plan cpu s = Some (i1, s1)" by simp
    from assms(2) this show ?thesis by (rule probe_ch_gives) (use assms(1) in auto)
  qed (use first assms(2) in simp)
  with assms(3) \<open>broke\<close> first
  obtain s2 where "(if sel_rbx (pl_probes plan) then probe_rbx mc plan cpu s1 else Some (False, s1)) = Some (True, s2)"
    by (auto simp: measure_core_def split: bind_splits)
  then have rbx: "sel_rbx (pl_probes plan)" "probe_rbx mc plan cpu s1 = Some (True, s2)"
    by (auto split: if_splits)
  from 1 [THEN conjunct2] rbx show False by (rule probe_rbx_gives) (use assms(1) in auto)
qed

lemma core_not_broken:
  assumes "\<And>t. \<not> e_interrupt (mc_env mc) t" and "sweep_inv mc plan s"
    and "sweep_core mc plan cores n cpu s = Some (broke, s')"
  shows "\<not> broke"
proof -
  from assms(2,3) show ?thesis
  proof (cases rule: sweep_core_cases)
    case (measured rs rbs)
    from assms(2,3) measured(1,2) obtain s0 s3 where "sweep_inv mc plan s0" "measure_core mc plan cpu s0 = Some (broke, s3)"
      by (rule sweep_core_pinned)
    from measure_not_broken [OF assms(1) this] show ?thesis .
  qed (use assms(1) in simp_all)
qed

lemma sweep_loop_all:
  assumes "\<And>t. \<not> e_interrupt (mc_env mc) t"
  shows "\<forall>t. \<forall>cpu\<in>set cpus. pins mc t cpu = Some True \<Longrightarrow> sweep_inv mc plan s \<Longrightarrow> sweep_loop mc plan cores n cpus s = Some s' \<Longrightarrow> \<not> sw_interrupted s
    \<Longrightarrow> \<not> sw_interrupted s' \<and> sw_measured s' = sw_measured s + of_nat (length cpus)"
proof (induction cpus arbitrary: n s)
  case (Cons cpu rest)
  obtain broke s1 where core: "sweep_core mc plan cores n cpu s = Some (broke, s1)"
    and rest: "if broke then s' = s1 else sweep_loop mc plan cores (n + 1) rest s1 = Some s'"
    using Cons.prems(3) by (auto split: bind_splits if_splits)
  note IH = Cons.IH
  have quiet: "\<not> broke" using core_not_broken [OF assms Cons.prems(2) core] .
  from Cons.prems(2) core show ?case
  proof (cases rule: sweep_core_cases)
    case measured
    then show ?thesis using IH [of s1 "n + 1"] rest quiet Cons.prems(1,4) by simp
  qed (use assms Cons.prems(1) in simp_all)
qed simp

section \<open>Witnesses\<close>

text \<open>A sound machine under Linux with the reference payload; core 1 refuses to be pinned.\<close>

definition lab_machine :: machine where
  "lab_machine =
     \<lparr>mc_env = tick_env, mc_grants = (\<lambda>_ request. request \<noteq> Cpu_Set {1}),
      mc_reports = (\<lambda>_. \<lparr>ar_affinity = None, ar_current = (0, 0)\<rparr>),
      mc_cpus = (\<lambda>_. healthy_cpu), mc_payloads = (\<lambda>_. repro_payload), mc_prctl = (\<lambda>_. True),
      mc_symbols = linux_symbols\<rparr>"

lemma lab_machine_sound: "sound_machine lab_machine repro_payload (\<lambda>_. True)"
  by (rule sound_machine.intro)
    (simp_all add: lab_machine_def repro_contract healthy.sound_processor_axioms tick_env_late)

interpretation lab: sound_machine lab_machine repro_payload "\<lambda>_. True"
  by (rule lab_machine_sound)

definition both_plan :: plan where
  "both_plan = \<lparr>pl_probes = \<lparr>sel_ch = True, sel_rbx = True\<rparr>, pl_seed = 42, pl_minutes = 1, pl_layers = 5\<rparr>"

definition two_cores :: "cpu_info list" where
  "two_cores = map (\<lambda>i. \<lparr>ci_index = i, ci_group = 0, ci_in_group = i\<rparr>) [0, 1]"

lemma lab_pins: "\<forall>t. \<forall>cpu\<in>set cpus. pins lab_machine t cpu \<noteq> None"
  by (simp add: lab_machine_def linux_symbols_def)

lemma sweep_refines_witness:
  "\<exists>s' m k u. sweep_cores lab_machine both_plan two_cores
      (sweep_start 0 (new_logger [] (\<lambda>_. None)) grid_work prepared) = Some s'
    \<and> mset two_cores = mset m + mset k + mset u \<and> unat (sw_measured s') = length m"
proof -
  have ready: "sel_rbx (pl_probes both_plan) \<longrightarrow> rbx_ready (mc_symbols lab_machine) prepared"
    and clean: "sel_rbx (pl_probes both_plan) \<longrightarrow> rbx_clean (\<lambda>_. True) (mc_symbols lab_machine) prepared"
    using prepared_ready prepared_clean by (simp_all add: lab_machine_def)
  have few: "length two_cores < 2 ^ 64" by (simp add: two_cores_def)
  obtain s' where run: "sweep_cores lab_machine both_plan two_cores
      (sweep_start 0 (new_logger [] (\<lambda>_. None)) grid_work prepared) = Some s'"
    using lab.sound_sweep [OF grid_work_ok clean lab_pins] by blast
  from sweep_refines [OF grid_work_ok ready few run] run show ?thesis by blast
qed

end
