(* ===== verification/Calibrate.thy ===== *)
theory Calibrate
  imports Run_Ch
begin

text \<open>
  Calibration (sdcprobe.cpp, \<open>probe_ns_per_sample\<close> and \<open>calibrate_layers\<close>): two timed passes
  fit a line through the cost of a check, the line is solved for the target, and the layer count
  is rounded and clamped. Doubles are IEEE binary64 computed exactly. A cast of a value that does
  not fit in an \<open>int\<close> is None.
\<close>

section \<open>Timing\<close>

definition k_calibration_rows :: nat where "k_calibration_rows = 125"
definition k_target_ns_per_sample :: f64 where "k_target_ns_per_sample = 0x406F400000000000" \<comment> \<open>250.0\<close>

definition probe_ns_per_sample ::
  "env \<Rightarrow> (nat \<Rightarrow> cpu) \<Rightarrow> u32 \<Rightarrow> int \<Rightarrow> nat \<Rightarrow> workspace \<Rightarrow> (f64 \<times> nat \<times> workspace) option" where
  "probe_ns_per_sample env cpus seed layers t work =
     do {
       let g_layers = sdc_set_load_layers layers;
       (sink, samples) \<leftarrow> compute_rows (cpus t) g_layers seed k_calibration_rows (ws_samples work);
       let start = e_now env (t + 1);
       (sink, samples) \<leftarrow> compute_rows (cpus (t + 2)) g_layers seed k_calibration_rows samples;
       let finish = e_now env (t + 3);
       let elapsed_ns = f64_of_int (finish - start);
       let sample_count = f64_mul (f64_of_nat k_calibration_rows) (f64_of_nat k_cols);
       Some (f64_div elapsed_ns sample_count, t + 4, work\<lparr>ws_samples := samples\<rparr>)
     }"

section \<open>The fit\<close>

definition fit_layers :: "f64 \<Rightarrow> f64 \<Rightarrow> int option" where
  "fit_layers low_ns high_ns =
     (let low_layers = 4;
          high_layers = 12;
          slope = f64_div (f64_sub high_ns low_ns) (f64_of_nat (high_layers - low_layers))
      in if f64_less 0 slope then
           let intercept = f64_sub low_ns (f64_mul slope (f64_of_nat low_layers));
               ideal = f64_div (f64_sub k_target_ns_per_sample intercept) slope
           in do {
                chosen \<leftarrow> int32_of_fp (fp64 (f64_add ideal 0x3FE0000000000000));
                let chosen = (if chosen < k_load_layers_min then k_load_layers_min else chosen);
                Some (if chosen > k_load_layers_max then k_load_layers_max else chosen)
              }
         else Some k_load_layers_default)"

definition calibration_line :: "int \<Rightarrow> f64 \<Rightarrow> string" where
  "calibration_line chosen achieved =
     ''calibration: '' @ dec_int chosen @ '' layers -> '' @ fixed 0 (fp64 achieved)
     @ '' ns per check (target '' @ fixed 0 (fp64 k_target_ns_per_sample) @ '')''"

definition calibrate_layers ::
  "env \<Rightarrow> (nat \<Rightarrow> cpu) \<Rightarrow> u32 \<Rightarrow> nat \<Rightarrow> logger \<Rightarrow> workspace \<Rightarrow> (int \<times> nat \<times> logger \<times> workspace) option" where
  \<comment> \<open>the layer count it leaves set\<close>
  "calibrate_layers env cpus seed t lg work =
     do {
       (low_ns, t, work) \<leftarrow> probe_ns_per_sample env cpus seed 4 t work;
       (high_ns, t, work) \<leftarrow> probe_ns_per_sample env cpus seed 12 t work;
       chosen \<leftarrow> fit_layers low_ns high_ns;
       (achieved, t, work) \<leftarrow> probe_ns_per_sample env cpus seed chosen t work;
       Some (sdc_set_load_layers chosen, t, log_line (calibration_line chosen achieved) lg, work)
     }"

section \<open>What it returns\<close>

lemma fit_layers_range:
  "fit_layers low_ns high_ns = Some chosen \<Longrightarrow> k_load_layers_min \<le> chosen \<and> chosen \<le> k_load_layers_max"
  by (auto simp: fit_layers_def Let_def k_load_layers_min_def k_load_layers_max_def k_load_layers_default_def
      split: if_splits bind_splits)

lemma layers_in_range:
  "k_load_layers_min \<le> n \<Longrightarrow> n \<le> k_load_layers_max \<Longrightarrow> sdc_set_load_layers n = n"
  by (simp add: sdc_set_load_layers_def k_load_layers_min_def k_load_layers_max_def Let_def)

text \<open>The timing of a pass depends on the two clock readings around it only.\<close>

definition timed_ns :: "env \<Rightarrow> nat \<Rightarrow> f64" where
  "timed_ns env t = f64_div (f64_of_int (e_now env (t + 3) - e_now env (t + 1)))
     (f64_mul (f64_of_nat k_calibration_rows) (f64_of_nat k_cols))"

lemma probe_returns:
  assumes "work_ok work"
  obtains work' where "probe_ns_per_sample env cpus seed layers t work = Some (timed_ns env t, t + 4, work')"
    and "work_ok work'"
proof -
  let ?n = "k_calibration_rows * k_cols"
  have fits: "?n \<le> length (ws_samples work)"
    using assms by (simp add: work_ok_def k_calibration_rows_def k_rows_def k_cols_def)
  note first = compute_rows_eq [OF fits, of "cpus t" "sdc_set_load_layers layers" seed]
  define s1 where "s1 = grid_values (cpus t) (sdc_set_load_layers layers) seed ?n @ drop ?n (ws_samples work)"
  have len: "length s1 = length (ws_samples work)" using fits by (simp add: s1_def)
  then have "?n \<le> length s1" using fits by simp
  note second = compute_rows_eq [OF this, of "cpus (t + 2)" "sdc_set_load_layers layers" seed]
  have "work_ok (work\<lparr>ws_samples := grid_values (cpus (t + 2)) (sdc_set_load_layers layers) seed ?n @ drop ?n s1\<rparr>)"
    using assms fits len by (simp add: work_ok_def)
  moreover have "probe_ns_per_sample env cpus seed layers t work = Some (timed_ns env t, t + 4,
      work\<lparr>ws_samples := grid_values (cpus (t + 2)) (sdc_set_load_layers layers) seed ?n @ drop ?n s1\<rparr>)"
    using first second by (simp add: probe_ns_per_sample_def timed_ns_def s1_def Let_def)
  ultimately show thesis by (intro that)
qed

lemma calibrate_gives:
  assumes "work_ok work"
  shows "case calibrate_layers env cpus seed t lg work of
      Some (layers, t', lg', work') \<Rightarrow> fit_layers (timed_ns env t) (timed_ns env (t + 4)) = Some layers
        \<and> 1 \<le> layers \<and> layers \<le> 64 \<and> t' = t + 12 \<and> work_ok work'
    | None \<Rightarrow> fit_layers (timed_ns env t) (timed_ns env (t + 4)) = None"
proof -
  obtain w1 where p1: "probe_ns_per_sample env cpus seed 4 t work = Some (timed_ns env t, t + 4, w1)" "work_ok w1"
    using assms by (rule probe_returns)
  obtain w2 where p2: "probe_ns_per_sample env cpus seed 12 (t + 4) w1 = Some (timed_ns env (t + 4), t + 4 + 4, w2)" "work_ok w2"
    using p1(2) by (rule probe_returns)
  show ?thesis
  proof (cases "fit_layers (timed_ns env t) (timed_ns env (t + 4))")
    case None
    with p1 p2 show ?thesis by (simp add: calibrate_layers_def)
  next
    case (Some chosen)
    note range = fit_layers_range [OF Some]
    obtain w3 where "probe_ns_per_sample env cpus seed chosen (t + 4 + 4) w2
        = Some (timed_ns env (t + 4 + 4), t + 4 + 4 + 4, w3)" "work_ok w3"
      using p2(2) by (rule probe_returns)
    with p1 p2 Some range layers_in_range show ?thesis
      by (simp add: calibrate_layers_def k_load_layers_min_def k_load_layers_max_def)
  qed
qed

lemma fit_layers_None:
  "fit_layers low high = None \<longleftrightarrow>
        (let slope = f64_div (f64_sub high low) (f64_of_nat 8);
             ideal = f64_div (f64_sub k_target_ns_per_sample (f64_sub low (f64_mul slope (f64_of_nat 4)))) slope
         in f64_less 0 slope \<and> int32_of_fp (fp64 (f64_add ideal 0x3FE0000000000000)) = None)"
  by (auto simp: fit_layers_def Let_def split: bind_splits)

text \<open>
  Property C19: calibration chooses a legal layer count, or is undefined in one place. It returns
  exactly when the fit of the two timings does, and then with a layer count within 1..64 that is
  the one set, after twelve questions to the environment, with the workspace's sizes kept; and
  the fit fails only if the second timing is the larger one and the unclamped solution, rounded,
  does not fit in an \<open>int\<close>.
\<close>

theorem calibration_range:
  assumes "work_ok work"
  shows "(case calibrate_layers env cpus seed t lg work of
      Some (layers, t', lg', work') \<Rightarrow> fit_layers (timed_ns env t) (timed_ns env (t + 4)) = Some layers
        \<and> 1 \<le> layers \<and> layers \<le> 64 \<and> t' = t + 12 \<and> work_ok work'
    | None \<Rightarrow> fit_layers (timed_ns env t) (timed_ns env (t + 4)) = None)
    \<and> (fit_layers low high = None \<longleftrightarrow>
        (let slope = f64_div (f64_sub high low) (f64_of_nat 8);
             ideal = f64_div (f64_sub k_target_ns_per_sample (f64_sub low (f64_mul slope (f64_of_nat 4)))) slope
         in f64_less 0 slope \<and> int32_of_fp (fp64 (f64_add ideal 0x3FE0000000000000)) = None))"
  by (intro conjI calibrate_gives [OF assms] fit_layers_None)

section \<open>Concrete timings\<close>

lemmas f64_eval = f64_sub_def f64_add_def f64_mul_def f64_div_def f64_less_def f64_of_nat_def fp64_def
  fp_decode_def to_f64_def round_to_def round_bits_def bit_length.simps emin_def fp_pack_def fp_inf_bits_def
  shift_rne_def binary64_def fp_sub_def signed_mant_def Let_def

lemma grid_count: "f64_mul (f64_of_nat k_calibration_rows) (f64_of_nat k_cols) = 0x40E86A0000000000"
  by (simp add: f64_eval k_calibration_rows_def k_cols_def)

text \<open>A machine on which a check takes 200 ns with 4 layers and 600 ns with 12, and one on which
  50000 checks take a second with 4 layers and one nanosecond more with 12.\<close>

definition clock_env :: "(nat \<Rightarrow> int) \<Rightarrow> env" where
  "clock_env now = \<lparr>e_now = now, e_interrupt = (\<lambda>_. False), e_stamp = (\<lambda>_. None)\<rparr>"

definition good_clock :: "nat \<Rightarrow> int" where
  "good_clock t = (if t < 3 then 0 else if t < 7 then 10000000 else 40000000)"

definition slow_clock :: "nat \<Rightarrow> int" where
  "slow_clock t = (if t < 3 then 0 else if t < 7 then 1000000000 else 2000000001)"

lemma timed_good: "timed_ns (clock_env good_clock) 0 = 0x4069000000000000"
  "timed_ns (clock_env good_clock) 4 = 0x4082C00000000000"
  unfolding timed_ns_def grid_count
  by (simp_all add: clock_env_def good_clock_def f64_of_int_def f64_eval)

lemma timed_slow: "timed_ns (clock_env slow_clock) 0 = 0x40D3880000000000"
  "timed_ns (clock_env slow_clock) 4 = 0x40D388000053E2D6"
  unfolding timed_ns_def grid_count
  by (simp_all add: clock_env_def slow_clock_def f64_of_int_def f64_eval)

lemma fit_good: "fit_layers 0x4069000000000000 0x4082C00000000000 = Some 5"
proof -
  have "f64_sub 0x4082C00000000000 0x4069000000000000 = 0x4079000000000000"
    "f64_div 0x4079000000000000 (f64_of_nat 8) = 0x4049000000000000"
    "f64_less 0 0x4049000000000000"
    "f64_mul 0x4049000000000000 (f64_of_nat 4) = 0x4069000000000000"
    "f64_sub 0x4069000000000000 0x4069000000000000 = 0"
    "f64_sub k_target_ns_per_sample 0 = 0x406F400000000000"
    "f64_div 0x406F400000000000 0x4049000000000000 = 0x4014000000000000"
    "int32_of_fp (fp64 (f64_add 0x4014000000000000 0x3FE0000000000000)) = Some 5"
    by (simp_all add: f64_eval k_target_ns_per_sample_def int32_of_fp_def)
  then show ?thesis by (simp add: fit_layers_def k_load_layers_min_def k_load_layers_max_def)
qed

lemma fit_slow: "fit_layers 0x40D3880000000000 0x40D388000053E2D6 = None"
proof -
  have "f64_sub 0x40D388000053E2D6 0x40D3880000000000 = 0x3EF4F8B580000000"
    "f64_div 0x3EF4F8B580000000 (f64_of_nat 8) = 0x3EC4F8B580000000"
    "f64_less 0 0x3EC4F8B580000000"
    "f64_mul 0x3EC4F8B580000000 (f64_of_nat 4) = 0x3EE4F8B580000000"
    "f64_sub 0x40D3880000000000 0x3EE4F8B580000000 = 0x40D387FFFFD60E95"
    "f64_sub k_target_ns_per_sample 0x40D387FFFFD60E95 = 0xC0D3497FFFD60E95"
    "f64_div 0xC0D3497FFFD60E95 0x3EC4F8B580000000 = 0xC1FD6E06FC3921F6"
    "int32_of_fp (fp64 (f64_add 0xC1FD6E06FC3921F6 0x3FE0000000000000)) = None"
    by (simp_all add: f64_eval k_target_ns_per_sample_def int32_of_fp_def)
  then show ?thesis by (simp add: fit_layers_def)
qed

lemma calibration_range_witness:
  "\<exists>t' lg' work'. calibrate_layers (clock_env good_clock) (\<lambda>_. healthy_cpu) 42 0 (new_logger [] (\<lambda>_. None)) grid_work
     = Some (5, t', lg', work') \<and> work_ok work'"
  using calibration_range [where env = "clock_env good_clock" and cpus = "\<lambda>_. healthy_cpu"
      and seed = 42 and t = 0 and lg = "new_logger [] (\<lambda>_. None)", OF grid_work_ok, THEN conjunct1]
  by (auto simp: timed_good fit_good split: option.splits)

text \<open>
  The clamp comes too late for a nonsensical fit. On a machine whose clock shows
  one second for the pass with 4 layers and one nanosecond more for the pass with 12, the
  solution is about minus eight thousand million layers, and the cast to \<open>int\<close> before the clamp
  is undefined.
\<close>

theorem clamp_after_cast:
  "calibrate_layers (clock_env slow_clock) cpus seed 0 lg (new_workspace (k_rows * k_cols)) = None"
proof -
  obtain w1 where p1: "probe_ns_per_sample (clock_env slow_clock) cpus seed 4 0 (new_workspace (k_rows * k_cols))
      = Some (timed_ns (clock_env slow_clock) 0, 0 + 4, w1)" "work_ok w1"
    using work_ok_new by (rule probe_returns)
  obtain w2 where "probe_ns_per_sample (clock_env slow_clock) cpus seed 12 (0 + 4) w1
      = Some (timed_ns (clock_env slow_clock) (0 + 4), 0 + 4 + 4, w2)"
    using p1(2) by (rule probe_returns)
  with p1 show ?thesis by (simp add: calibrate_layers_def timed_slow fit_slow)
qed

end
