(* ===== verification/Verdict.thy ===== *)
theory Verdict
  imports Sweep Calibrate
begin

text \<open>
  The end of \<open>main\<close> (sdcprobe.cpp): the totals over the results, the summary of each probe, the
  verdict and the exit code. What is written is a list of events of the logger. The lemmas show
  what each exit code means, and what the report of a fault names.
\<close>

section \<open>Exit codes\<close>

definition k_exit_clean :: int where "k_exit_clean = 0"
definition k_exit_detected :: int where "k_exit_detected = 1"
definition k_exit_usage :: int where "k_exit_usage = 2"
definition k_exit_self_test_failed :: int where "k_exit_self_test_failed = 3"
definition k_exit_interrupted :: int where "k_exit_interrupted = 4"

section \<open>Totals\<close>

record ch_totals =
  ct_rounds :: u64
  ct_checks :: u64
  ct_detections :: u64
  ct_lanes :: "u64 list"
  ct_unexplained :: u64
  ct_drift :: u64
  ct_elapsed_s :: f64
  ct_worst_ns :: f64

definition add_ch :: "run_result \<Rightarrow> ch_totals \<Rightarrow> ch_totals" where
  "add_ch r tt =
     \<lparr>ct_rounds = ct_rounds tt + rn_rounds r, ct_checks = ct_checks tt + rn_checks r,
      ct_detections = ct_detections tt + rn_detections r,
      ct_lanes = map2 (+) (ct_lanes tt) (rn_lane_counts r),
      ct_unexplained = ct_unexplained tt + rn_unexplained r, ct_drift = ct_drift tt + rn_value_drift r,
      ct_elapsed_s = f64_add (ct_elapsed_s tt) (rn_elapsed_s r),
      ct_worst_ns = (if f64_less (ct_worst_ns tt) (rn_ns_per_check r) then rn_ns_per_check r else ct_worst_ns tt)\<rparr>"

definition total_ch :: "run_result list \<Rightarrow> ch_totals" where
  "total_ch results = fold add_ch results
     \<lparr>ct_rounds = 0, ct_checks = 0, ct_detections = 0, ct_lanes = [0, 0, 0, 0], ct_unexplained = 0,
      ct_drift = 0, ct_elapsed_s = 0, ct_worst_ns = 0\<rparr>"

record rbx_totals =
  bt_passes :: u64
  bt_calls :: u64
  bt_detections :: u64
  bt_signature :: u64
  bt_other :: u64
  bt_mismatch :: u64
  bt_elapsed_s :: f64

definition add_rbx :: "rbx_run_result \<Rightarrow> rbx_totals \<Rightarrow> rbx_totals" where
  "add_rbx r tt =
     \<lparr>bt_passes = bt_passes tt + rb_passes r, bt_calls = bt_calls tt + rb_calls r,
      bt_detections = bt_detections tt + rb_detections r, bt_signature = bt_signature tt + rb_signature r,
      bt_other = bt_other tt + rb_other_fault r, bt_mismatch = bt_mismatch tt + rb_mismatch r,
      bt_elapsed_s = f64_add (bt_elapsed_s tt) (rb_elapsed_s r)\<rparr>"

definition total_rbx :: "rbx_run_result list \<Rightarrow> rbx_totals" where
  "total_rbx results = fold add_rbx results
     \<lparr>bt_passes = 0, bt_calls = 0, bt_detections = 0, bt_signature = 0, bt_other = 0, bt_mismatch = 0,
      bt_elapsed_s = 0\<rparr>"

section \<open>The summary\<close>

definition k_ns_tolerance_factor :: f64 where "k_ns_tolerance_factor = 0x4004000000000000" \<comment> \<open>2.5\<close>
definition f64_3600 :: f64 where "f64_3600 = 0x40AC200000000000"

definition off_pace :: "f64 \<Rightarrow> bool" where
  "off_pace worst_ns \<longleftrightarrow> f64_less 0 worst_ns
     \<and> (f64_less (f64_mul k_target_ns_per_sample k_ns_tolerance_factor) worst_ns
        \<or> f64_less worst_ns (f64_div k_target_ns_per_sample k_ns_tolerance_factor))"

definition ch_row :: "run_result \<Rightarrow> string" where
  "ch_row r =
     ''  '' @ pad_right 5 (num (rn_cpu_index r)) @ ''  '' @ pad_right 11 (num (rn_rounds r))
     @ ''  '' @ pad_right 13 (num (rn_checks r)) @ ''  '' @ pad_right 11 (num (rn_detections r))
     @ ''  '' @ pad_right 5 (num (rn_lane_counts r ! 0)) @ '' '' @ pad_right 5 (num (rn_lane_counts r ! 1))
     @ '' '' @ pad_right 5 (num (rn_lane_counts r ! 2)) @ '' '' @ pad_right 5 (num (rn_lane_counts r ! 3))
     @ '' '' @ num (rn_unexplained r)"

definition tested_line :: "nat \<Rightarrow> nat \<Rightarrow> u64 \<Rightarrow> string" where
  "tested_line tested selected skipped =
     ''cores tested:      '' @ dec tested @ '' of '' @ dec selected @ ''   (skipped '' @ num skipped @ '')''"

definition elapsed_line :: "f64 \<Rightarrow> string" where
  "elapsed_line s =
     ''elapsed:           '' @ fixed 1 (fp64 s) @ '' s ('' @ fixed 2 (fp64 (f64_div s f64_3600)) @ '' h)''"

definition pace_warning :: "f64 \<Rightarrow> event list" where
  "pace_warning worst_ns =
     (if off_pace worst_ns
      then [Blank,
            Line (''WARNING: '' @ fixed 0 (fp64 worst_ns) @ '' ns per check, expected around ''
              @ fixed 0 (fp64 k_target_ns_per_sample) @ ''. The workload is not pacing''),
            Line ''this machine as intended, so sensitivity is reduced. Try --layers N.'']
      else [])"

definition ch_summary :: "nat \<Rightarrow> u64 \<Rightarrow> int \<Rightarrow> run_result list \<Rightarrow> event list" where
  "ch_summary selected skipped layers results =
     (let tt = total_ch results in
      [Line ''=========================== SUMMARY ==========================='',
       Line ''  cpu    rounds       checks         detections   L0    L1    L2    L3   multi'']
      @ map (\<lambda>r. Line (ch_row r)) results
      @ [Line ''---------------------------------------------------------------'',
         Line (tested_line (length results) selected skipped),
         Line (''workload:          '' @ dec_int layers @ '' layers, '' @ fixed 0 (fp64 (ct_worst_ns tt)) @ '' ns per check''),
         Line (elapsed_line (ct_elapsed_s tt)),
         Line (''rounds performed:  '' @ num (ct_rounds tt)),
         Line (''CHECKS PERFORMED:  '' @ num (ct_checks tt) @ ''   (one check = one CH read verified against memory)''),
         Line (''detections:        '' @ num (ct_detections tt)),
         Line (''lanes:             L0(cl) '' @ num (ct_lanes tt ! 0) @ ''   L1(ch) '' @ num (ct_lanes tt ! 1)
           @ ''   L2(shr16) '' @ num (ct_lanes tt ! 2) @ ''   L3(shr24) '' @ num (ct_lanes tt ! 3)
           @ ''   multi-byte '' @ num (ct_unexplained tt)),
         Line (''value drift:       '' @ num (ct_drift tt) @ ''   (samples differing from round 0)'')]
      @ pace_warning (ct_worst_ns tt) @ [Blank])"

definition rbx_row :: "rbx_run_result \<Rightarrow> string" where
  "rbx_row r =
     ''  '' @ pad_right 5 (num (rb_cpu_index r)) @ ''  '' @ pad_right 11 (num (rb_passes r))
     @ ''  '' @ pad_right 13 (num (rb_calls r)) @ ''  '' @ pad_right 11 (num (rb_detections r))
     @ ''  '' @ pad_right 10 (num (rb_signature r)) @ ''  '' @ pad_right 5 (num (rb_other_fault r))
     @ ''  '' @ num (rb_mismatch r)"

definition rbx_summary :: "nat \<Rightarrow> u64 \<Rightarrow> rbx_run_result list \<Rightarrow> event list" where
  "rbx_summary selected skipped results =
     (let tt = total_rbx results in
      [Line ''======================== SUMMARY: rbx ========================'',
       Line ''  cpu    passes       calls          detections   frame-base  other  hash'']
      @ map (\<lambda>r. Line (rbx_row r)) results
      @ [Line ''---------------------------------------------------------------'',
         Line (tested_line (length results) selected skipped),
         Line (elapsed_line (bt_elapsed_s tt)),
         Line (''passes performed:  '' @ num (bt_passes tt)),
         Line (''CALLS PERFORMED:   '' @ num (bt_calls tt)
           @ ''   (one call = one frame set up, used and torn down through rbx)''),
         Line (''detections:        '' @ num (bt_detections tt)),
         Line (''kinds:             frame base moved by 0xa0: '' @ num (bt_signature tt) @ ''   other fault: ''
           @ num (bt_other tt) @ ''   wrong hash: '' @ num (bt_mismatch tt)),
         Blank])"

section \<open>The verdict\<close>

definition across :: "nat \<Rightarrow> string" where
  "across cores = '' across '' @ dec cores @ '' core(s)''"

definition affected_ch :: "run_result \<Rightarrow> string" where
  "affected_ch r = ''  cpu '' @ num (rn_cpu_index r) @ '' - '' @ num (rn_detections r) @ '' detections in ''
     @ num (rn_checks r) @ '' checks''"

definition ch_verdict :: "run_result list \<Rightarrow> bool \<Rightarrow> event list" where
  "ch_verdict results interrupted =
     (let tt = total_ch results in
      if ct_detections tt \<noteq> 0 then
        [Line (''RESULT: CH MISREAD DETECTED - '' @ num (ct_detections tt) @ '' detections in '' @ num (ct_checks tt)
           @ '' checks'' @ across (length results)),
         Line ''A byte read through the legacy high-byte register did not match the same byte'',
         Line ''read from memory, within one pass over identical data. That cannot be a'',
         Line ''software bug: the instruction sequence is deterministic.'',
         Line ''Affected cores:'']
        @ map (\<lambda>r. Line (affected_ch r)) (filter (\<lambda>r. rn_detections r \<noteq> 0) results)
      else if interrupted then
        [Line (''RESULT: INTERRUPTED - no misread in '' @ num (ct_checks tt) @ '' checks'' @ across (length results) @ '' so far''),
         Line ''The sweep did not finish, so this is not a clean result. It is a partial one.'']
      else
        [Line (''RESULT: CLEAN - no misread in '' @ num (ct_checks tt) @ '' checks'' @ across (length results)),
         Line ''This means the fault did not reproduce here, not that the machine is sound.''])"

definition affected_rbx :: "rbx_run_result \<Rightarrow> string" where
  "affected_rbx r = ''  cpu '' @ num (rb_cpu_index r) @ '' - '' @ num (rb_detections r) @ '' detections in ''
     @ num (rb_calls r) @ '' calls''"

definition rbx_verdict :: "rbx_run_result list \<Rightarrow> bool \<Rightarrow> event list" where
  "rbx_verdict results interrupted =
     (let tt = total_rbx results in
      if bt_detections tt \<noteq> 0 then
        [Line (''RESULT: RBX FAULT DETECTED - '' @ num (bt_detections tt) @ '' detections in '' @ num (bt_calls tt)
           @ '' calls'' @ across (length results)),
         Line ''Code that runs correctly billions of times in a row raised a hardware'',
         Line ''exception, on data that never changes. Where the registers show rbx ahead of'',
         Line ''rsp by 0xa0, the function's frame base changed with no instruction writing it.'',
         Line ''Affected cores:'']
        @ map (\<lambda>r. Line (affected_rbx r)) (filter (\<lambda>r. rb_detections r \<noteq> 0) results)
      else if interrupted then
        [Line (''RESULT: INTERRUPTED - no rbx fault in '' @ num (bt_calls tt) @ '' calls'' @ across (length results) @ '' so far''),
         Line ''The sweep did not finish, so this is not a clean result. It is a partial one.'']
      else
        [Line (''RESULT: CLEAN - no rbx fault in '' @ num (bt_calls tt) @ '' calls'' @ across (length results)),
         Line ''This means the fault did not reproduce here, not that the machine is sound.''])"

definition nothing_tested :: "event list" where
  "nothing_tested =
     [Line ''RESULT: NOTHING TESTED - no core was measured'',
      Line ''Pinning failed on every selected core, so no checks were performed. This is'',
      Line ''not a clean result. Check whether the process is allowed to set affinity.'']"

definition finish_report :: "logger \<Rightarrow> logger" where
  "finish_report lg =
     log_close (if has_file lg then log_line (''Report written to '' @ c_str (lg_path lg)) (log_blank lg) else lg)"

definition summary :: "probe_selection \<Rightarrow> nat \<Rightarrow> int \<Rightarrow> sweep \<Rightarrow> event list" where
  "summary probes selected layers s =
     (if sel_ch probes then ch_summary selected (sw_skipped s) layers (sw_results s) else [])
     @ (if sel_rbx probes then rbx_summary selected (sw_skipped s) (sw_rbx_results s) else [])"

definition verdict :: "probe_selection \<Rightarrow> sweep \<Rightarrow> event list" where
  "verdict probes s =
     (if sel_ch probes then ch_verdict (sw_results s) (sw_interrupted s) else [])
     @ (if sel_rbx probes then (if sel_ch probes then [Blank] else []) @ rbx_verdict (sw_rbx_results s) (sw_interrupted s)
        else [])"

definition conclude :: "probe_selection \<Rightarrow> nat \<Rightarrow> int \<Rightarrow> sweep \<Rightarrow> int \<times> logger" where
  \<comment> \<open>from the end of the sweep to the exit code\<close>
  "conclude probes selected layers s =
     (let lg = fold log_event (summary probes selected layers s) (sw_log s) in
      if sw_measured s = 0 then (k_exit_usage, finish_report (fold log_event nothing_tested lg))
      else
        (if ct_detections (total_ch (sw_results s)) \<noteq> 0 \<or> bt_detections (total_rbx (sw_rbx_results s)) \<noteq> 0
         then k_exit_detected
         else if sw_interrupted s then k_exit_interrupted
         else k_exit_clean,
         finish_report (fold log_event (verdict probes s) lg)))"

section \<open>The totals\<close>

lemma fold_add_ch:
  "ct_detections (fold add_ch rs tt) = ct_detections tt + sum_list (map rn_detections rs)"
  "ct_checks (fold add_ch rs tt) = ct_checks tt + sum_list (map rn_checks rs)"
  "ct_rounds (fold add_ch rs tt) = ct_rounds tt + sum_list (map rn_rounds rs)"
  "ct_unexplained (fold add_ch rs tt) = ct_unexplained tt + sum_list (map rn_unexplained rs)"
  by (induction rs arbitrary: tt) (simp_all add: add_ch_def add.assoc)

lemma fold_add_rbx:
  "bt_detections (fold add_rbx rs tt) = bt_detections tt + sum_list (map rb_detections rs)"
  "bt_calls (fold add_rbx rs tt) = bt_calls tt + sum_list (map rb_calls rs)"
  "bt_passes (fold add_rbx rs tt) = bt_passes tt + sum_list (map rb_passes rs)"
  "bt_signature (fold add_rbx rs tt) = bt_signature tt + sum_list (map rb_signature rs)"
  "bt_other (fold add_rbx rs tt) = bt_other tt + sum_list (map rb_other_fault rs)"
  "bt_mismatch (fold add_rbx rs tt) = bt_mismatch tt + sum_list (map rb_mismatch rs)"
  by (induction rs arbitrary: tt) (simp_all add: add_rbx_def add.assoc)

lemmas total_simps = total_ch_def total_rbx_def fold_add_ch fold_add_rbx

lemma sum_list_map2_add:
  "length xs = length ys \<Longrightarrow> sum_list (map2 (+) xs ys) = sum_list xs + (sum_list ys :: 'a::comm_monoid_add)"
  by (induction xs ys rule: list_induct2) (simp_all add: ac_simps)

lemma fold_add_lanes:
  "length (ct_lanes tt) = 4 \<Longrightarrow> \<forall>r\<in>set rs. length (rn_lane_counts r) = 4
    \<Longrightarrow> length (ct_lanes (fold add_ch rs tt)) = 4
      \<and> sum_list (ct_lanes (fold add_ch rs tt)) = sum_list (ct_lanes tt) + sum_list (map (sum_list \<circ> rn_lane_counts) rs)"
  by (induction rs arbitrary: tt) (simp_all add: add_ch_def sum_list_map2_add add.assoc)

lemma fold_add_lane:
  "length (ct_lanes tt) = 4 \<Longrightarrow> \<forall>r\<in>set rs. length (rn_lane_counts r) = 4 \<Longrightarrow> i < 4
    \<Longrightarrow> ct_lanes (fold add_ch rs tt) ! i = ct_lanes tt ! i + sum_list (map (\<lambda>r. rn_lane_counts r ! i) rs)"
  by (induction rs arbitrary: tt) (simp_all add: add_ch_def add.assoc)

lemma sum_list_run_ok:
  "\<forall>r\<in>set rs. run_ok (rn_cpu_index r) r \<Longrightarrow>
     sum_list (map rn_detections rs) = sum_list (map (sum_list \<circ> rn_lane_counts) rs) + sum_list (map rn_unexplained rs)
     \<and> sum_list (map rn_checks rs) = sum_list (map rn_rounds rs) * 100000"
  by (induction rs) (simp_all add: run_ok_def algebra_simps)

lemma sum_list_rbx_ok:
  "\<forall>r\<in>set rs. rbx_run_ok (rb_cpu_index r) r \<Longrightarrow>
     sum_list (map rb_detections rs) = sum_list (map rb_signature rs) + sum_list (map rb_other_fault rs) + sum_list (map rb_mismatch rs)
     \<and> sum_list (map rb_calls rs) = sum_list (map rb_passes rs) * 262144"
  by (induction rs) (simp_all add: rbx_run_ok_def algebra_simps)

text \<open>
  Property C21: the summary adds up. After any sweep the total of the detections is the sum of
  the four lane totals and of the multi-byte ones, the checks are 100000 per round; and on the
  rbx side the detections are the sum of the three kinds, and the calls are 262144 per pass.
\<close>

theorem totals_account:
  assumes "work_ok work" and "sel_rbx (pl_probes plan) \<longrightarrow> rbx_ready (mc_symbols mc) state"
    and "sweep_cores mc plan selected (sweep_start t lg work state) = Some s'"
  shows "(let tt = total_ch (sw_results s') in
      ct_detections tt = ct_lanes tt ! 0 + ct_lanes tt ! 1 + ct_lanes tt ! 2 + ct_lanes tt ! 3 + ct_unexplained tt
      \<and> ct_checks tt = ct_rounds tt * 100000)
    \<and> (let tt = total_rbx (sw_rbx_results s') in
      bt_detections tt = bt_signature tt + bt_other tt + bt_mismatch tt \<and> bt_calls tt = bt_passes tt * 262144)"
  using assms
proof (rule sweep_cores_swept)
  assume "sweep_inv mc plan s'"
  then have ok: "\<forall>r\<in>set (sw_results s'). run_ok (rn_cpu_index r) r"
    "\<forall>r\<in>set (sw_rbx_results s'). rbx_run_ok (rb_cpu_index r) r"
    by (simp_all add: sweep_inv_def)
  have four: "\<forall>r\<in>set (sw_results s'). length (rn_lane_counts r) = 4" using ok(1) by (auto simp: run_ok_def)
  have lanes: "length (ct_lanes (total_ch (sw_results s'))) = 4"
      "sum_list (ct_lanes (total_ch (sw_results s'))) = sum_list (map (sum_list \<circ> rn_lane_counts) (sw_results s'))"
    unfolding total_ch_def using fold_add_lanes [OF _ four] by simp_all
  then have "sum_list (ct_lanes (total_ch (sw_results s')))
      = ct_lanes (total_ch (sw_results s')) ! 0 + ct_lanes (total_ch (sw_results s')) ! 1
        + ct_lanes (total_ch (sw_results s')) ! 2 + ct_lanes (total_ch (sw_results s')) ! 3"
    by (simp add: sum_list_sum_nth eval_nat_numeral atLeast0_lessThan_Suc ac_simps)
  with lanes sum_list_run_ok [OF ok(1)] sum_list_rbx_ok [OF ok(2)] show ?thesis
    by (simp add: Let_def total_simps)
qed

section \<open>What an exit code means\<close>

lemma word_sum_zero:
  "sum_list (map (\<lambda>x. unat (f x)) xs) < 2 ^ LENGTH('a) \<Longrightarrow>
     sum_list (map f xs) = (0 :: 'a::len word) \<longleftrightarrow> (\<forall>x\<in>set xs. f x = 0)"
proof -
  assume small: "sum_list (map (\<lambda>x. unat (f x)) xs) < 2 ^ LENGTH('a)"
  have "sum_list (map f xs) = of_nat (sum_list (map (\<lambda>x. unat (f x)) xs))"
    by (induction xs) simp_all
  then have "unat (sum_list (map f xs)) = sum_list (map (\<lambda>x. unat (f x)) xs)"
    using small by (simp add: unat_of_nat take_bit_nat_eq_self)
  then have "sum_list (map f xs) = 0 \<longleftrightarrow> sum_list (map (\<lambda>x. unat (f x)) xs) = 0"
    by (metis unat_eq_0)
  also have "\<dots> \<longleftrightarrow> (\<forall>x\<in>set xs. f x = 0)" by (auto simp: unat_eq_0)
  finally show ?thesis .
qed

lemma sum_list_0_iff_plain: "\<forall>x\<in>set xs. f x = (0 :: nat) \<Longrightarrow> sum_list (map f xs) = 0"
  by (induction xs) simp_all

definition countable_detections :: "sweep \<Rightarrow> bool" where
  \<comment> \<open>the totals of the detections do not wrap around\<close>
  "countable_detections s \<longleftrightarrow> sum_list (map (\<lambda>r. unat (rn_detections r)) (sw_results s)) < 2 ^ 64
     \<and> sum_list (map (\<lambda>r. unat (rb_detections r)) (sw_rbx_results s)) < 2 ^ 64"

lemma quiet_countable:
  assumes "\<forall>r\<in>set (sw_results s). rn_detections r = 0" and "\<forall>r\<in>set (sw_rbx_results s). rb_detections r = 0"
  shows "countable_detections s"
proof -
  have "sum_list (map (\<lambda>r. unat (rn_detections r)) (sw_results s)) = 0"
    "sum_list (map (\<lambda>r. unat (rb_detections r)) (sw_rbx_results s)) = 0"
    using assms by (simp_all add: sum_list_0_iff_plain)
  then show ?thesis unfolding countable_detections_def by (simp only:) simp
qed

definition detected :: "sweep \<Rightarrow> bool" where
  "detected s \<longleftrightarrow> (\<exists>r\<in>set (sw_results s). rn_detections r \<noteq> 0) \<or> (\<exists>r\<in>set (sw_rbx_results s). rb_detections r \<noteq> 0)"

lemma totals_detected:
  assumes "countable_detections s"
  shows "ct_detections (total_ch (sw_results s)) \<noteq> 0 \<or> bt_detections (total_rbx (sw_rbx_results s)) \<noteq> 0 \<longleftrightarrow> detected s"
  using assms word_sum_zero [of rn_detections "sw_results s"] word_sum_zero [of rb_detections "sw_rbx_results s"]
  by (simp add: countable_detections_def detected_def total_simps)

lemma conclude_code:
  assumes "countable_detections s"
  shows "fst (conclude probes selected layers s) =
    (if sw_measured s = 0 then 2 else if detected s then 1 else if sw_interrupted s then 4 else 0)"
  using totals_detected [OF assms]
  by (simp add: conclude_def Let_def k_exit_clean_def k_exit_detected_def k_exit_usage_def k_exit_interrupted_def)

lemma conclude_means:
  assumes "work_ok work" and "sel_rbx (pl_probes plan) \<longrightarrow> rbx_ready (mc_symbols mc) state"
    and "length selected < 2 ^ 64"
    and "sweep_cores mc plan selected (sweep_start t lg work state) = Some s'" and "countable_detections s'"
  obtains m k u where "sweep_account mc plan selected s' m k u"
    "fst (conclude (pl_probes plan) (length selected) layers s')
      = (if m = [] then 2 else if detected s' then 1 else if sw_interrupted s' then 4 else 0)"
    "m = [] \<longrightarrow> \<not> sw_interrupted s' \<longrightarrow> k = selected" "\<not> sw_interrupted s' \<longrightarrow> u = []"
  using assms(1-4)
proof (rule sweep_accounted)
  fix m k u
  assume a: "sweep_account mc plan selected s' m k u"
  then have s: "swept selected m k (sw_interrupted s') u" "unat (sw_measured s') = length m" by (simp_all add: sweep_account_def)
  have zero: "sw_measured s' = 0 \<longleftrightarrow> m = []" using s(2) by (metis unat_eq_0 length_0_conv)
  show thesis
  proof (rule that [OF a])
    show "fst (conclude (pl_probes plan) (length selected) layers s')
      = (if m = [] then 2 else if detected s' then 1 else if sw_interrupted s' then 4 else 0)"
      unfolding conclude_code [OF assms(5)] zero ..
    show "m = [] \<longrightarrow> \<not> sw_interrupted s' \<longrightarrow> k = selected" using swept_none [of selected k u] s(1) by auto
    show "\<not> sw_interrupted s' \<longrightarrow> u = []" using swept_parts [OF s(1)] by blast
  qed
qed

text \<open>
  Property C5: the exit code says what happened to the selected cores. With totals that do not wrap
  around, the cores measured, skipped and left out are those the counters and the results name
  (\<open>sweep_account\<close>: the measured ones were pinned, pinning the skipped ones failed, and some are left
  out only by an interrupt), and the code is 2 if no core was measured, else 1 if a result has a detection,
  else 4 if the sweep was interrupted, and 0 otherwise. Without an interrupt no core is left out,
  and the code is 2 only if every core was skipped.
\<close>

theorem exit_code_means:
  assumes "work_ok work" and "sel_rbx (pl_probes plan) \<longrightarrow> rbx_ready (mc_symbols mc) state"
    and "length selected < 2 ^ 64"
    and "sweep_cores mc plan selected (sweep_start t lg work state) = Some s'" and "countable_detections s'"
  shows "\<exists>m k u. sweep_account mc plan selected s' m k u
    \<and> fst (conclude (pl_probes plan) (length selected) layers s')
      = (if m = [] then 2 else if detected s' then 1 else if sw_interrupted s' then 4 else 0)
    \<and> (m = [] \<longrightarrow> \<not> sw_interrupted s' \<longrightarrow> k = selected) \<and> (\<not> sw_interrupted s' \<longrightarrow> u = [])"
  using assms by (rule conclude_means) blast

section \<open>The report\<close>

definition final_events :: "probe_selection \<Rightarrow> nat \<Rightarrow> int \<Rightarrow> sweep \<Rightarrow> event list" where
  "final_events probes selected layers s =
     summary probes selected layers s @ (if sw_measured s = 0 then nothing_tested else verdict probes s)
     @ [Blank, Line (''Report written to '' @ c_str (lg_path (sw_log s)))]"

lemma finish_file:
  assumes "lg_file lg = Some p" and "lg_disk lg p = Some c"
  shows "lg_file (finish_report lg) = None"
    and "lg_disk (finish_report lg)
      = (lg_disk lg)(p \<mapsto> c @ report [Blank, Line (''Report written to '' @ c_str (lg_path lg))])"
  using log_events_file [OF assms, of "[Blank, Line (''Report written to '' @ c_str (lg_path lg))]"] assms
  by (auto simp: finish_report_def log_close_def log_simps report_def split: if_splits)

lemma report_append: "report (es @ fs) = report es @ report fs"
  by (simp add: report_def)

lemma conclude_file:
  assumes "lg_file (sw_log s) = Some p" and "lg_disk (sw_log s) p = Some c"
  shows "lg_file (snd (conclude probes selected layers s)) = None"
    and "lg_disk (snd (conclude probes selected layers s))
      = (lg_disk (sw_log s))(p \<mapsto> c @ report (final_events probes selected layers s))"
proof -
  define es where "es = summary probes selected layers s @ (if sw_measured s = 0 then nothing_tested else verdict probes s)"
  define lg where "lg = fold log_event es (sw_log s)"
  have snd: "snd (conclude probes selected layers s) = finish_report lg"
    by (simp add: conclude_def es_def lg_def Let_def)
  have lg: "lg_file lg = Some p" "lg_path lg = lg_path (sw_log s)" "lg_disk lg = (lg_disk (sw_log s))(p \<mapsto> c @ report es)"
    using log_events_file [OF assms, of es] by (simp_all add: lg_def)
  then have "lg_disk lg p = Some (c @ report es)" by simp
  from finish_file [OF lg(1) this] show "lg_file (snd (conclude probes selected layers s)) = None"
    "lg_disk (snd (conclude probes selected layers s))
      = (lg_disk (sw_log s))(p \<mapsto> c @ report (final_events probes selected layers s))"
    unfolding snd by (simp_all add: lg final_events_def es_def report_append)
qed

lemma affected_in_verdict:
  assumes "countable_detections s"
  shows "sel_ch probes \<Longrightarrow> r \<in> set (sw_results s) \<Longrightarrow> rn_detections r \<noteq> 0 \<Longrightarrow> Line (affected_ch r) \<in> set (verdict probes s)"
    and "sel_rbx probes \<Longrightarrow> r' \<in> set (sw_rbx_results s) \<Longrightarrow> rb_detections r' \<noteq> 0 \<Longrightarrow> Line (affected_rbx r') \<in> set (verdict probes s)"
proof -
  have ch: "ct_detections (total_ch (sw_results s)) = 0 \<longleftrightarrow> (\<forall>r\<in>set (sw_results s). rn_detections r = 0)"
    and rbx: "bt_detections (total_rbx (sw_rbx_results s)) = 0 \<longleftrightarrow> (\<forall>r\<in>set (sw_rbx_results s). rb_detections r = 0)"
    using assms word_sum_zero [of rn_detections "sw_results s"] word_sum_zero [of rb_detections "sw_rbx_results s"]
    by (simp_all add: countable_detections_def total_simps)
  show "sel_ch probes \<Longrightarrow> r \<in> set (sw_results s) \<Longrightarrow> rn_detections r \<noteq> 0 \<Longrightarrow> Line (affected_ch r) \<in> set (verdict probes s)"
    using ch by (auto simp: verdict_def ch_verdict_def Let_def)
  show "sel_rbx probes \<Longrightarrow> r' \<in> set (sw_rbx_results s) \<Longrightarrow> rb_detections r' \<noteq> 0 \<Longrightarrow> Line (affected_rbx r') \<in> set (verdict probes s)"
    using rbx by (auto simp: verdict_def rbx_verdict_def Let_def)
qed

definition says_clean :: "event \<Rightarrow> bool" where
  "says_clean e = (case e of Line s \<Rightarrow> take 13 s = ''RESULT: CLEAN'' | _ \<Rightarrow> False)"

lemma no_clean_summary: "\<not> (\<exists>e\<in>set (summary probes selected layers s). says_clean e)"
  by (auto simp: summary_def ch_summary_def rbx_summary_def Let_def says_clean_def tested_line_def elapsed_line_def
      pace_warning_def ch_row_def rbx_row_def split: if_splits)

lemma clean_verdict:
  "(\<exists>e\<in>set (ch_verdict results interrupted). says_clean e) \<longleftrightarrow> ct_detections (total_ch results) = 0 \<and> \<not> interrupted"
  "(\<exists>e\<in>set (rbx_verdict rbx_results interrupted). says_clean e) \<longleftrightarrow> bt_detections (total_rbx rbx_results) = 0 \<and> \<not> interrupted"
  by (auto simp: ch_verdict_def rbx_verdict_def Let_def says_clean_def affected_ch_def affected_rbx_def split: if_splits)

lemma clean_final:
  "(\<exists>e\<in>set (final_events probes selected layers s). says_clean e) \<longleftrightarrow>
     sw_measured s \<noteq> 0 \<and> \<not> sw_interrupted s
     \<and> (sel_ch probes \<and> ct_detections (total_ch (sw_results s)) = 0
        \<or> sel_rbx probes \<and> bt_detections (total_rbx (sw_rbx_results s)) = 0)"
proof -
  have "\<not> (\<exists>e\<in>set nothing_tested. says_clean e)" by (simp add: nothing_tested_def says_clean_def)
  moreover have "(\<exists>e\<in>set (verdict probes s). says_clean e) \<longleftrightarrow> \<not> sw_interrupted s
     \<and> (sel_ch probes \<and> ct_detections (total_ch (sw_results s)) = 0
        \<or> sel_rbx probes \<and> bt_detections (total_rbx (sw_rbx_results s)) = 0)"
    using clean_verdict(1) [of "sw_results s" "sw_interrupted s"]
      clean_verdict(2) [of "sw_rbx_results s" "sw_interrupted s"]
    by (auto simp: verdict_def says_clean_def [of Blank] bex_Un)
  ultimately show ?thesis
    using no_clean_summary [of probes selected layers s]
    by (auto simp: final_events_def bex_Un says_clean_def [of Blank] says_clean_def [of "Line (_ # _)"])
qed

text \<open>
  Property C16: the report of a sweep is complete, and calls nothing clean that is not. With a
  report file open, the summary of each selected probe, the verdict (or that nothing was tested) and the path
  are appended to it, in this order and nothing else, and it is closed. Every result has its row; every core with a
  detection is named with its counts; and a line says CLEAN exactly if something was measured, nothing was
  interrupted, and some selected probe has no detection: always with exit code 0, and with no other code but 1,
  when both probes were selected.
\<close>

theorem report_concluded:
  assumes "lg_file (sw_log s) = Some p" and "lg_disk (sw_log s) p = Some c" and "countable_detections s"
    and "sel_ch probes \<or> sw_results s = []" and "sel_rbx probes \<or> sw_rbx_results s = []"
    and "sel_ch probes \<or> sel_rbx probes"
  shows "let es = summary probes selected layers s @ (if sw_measured s = 0 then nothing_tested else verdict probes s)
           @ [Blank, Line (''Report written to '' @ c_str (lg_path (sw_log s)))];
         code = fst (conclude probes selected layers s); clean = (\<exists>e\<in>set es. says_clean e)
    in lg_disk (snd (conclude probes selected layers s)) = (lg_disk (sw_log s))(p \<mapsto> c @ report es)
    \<and> \<not> has_file (snd (conclude probes selected layers s))
    \<and> (\<forall>r\<in>set (sw_results s). Line (ch_row r) \<in> set es) \<and> (\<forall>r\<in>set (sw_rbx_results s). Line (rbx_row r) \<in> set es)
    \<and> (sw_measured s \<noteq> 0 \<longrightarrow>
        (\<forall>r\<in>set (sw_results s). rn_detections r \<noteq> 0 \<longrightarrow> Line (affected_ch r) \<in> set es)
        \<and> (\<forall>r\<in>set (sw_rbx_results s). rb_detections r \<noteq> 0 \<longrightarrow> Line (affected_rbx r) \<in> set es))
    \<and> (clean \<longleftrightarrow> sw_measured s \<noteq> 0 \<and> \<not> sw_interrupted s
        \<and> (sel_ch probes \<and> (\<forall>r\<in>set (sw_results s). rn_detections r = 0)
           \<or> sel_rbx probes \<and> (\<forall>r\<in>set (sw_rbx_results s). rb_detections r = 0)))
    \<and> (code = 0 \<longrightarrow> clean) \<and> (clean \<longrightarrow> code = 0 \<or> code = 1 \<and> sel_ch probes \<and> sel_rbx probes)"
  unfolding final_events_def [symmetric] Let_def
proof (intro conjI)
  note written = conclude_file [OF assms(1,2), of probes selected layers]
  have none: "ct_detections (total_ch (sw_results s)) = 0 \<longleftrightarrow> (\<forall>r\<in>set (sw_results s). rn_detections r = 0)"
    "bt_detections (total_rbx (sw_rbx_results s)) = 0 \<longleftrightarrow> (\<forall>r\<in>set (sw_rbx_results s). rb_detections r = 0)"
    using assms(3) word_sum_zero [of rn_detections "sw_results s"] word_sum_zero [of rb_detections "sw_rbx_results s"]
    by (simp_all add: countable_detections_def total_simps)
  show "lg_disk (snd (conclude probes selected layers s))
      = (lg_disk (sw_log s))(p \<mapsto> c @ report (final_events probes selected layers s))"
    and "\<not> has_file (snd (conclude probes selected layers s))"
    using written by (simp_all add: has_file_def)
  show "\<forall>r\<in>set (sw_results s). Line (ch_row r) \<in> set (final_events probes selected layers s)"
    "\<forall>r\<in>set (sw_rbx_results s). Line (rbx_row r) \<in> set (final_events probes selected layers s)"
    using assms(4,5) by (auto simp: final_events_def summary_def ch_summary_def rbx_summary_def Let_def)
  show "sw_measured s \<noteq> 0 \<longrightarrow>
        (\<forall>r\<in>set (sw_results s). rn_detections r \<noteq> 0 \<longrightarrow> Line (affected_ch r) \<in> set (final_events probes selected layers s))
        \<and> (\<forall>r\<in>set (sw_rbx_results s). rb_detections r \<noteq> 0 \<longrightarrow> Line (affected_rbx r) \<in> set (final_events probes selected layers s))"
    using affected_in_verdict [OF assms(3), of probes] assms(4,5) by (auto simp: final_events_def)
  show clean: "(\<exists>e\<in>set (final_events probes selected layers s). says_clean e) \<longleftrightarrow> sw_measured s \<noteq> 0 \<and> \<not> sw_interrupted s
        \<and> (sel_ch probes \<and> (\<forall>r\<in>set (sw_results s). rn_detections r = 0)
           \<or> sel_rbx probes \<and> (\<forall>r\<in>set (sw_rbx_results s). rb_detections r = 0))"
    unfolding clean_final none ..
  show "fst (conclude probes selected layers s) = 0 \<longrightarrow> (\<exists>e\<in>set (final_events probes selected layers s). says_clean e)"
    "(\<exists>e\<in>set (final_events probes selected layers s). says_clean e) \<longrightarrow>
      fst (conclude probes selected layers s) = 0 \<or> fst (conclude probes selected layers s) = 1 \<and> sel_ch probes \<and> sel_rbx probes"
    unfolding clean conclude_code [OF assms(3)] detected_def using assms(4-6) by auto
qed

section \<open>From the first core to the exit\<close>

lemma quiet_sweep:
  assumes "sound_machine mc payload usable" and "work_ok work"
    and "sel_rbx (pl_probes plan) \<longrightarrow> rbx_clean usable (mc_symbols mc) state"
    and "\<forall>t. \<forall>cpu\<in>set selected. pins mc t cpu \<noteq> None"
    and "sweep_cores mc plan selected (sweep_start t lg work state) = Some s"
  shows "countable_detections s" and "\<not> detected s"
proof -
  have "\<forall>r\<in>set (sw_results s). rn_detections r = 0" "\<forall>r\<in>set (sw_rbx_results s). rb_detections r = 0"
    using sound_machine.sound_sweep [OF assms(1-4), where t = t and lg = lg] assms(5) by auto
  then show "countable_detections s" "\<not> detected s" by (rule quiet_countable, simp add: detected_def)
qed

lemma sound_conclude:
  assumes "sound_machine mc payload usable" and "work_ok work"
    and "sel_rbx (pl_probes plan) \<longrightarrow> rbx_clean usable (mc_symbols mc) state"
    and "\<And>t. \<not> e_interrupt (mc_env mc) t" and "\<forall>t. \<forall>cpu\<in>set selected. pins mc t cpu = Some True"
    and "selected \<noteq> []" and "length selected < 2 ^ 64"
  shows "\<exists>s'. sweep_cores mc plan selected (sweep_start t lg work state) = Some s'
    \<and> fst (conclude (pl_probes plan) (length selected) layers s') = 0"
proof -
  have ready: "sel_rbx (pl_probes plan) \<longrightarrow> rbx_ready (mc_symbols mc) state"
    using assms(3) by (simp add: rbx_clean_def)
  have defined: "\<forall>t. \<forall>cpu\<in>set selected. pins mc t cpu \<noteq> None" using assms(5) by simp
  obtain s' where run: "sweep_cores mc plan selected (sweep_start t lg work state) = Some s'"
    and quiet: "\<forall>r\<in>set (sw_results s'). rn_detections r = 0" "\<forall>r\<in>set (sw_rbx_results s'). rb_detections r = 0"
    using sound_machine.sound_sweep [OF assms(1,2,3) defined, where t = t and lg = lg] by blast
  have "\<not> sw_interrupted s' \<and> sw_measured s' = 0 + of_nat (length selected)"
    using sweep_loop_all [OF assms(4,5) sweep_start_inv [where mc = mc and plan = plan, OF assms(2) ready]
        run [unfolded sweep_cores_def]] by simp
  moreover have "(of_nat (length selected) :: u64) \<noteq> 0"
    using assms(6,7) by (simp add: unat_eq_0 [symmetric] unat_of_nat take_bit_nat_eq_self)
  moreover note quiet_countable [OF quiet]
  moreover have "\<not> detected s'" using quiet by (simp add: detected_def)
  ultimately show ?thesis using run conclude_code by auto
qed

text \<open>
  Property C20: an interrupt before the first core is reported as failed pinning. If the interrupt
  flag is already set when the sweep starts, no core is pinned, measured or skipped, and the exit code is 2
  and not 4 (interrupted before finishing, nothing found). The report file gets the line that the sweep was
  interrupted before the first core, the summary, and then that nothing was tested because pinning failed on
  every selected core.
\<close>

theorem interrupt_before_first_core:
  assumes "e_interrupt (mc_env mc) t" and "selected \<noteq> []"
  shows "\<exists>s'. sweep_cores mc plan selected (sweep_start t lg work state) = Some s'
    \<and> sw_interrupted s' \<and> sw_measured s' = 0 \<and> sw_skipped s' = 0
    \<and> fst (conclude (pl_probes plan) (length selected) layers s') = 2
    \<and> (\<forall>p c. lg_file lg = Some p \<longrightarrow> lg_disk lg p = Some c \<longrightarrow>
        lg_disk (snd (conclude (pl_probes plan) (length selected) layers s')) p = Some (c @ report (
          [Line (''--- interrupted before cpu '' @ num (ci_index (hd selected)) @ ''; '' @ dec (length selected) @ '' core(s) not tested ---'')]
          @ summary (pl_probes plan) (length selected) layers s'
          @ [Line ''RESULT: NOTHING TESTED - no core was measured'',
             Line ''Pinning failed on every selected core, so no checks were performed. This is'',
             Line ''not a clean result. Check whether the process is allowed to set affinity.'',
             Blank, Line (''Report written to '' @ c_str (lg_path lg))])))"
proof -
  obtain cpu rest where sel: "selected = cpu # rest" using assms(2) by (cases selected) auto
  define said where "said = Line (''--- interrupted before cpu '' @ num (ci_index cpu) @ ''; '' @ dec (length selected) @ '' core(s) not tested ---'')"
  define s' where "s' = (sweep_start t lg work state)\<lparr>sw_interrupted := True, sw_tick := t + 1, sw_log := fold log_event [said] lg\<rparr>"
  have s': "sw_interrupted s'" "sw_measured s' = 0" "sw_skipped s' = 0" "sw_log s' = fold log_event [said] lg"
    by (simp_all add: s'_def)
  have core: "sweep_core mc plan (length selected) 0 cpu (sweep_start t lg work state) = Some (True, s')"
    using assms(1) by (simp add: sweep_core_def s'_def said_def)
  have "lg_disk (snd (conclude (pl_probes plan) (length selected) layers s')) p
      = Some (c @ report ([said] @ final_events (pl_probes plan) (length selected) layers s')) \<and> lg_path (sw_log s') = lg_path lg"
    if "lg_file lg = Some p" "lg_disk lg p = Some c" for p c
  proof -
    have lg: "lg_file (sw_log s') = Some p" "lg_disk (sw_log s') p = Some (c @ report [said])" "lg_path (sw_log s') = lg_path lg"
      using log_events_file [OF that, of "[said]"] by (simp_all add: s'(4))
    show ?thesis using lg(3) conclude_file(2) [OF lg(1,2), of "pl_probes plan" "length selected" layers] by (simp only: report_append) simp
  qed
  then show ?thesis
    using core s'(1-3)
    by (intro exI [of _ s'])
      (simp add: sweep_cores_def sel conclude_def Let_def k_exit_usage_def final_events_def nothing_tested_def said_def)
qed

section \<open>Witnesses\<close>

text \<open>The sound machine with every core willing, and one that is interrupted at once.\<close>

definition willing_machine :: machine where
  "willing_machine = lab_machine\<lparr>mc_grants := \<lambda>_ _. True\<rparr>"

lemma willing_machine_sound: "sound_machine willing_machine repro_payload (\<lambda>_. True)"
  using lab_machine_sound by (simp add: sound_machine_def willing_machine_def)

lemma both_ready: "sel_rbx (pl_probes both_plan) \<longrightarrow> rbx_ready linux_symbols prepared"
  and both_clean: "sel_rbx (pl_probes both_plan) \<longrightarrow> rbx_clean (\<lambda>_. True) linux_symbols prepared"
  using prepared_ready prepared_clean by simp_all

lemma machine_symbols [simp]: "mc_symbols lab_machine = linux_symbols" "mc_symbols willing_machine = linux_symbols"
  by (simp_all add: lab_machine_def willing_machine_def)

lemma two_cores_few: "two_cores \<noteq> []" "length two_cores < 2 ^ 64"
  by (simp_all add: two_cores_def)

definition start_state :: sweep where
  "start_state = sweep_start 0 (new_logger [] (\<lambda>_. None)) grid_work prepared"

lemma lab_sweep:
  obtains s' where "sweep_cores lab_machine both_plan two_cores start_state = Some s'" "countable_detections s'"
proof -
  obtain s' where run: "sweep_cores lab_machine both_plan two_cores start_state = Some s'"
    and quiet: "\<forall>r\<in>set (sw_results s'). rn_detections r = 0" "\<forall>r\<in>set (sw_rbx_results s'). rb_detections r = 0"
    using lab.sound_sweep [OF grid_work_ok _ lab_pins, of both_plan prepared] both_clean
    unfolding start_state_def machine_symbols by blast
  from run quiet_countable [OF quiet] show thesis by (rule that)
qed

lemma totals_account_witness:
  "\<exists>s'. sweep_cores lab_machine both_plan two_cores start_state = Some s'
    \<and> ct_checks (total_ch (sw_results s')) = ct_rounds (total_ch (sw_results s')) * 100000"
proof -
  obtain s' where run: "sweep_cores lab_machine both_plan two_cores start_state = Some s'" by (rule lab_sweep)
  from totals_account [where mc = lab_machine, OF grid_work_ok _ run [unfolded start_state_def]] both_ready run
  show ?thesis by (auto simp: Let_def)
qed

lemma exit_code_means_witness:
  "\<exists>s' m k u. sweep_cores lab_machine both_plan two_cores start_state = Some s'
    \<and> sweep_account lab_machine both_plan two_cores s' m k u
    \<and> (fst (conclude (pl_probes both_plan) (length two_cores) 5 s') = 2 \<longleftrightarrow> m = [])"
proof -
  obtain s' where run: "sweep_cores lab_machine both_plan two_cores start_state = Some s'" "countable_detections s'"
    by (rule lab_sweep)
  from exit_code_means [where mc = lab_machine and layers = 5, OF grid_work_ok _ two_cores_few(2)
      run(1) [unfolded start_state_def] run(2)] both_ready
  obtain m k u where "sweep_account lab_machine both_plan two_cores s' m k u"
    "fst (conclude (pl_probes both_plan) (length two_cores) 5 s')
      = (if m = [] then 2 else if detected s' then 1 else if sw_interrupted s' then 4 else 0)" by auto
  with run(1) show ?thesis by (intro exI conjI) (assumption | simp)+
qed

definition report_start :: sweep where
  "report_start = sweep_start 0 (snd (log_open True ''r.log'' (new_logger [] (\<lambda>_. None)))) grid_work prepared"

lemma report_start_log: "lg_file (sw_log report_start) = Some ''r.log''" "lg_disk (sw_log report_start) ''r.log'' = Some []"
  by (simp_all add: report_start_def log_open_def log_close_def new_logger_def log_simps)

lemma interrupt_before_first_core_witness:
  "\<exists>s' before after. sweep_cores (willing_machine\<lparr>mc_env := tick_env\<lparr>e_interrupt := \<lambda>_. True\<rparr>\<rparr>) both_plan two_cores report_start = Some s'
    \<and> fst (conclude (pl_probes both_plan) (length two_cores) 5 s') = 2
    \<and> lg_disk (snd (conclude (pl_probes both_plan) (length two_cores) 5 s')) ''r.log'' = Some (before
        @ report [Line ''Pinning failed on every selected core, so no checks were performed. This is''] @ after)"
proof -
  define mc where "mc = willing_machine\<lparr>mc_env := tick_env\<lparr>e_interrupt := \<lambda>_. True\<rparr>\<rparr>"
  have "e_interrupt (mc_env mc) 0" by (simp add: mc_def)
  from interrupt_before_first_core [OF this two_cores_few(1), of both_plan "sw_log report_start" grid_work prepared 5]
  obtain s' where s': "sweep_cores mc both_plan two_cores report_start = Some s'"
      "fst (conclude (pl_probes both_plan) (length two_cores) 5 s') = 2"
    and disk: "\<forall>p c. lg_file (sw_log report_start) = Some p \<longrightarrow> lg_disk (sw_log report_start) p = Some c \<longrightarrow>
        lg_disk (snd (conclude (pl_probes both_plan) (length two_cores) 5 s')) p = Some (c @ report (
          [Line (''--- interrupted before cpu '' @ num (ci_index (hd two_cores)) @ ''; '' @ dec (length two_cores) @ '' core(s) not tested ---'')]
          @ summary (pl_probes both_plan) (length two_cores) 5 s'
          @ [Line ''RESULT: NOTHING TESTED - no core was measured'',
             Line ''Pinning failed on every selected core, so no checks were performed. This is'',
             Line ''not a clean result. Check whether the process is allowed to set affinity.'',
             Blank, Line (''Report written to '' @ c_str (lg_path (sw_log report_start)))]))"
    unfolding report_start_def sweep_start_empty by blast
  have split: "es @ fs @ [e1, e2, e3, e4, e5] = (es @ fs @ [e1]) @ [e2] @ [e3, e4, e5]" for es fs and e1 e2 e3 e4 e5 :: event by simp
  note disk = disk [rule_format, OF report_start_log, unfolded split report_append append_assoc]
  show ?thesis
    unfolding mc_def [symmetric] using s' disk unfolding append_assoc [symmetric] by (simp only:) blast
qed

text \<open>A sweep that measured one core and saw three misreads there, with a report file open.\<close>

definition one_result :: run_result where
  "one_result = (run_result_init 7)\<lparr>rn_detections := 3, rn_lane_counts := [0, 3, 0, 0]\<rparr>"

definition reported_sweep :: sweep where
  "reported_sweep = report_start\<lparr>sw_measured := 1, sw_results := [one_result]\<rparr>"

lemma report_concluded_witness:
  "let es = summary probe_selection_init 1 5 reported_sweep @ verdict probe_selection_init reported_sweep
      @ [Blank, Line ''Report written to r.log'']
   in lg_disk (snd (conclude probe_selection_init 1 5 reported_sweep)) ''r.log'' = Some (report es)
    \<and> Line (affected_ch one_result) \<in> set es \<and> \<not> (\<exists>e\<in>set es. says_clean e)"
proof -
  have log: "lg_file (sw_log reported_sweep) = Some ''r.log''" "lg_disk (sw_log reported_sweep) ''r.log'' = Some []"
    using report_start_log by (simp_all add: reported_sweep_def)
  have count: "countable_detections reported_sweep"
    by (simp add: countable_detections_def reported_sweep_def report_start_def one_result_def)
  have sel: "sel_ch probe_selection_init \<or> sw_results reported_sweep = []"
    "sel_rbx probe_selection_init \<or> sw_rbx_results reported_sweep = []"
    "sel_ch probe_selection_init \<or> sel_rbx probe_selection_init" "\<not> sel_rbx probe_selection_init"
    by (simp_all add: probe_selection_init_def reported_sweep_def report_start_def)
  have one: "sw_measured reported_sweep \<noteq> 0" "one_result \<in> set (sw_results reported_sweep)" "rn_detections one_result \<noteq> 0"
    by (simp_all add: reported_sweep_def one_result_def)
  have path: "''Report written to '' @ c_str (lg_path (sw_log reported_sweep)) = ''Report written to r.log''"
    by (simp add: reported_sweep_def report_start_def log_open_def log_close_def new_logger_def log_simps c_str_def)
  define es where "es = summary probe_selection_init 1 5 reported_sweep @ verdict probe_selection_init reported_sweep
      @ [Blank, Line ''Report written to r.log'']"
  note concluded = report_concluded [OF log count sel(1-3), where layers = 5 and selected = 1,
      unfolded Let_def path if_not_P [OF one(1)], folded es_def]
  show ?thesis unfolding Let_def es_def [symmetric] using concluded one sel(4) by auto
qed

end
