(* ===== verification/Cli.thy ===== *)
theory Cli
  imports Verdict
begin

text \<open>
  What \<open>main\<close> does before the sweep (sdcprobe.cpp): the command line, the version and the usage
  text, the processor's brand, and the three questions. Standard input is the text still to be
  read, standard output the text written so far; the arguments are C strings. The lemmas say what
  accepted options are.
\<close>

section \<open>Version, usage and brand\<close>

datatype compiler = Clang | Mingw string | Gcc string | Other_Compiler

fun toolchain_name :: "compiler \<Rightarrow> string" where
  "toolchain_name Clang = ''clang''"
| "toolchain_name (Mingw version) = ''x86_64-w64-mingw32 gcc '' @ version"
| "toolchain_name (Gcc version) = ''gcc '' @ version"
| "toolchain_name Other_Compiler = ''unknown toolchain''"

text \<open>What the build fixes: the commit and the compiler.\<close>

record build =
  bd_git_hash :: string
  bd_compiler :: compiler

definition SDC_VERSION :: string where "SDC_VERSION = ''1.1.0''"

definition unlines :: "string list \<Rightarrow> string" where
  "unlines ls = concat (map (\<lambda>l. l @ [newline]) ls)"

definition print_version :: "platform \<Rightarrow> build \<Rightarrow> string" where
  "print_version pl bd =
     unlines [''sdcprobe '' @ SDC_VERSION @ '' ('' @ bd_git_hash bd @ ''), built with ''
       @ toolchain_name (bd_compiler bd) @ '' for '' @ sdc_platform_name pl]"

definition identity_line :: "platform \<Rightarrow> build \<Rightarrow> string" where
  "identity_line pl bd =
     ''sdcprobe '' @ SDC_VERSION @ '' ('' @ bd_git_hash bd @ '')  |  '' @ toolchain_name (bd_compiler bd)
     @ ''  |  '' @ sdc_platform_name pl"

definition k_default_seed :: u32 where "k_default_seed = 42"
definition k_default_minutes :: u32 where "k_default_minutes = 10"
definition k_max_minutes :: u32 where "k_max_minutes = 1440"

definition print_usage :: string where
  "print_usage = unlines
    [''sdcprobe '' @ SDC_VERSION @ '' - detector for two CPU faults on x86-64: misreads of the legacy'',
     ''high-byte register CH, and a frame base in rbx that changes under a function'',
     '''',
     ''  sdcprobe [--probe ch|rbx|all] [--cores SPEC] [--minutes N] [--seed N]'',
     ''           [--layers N] [--log PATH]'',
     ''  sdcprobe --self-test'',
     ''  sdcprobe --version | --help'',
     '''',
     ''  --probe      what to look for. Default: ch'',
     ''                 ch   a byte read through CH that differs from memory'',
     ''                 rbx  a frame base in rbx that moves by itself'',
     ''                 all  both, one after the other on each core'',
     ''  --cores      which logical cores to test: 'all', or a list such as'',
     ''               '0,1,2' or '0-7,16'. Default: all'',
     ''  --minutes    duration PER CORE AND PROBE, 1..'' @ num k_max_minutes @ ''. Default: '' @ num k_default_minutes,
     ''  --seed       workload seed of the ch probe. Default: '' @ num k_default_seed @ ''. Changes the'',
     ''               data, not the test'',
     ''  --layers     workload size of the ch probe, '' @ dec_int k_load_layers_min @ ''..'' @ dec_int k_load_layers_max
       @ ''. Default: measured at'',
     ''               startup so that one check takes about '' @ fixed 0 (fp64 k_target_ns_per_sample) @ '' ns on this machine'',
     ''  --log        report file. Default: sdcprobe-YYYYMMDD-HHMMSS.log'',
     ''  --self-test  verify both detectors against injected faults and exit.'',
     ''               Needs no faulty hardware; proves the machinery works'',
     '''',
     ''  With no arguments the tool asks interactively. Anything given on the'',
     ''  command line is not asked about. With a redirected stdin it never asks.'',
     '''',
     ''  Cores are tested ONE AT A TIME, on purpose. Both faults show with one core'',
     ''  busy and the rest idle; load on the other cores can hide them completely.'',
     ''  Run this on an otherwise idle machine, and not inside a virtual machine: a'',
     ''  guest CPU is not a physical core.'',
     '''',
     ''  Both faults are bursty. A single clean run proves little.'',
     '''',
     ''  Ctrl+C stops after the current round and still prints a partial report.'',
     '''',
     ''  Exit codes:  '' @ dec_int k_exit_clean @ '' clean          '' @ dec_int k_exit_detected @ '' fault detected'',
     ''               '' @ dec_int k_exit_usage @ '' bad arguments  '' @ dec_int k_exit_self_test_failed
       @ '' self-test failed   '' @ dec_int k_exit_interrupted @ '' interrupted, nothing found'']"

type_synonym cpuid = "u32 \<Rightarrow> (u32 \<times> u32 \<times> u32 \<times> u32) option"

fun brand_leaves :: "cpuid \<Rightarrow> u32 list \<Rightarrow> u8 list option" where
  "brand_leaves cpuid [] = Some []"
| "brand_leaves cpuid (leaf # leaves) =
     do {
       (eax, ebx, ecx, edx) \<leftarrow> cpuid (0x80000002 + leaf);
       rest \<leftarrow> brand_leaves cpuid leaves;
       Some (concat (map (le_bytes 4) [eax, ebx, ecx, edx]) @ rest)
     }"

definition cpu_brand :: "cpuid \<Rightarrow> u8 list" where
  \<comment> \<open>the 49 bytes of the buffer; None of \<open>cpuid\<close>: the leaf is not there\<close>
  "cpu_brand cpuid =
     (case cpuid 0x80000000 of
        None \<Rightarrow> replicate 49 0
      | Some (eax, ebx, ecx, edx) \<Rightarrow>
          if eax < 0x80000004 then replicate 49 0
          else case brand_leaves cpuid [0, 1, 2] of
                 None \<Rightarrow> replicate 49 0
               | Some bytes \<Rightarrow> bytes @ [0])"

definition brand_text :: "cpuid \<Rightarrow> string" where
  "brand_text cpuid = skip_leading_spaces (c_str (map (\<lambda>b. char_of (unat b)) (cpu_brand cpuid)))"

definition cpu_line :: "cpuid \<Rightarrow> string" where
  "cpu_line cpuid = ''CPU: '' @ (if brand_text cpuid \<noteq> [] then brand_text cpuid else ''unknown'')"

section \<open>The command line\<close>

record options =
  op_seed :: u32
  op_minutes :: u32
  op_layers :: int
  op_probes :: probe_selection
  op_cores_spec :: string
  op_log_path :: string
  op_have_minutes :: bool
  op_have_cores :: bool
  op_have_probe :: bool
  op_want_self_test :: bool

definition default_options :: options where
  "default_options =
     \<lparr>op_seed = k_default_seed, op_minutes = k_default_minutes, op_layers = 0, op_probes = probe_selection_init,
      op_cores_spec = [], op_log_path = [], op_have_minutes = False, op_have_cores = False,
      op_have_probe = False, op_want_self_test = False\<rparr>"

text \<open>Why the program stops at the command line; a complaint goes to standard error.\<close>

datatype halt = Show_Usage | Show_Version | Complain string

fun halt_code :: "halt \<Rightarrow> int" where
  "halt_code Show_Usage = k_exit_clean"
| "halt_code Show_Version = k_exit_clean"
| "halt_code (Complain message) = k_exit_usage"

definition long_in :: "platform \<Rightarrow> int \<Rightarrow> int \<Rightarrow> string \<Rightarrow> int option" where
  \<comment> \<open>the whole of the text is a number within the bounds\<close>
  "long_in pl low high value =
     (let (parsed, end') = strtol pl value
      in if end' \<noteq> [] \<or> parsed < low \<or> high < parsed then None else Some parsed)"

definition value_flags :: "string list" where
  "value_flags = [''--minutes'', ''--seed'', ''--cores'', ''--probe'', ''--layers'', ''--log'']"

definition apply_option :: "platform \<Rightarrow> string \<Rightarrow> string \<Rightarrow> options \<Rightarrow> string + options" where
  "apply_option pl flag value op =
     (if flag = ''--minutes'' then
        (case long_in pl 1 (uint k_max_minutes) value of
           None \<Rightarrow> Inl (''sdcprobe: --minutes expects 1..'' @ num k_max_minutes)
         | Some parsed \<Rightarrow> Inr (op\<lparr>op_minutes := word_of_int parsed, op_have_minutes := True\<rparr>))
      else if flag = ''--layers'' then
        (case long_in pl k_load_layers_min k_load_layers_max value of
           None \<Rightarrow> Inl (''sdcprobe: --layers expects '' @ dec_int k_load_layers_min @ ''..'' @ dec_int k_load_layers_max)
         | Some parsed \<Rightarrow> Inr (op\<lparr>op_layers := parsed\<rparr>))
      else if flag = ''--seed'' then Inr (op\<lparr>op_seed := word_of_int (strtoul pl value)\<rparr>)
      else if flag = ''--cores'' then Inr (op\<lparr>op_cores_spec := value, op_have_cores := True\<rparr>)
      else if flag = ''--probe'' then
        (case (if value = [] then None else parse_probe_selection value (op_probes op)) of
           None \<Rightarrow> Inl ''sdcprobe: --probe expects ch, rbx or all''
         | Some probes \<Rightarrow> Inr (op\<lparr>op_probes := probes, op_have_probe := True\<rparr>))
      else Inr (op\<lparr>op_log_path := value\<rparr>))"

fun parse_args :: "platform \<Rightarrow> string list \<Rightarrow> options \<Rightarrow> halt + options" where
  "parse_args pl [] op = Inr op"
| "parse_args pl (flag # args) op =
     (if flag = ''--help'' \<or> flag = ''-h'' then Inl Show_Usage
      else if flag = ''--version'' \<or> flag = ''-V'' then Inl Show_Version
      else if flag = ''--self-test'' then parse_args pl args (op\<lparr>op_want_self_test := True\<rparr>)
      else if flag \<notin> set value_flags then Inl (Complain (''sdcprobe: unexpected argument '' @ [quote] @ flag @ [quote]))
      else case args of
             [] \<Rightarrow> Inl (Complain (''sdcprobe: '' @ flag @ '' expects a value''))
           | value # args \<Rightarrow>
               (case apply_option pl flag value op of
                  Inl message \<Rightarrow> Inl (Complain message)
                | Inr op \<Rightarrow> parse_args pl args op))"

section \<open>The questions\<close>

definition fgets :: "nat \<Rightarrow> string \<Rightarrow> (string \<times> string) option" where
  \<comment> \<open>at most \<open>n - 1\<close> characters, up to and with the end of the line; None at the end of the input\<close>
  "fgets n input =
     (if input = [] then None
      else let line = takeWhile (\<lambda>c. c \<noteq> newline) input;
               k = min (n - 1) (if length line < length input then length line + 1 else length line)
           in Some (take k input, drop k input))"

definition read_line :: "string \<Rightarrow> (string \<times> string) option" where
  "read_line input = map_option (\<lambda>(buffer, input). (trim (c_str buffer), input)) (fgets 256 input)"

lemma read_line_shorter: "read_line input = Some (answer, rest) \<Longrightarrow> length rest < length input"
proof -
  assume "read_line input = Some (answer, rest)"
  then obtain k where "rest = drop k input" "input \<noteq> []" "k = 0 \<longrightarrow> \<not> length (takeWhile (\<lambda>c. c \<noteq> newline) input) < length input
      \<and> length (takeWhile (\<lambda>c. c \<noteq> newline) input) = 0"
    by (auto simp: read_line_def fgets_def Let_def min_def split: if_splits)
  then show ?thesis by (cases k) auto
qed

function ask_probe :: "bool \<Rightarrow> probe_selection \<Rightarrow> string \<Rightarrow> string \<Rightarrow> probe_selection \<times> string \<times> string" where
  "ask_probe interactive probes out input =
     (if \<not> interactive then (probes, out @ unlines [''Probe [ch]: ch   (stdin is not a terminal)''], input)
      else let out = out @ ''Probe - 'ch' (CH misread), 'rbx' (frame base) or 'all' [ch]: '' in
        case read_line input of
          None \<Rightarrow> (probes, out @ unlines [''ch   (end of input)''], input)
        | Some (answer, input) \<Rightarrow>
            (case parse_probe_selection answer probes of
               Some probes \<Rightarrow> (probes, out, input)
             | None \<Rightarrow> ask_probe interactive probes (out @ unlines [''  expected ch, rbx or all'']) input))"
  by pat_completeness auto
termination
  by (relation "measure (\<lambda>(_, _, _, input). length input)") (auto dest: read_line_shorter)

declare ask_probe.simps [simp del]

function ask_cores ::
  "platform \<Rightarrow> bool \<Rightarrow> string option \<Rightarrow> cpu_info list \<Rightarrow> string \<Rightarrow> string \<Rightarrow> cpu_info list option \<times> string \<times> string" where
  \<comment> \<open>with the text of \<open>--cores\<close>, if it was given; None: the text was refused\<close>
  "ask_cores pl interactive given available out input =
     (let (answer, out, input', asked) =
        (case given of
           Some spec \<Rightarrow> (spec, out, input, False)
         | None \<Rightarrow>
             if \<not> interactive
             then (''all'', out @ unlines [''Cores to test [all]: all   (stdin is not a terminal)''], input, False)
             else let out = out @ ''Cores to test - 'all', or a list like '0,1,2' or '0-7,16' [all]: '' in
               (case read_line input of
                  None \<Rightarrow> (''all'', out @ unlines [''all   (end of input)''], input, False)
                | Some (answer, input) \<Rightarrow> (answer, out, input, True)))
      in case parse_cpu_selection pl answer available of
           Inr selected \<Rightarrow> (Some selected, out, input')
         | Inl err \<Rightarrow>
             let out = out @ unlines [''  '' @ c_str err] in
             if \<not> asked then (None, out, input') else ask_cores pl interactive given available out input')"
  by pat_completeness auto
termination
  by (relation "measure (\<lambda>(_, _, _, _, _, input). length input)")
    (auto simp: Let_def dest: read_line_shorter split: option.splits if_splits prod.splits)

declare ask_cores.simps [simp del]

function ask_minutes :: "platform \<Rightarrow> bool \<Rightarrow> string \<Rightarrow> u32 \<Rightarrow> string \<Rightarrow> string \<Rightarrow> u32 \<times> string \<times> string" where
  "ask_minutes pl interactive prompt minutes out input =
     (if \<not> interactive then
        (minutes, out @ unlines [prompt @ '' ['' @ num k_default_minutes @ '']: '' @ num k_default_minutes
                                  @ ''   (stdin is not a terminal)''], input)
      else let out = out @ prompt @ '' ['' @ num k_default_minutes @ '']: '' in
        case read_line input of
          None \<Rightarrow> (minutes, out @ unlines [num k_default_minutes @ ''   (end of input)''], input)
        | Some (answer, input) \<Rightarrow>
            if answer = [] then (minutes, out, input)
            else (case long_in pl 1 (uint k_max_minutes) (c_str answer) of
                    None \<Rightarrow> ask_minutes pl interactive prompt minutes
                        (out @ unlines [''  expected an integer 1..'' @ num k_max_minutes]) input
                  | Some parsed \<Rightarrow> (word_of_int parsed, out, input)))"
  by pat_completeness auto
termination
  by (relation "measure (\<lambda>(_, _, _, _, _, input). length input)") (auto dest: read_line_shorter)

declare ask_minutes.simps [simp del]

section \<open>Accepted options\<close>

lemma strtol_dec_any: "strtol pl (dec n) = (min (long_max pl) (int n), [])"
proof -
  obtain d ds where d: "dec n = d # ds" by (cases "dec n") auto
  then have "isdigit d" using dec_isdigit [of n] by simp
  then have sign: "strip_sign (dropWhile isspace (dec n)) = (False, dec n)" by (simp add: d isdigit_plain)
  have tw: "takeWhile isdigit (dec n) = dec n" and dw: "dropWhile isdigit (dec n) = []"
    using takeWhile_all [OF dec_isdigit, of n "[]"] dropWhile_all [OF dec_isdigit, of n "[]"] by simp_all
  have "long_min pl \<le> int n" "long_min pl \<le> long_max pl" by (cases pl; simp add: long_min_def)+
  then show ?thesis by (simp add: strtol_def sign tw dw Let_def)
qed

lemma long_in_range: "long_in pl low high value = Some v \<Longrightarrow> low \<le> v \<and> v \<le> high"
  by (auto simp: long_in_def split: prod.splits if_splits)

lemma long_in_dec:
  assumes "high \<le> 4095"
  shows "long_in pl low high (dec n) = (if low \<le> int n \<and> int n \<le> high then Some (int n) else None)"
  using assms by (cases pl) (auto simp: long_in_def strtol_dec_any)

definition options_ok :: "options \<Rightarrow> bool" where
  "options_ok op \<longleftrightarrow> 1 \<le> unat (op_minutes op) \<and> unat (op_minutes op) \<le> 1440
     \<and> (op_layers op = 0 \<or> 1 \<le> op_layers op \<and> op_layers op \<le> 64)
     \<and> (sel_ch (op_probes op) \<or> sel_rbx (op_probes op))"

lemma unat_small_int: "0 \<le> v \<Longrightarrow> v < 4294967296 \<Longrightarrow> unat (word_of_int v :: u32) = nat v"
  by (simp only: unat_eq_nat_uint uint_word_of_int_eq) (simp add: take_bit_int_eq_self)

lemma minutes_range: "long_in pl 1 (uint k_max_minutes) value = Some v \<Longrightarrow>
    1 \<le> unat (word_of_int v :: u32) \<and> unat (word_of_int v :: u32) \<le> 1440"
  using long_in_range [of pl 1 "uint k_max_minutes" "value" v] by (simp add: k_max_minutes_def unat_small_int) linarith

lemma parse_probe_some:
  assumes "parse_probe_selection text probes = Some probes'" and "sel_ch probes \<or> sel_rbx probes"
  shows "sel_ch probes' \<or> sel_rbx probes'"
  using assms by (auto simp: parse_probe_selection_def Let_def split: if_splits)

lemma apply_option_ok: "apply_option pl flag value op = Inr op' \<Longrightarrow> options_ok op \<Longrightarrow> options_ok op'"
  using minutes_range [of pl "value"] long_in_range [of pl k_load_layers_min k_load_layers_max "value"]
  by (auto simp: apply_option_def options_ok_def k_load_layers_min_def k_load_layers_max_def
      dest: parse_probe_some split: if_splits option.splits)

lemma parse_args_ok: "parse_args pl args op = Inr op' \<Longrightarrow> options_ok op \<Longrightarrow> options_ok op'"
proof (induction pl args op rule: parse_args.induct)
  case (2 pl flag args op)
  show ?case
  proof (cases "flag = ''--self-test''")
    case True
    with 2(1,3,4) show ?thesis by (simp add: options_ok_def)
  next
    case False
    with 2(3) obtain v args' op1 where "args = v # args'" "apply_option pl flag v op = Inr op1"
        "parse_args pl args' op1 = Inr op'" "flag \<in> set value_flags" "\<not> (flag = ''--help'' \<or> flag = ''-h'')"
        "\<not> (flag = ''--version'' \<or> flag = ''-V'')"
      by (simp split: if_splits list.splits sum.splits)
    with 2(2) [of v args' op1] 2(4) False apply_option_ok show ?thesis by simp
  qed
qed simp

lemma default_ok: "options_ok default_options"
  by (simp add: options_ok_def default_options_def k_default_minutes_def probe_selection_init_def)

text \<open>
  Property C40: whatever the command line, an accepted one leaves a run that makes sense: the
  minutes are within 1..1440, the layer count is unset or within 1..64, and a probe is selected.
\<close>

theorem accepted_options:
  assumes "parse_args pl args default_options = Inr op"
  shows "1 \<le> unat (op_minutes op) \<and> unat (op_minutes op) \<le> 1440
    \<and> (op_layers op = 0 \<or> 1 \<le> op_layers op \<and> op_layers op \<le> 64)
    \<and> (sel_ch (op_probes op) \<or> sel_rbx (op_probes op))"
  using parse_args_ok [OF assms default_ok] by (simp add: options_ok_def)

text \<open>
  The option \<open>--minutes\<close> accepts the numbers it says. On either platform, for any
  number however long its numeral, it is taken over exactly if it lies within 1..1440.
\<close>

lemma minutes_option:
  "parse_args pl [''--minutes'', dec n] default_options =
     (if 1 \<le> n \<and> n \<le> 1440
      then Inr (default_options\<lparr>op_minutes := of_nat n, op_have_minutes := True\<rparr>)
      else Inl (Complain (''sdcprobe: --minutes expects 1..'' @ num k_max_minutes)))"
  using long_in_dec [of "uint k_max_minutes" pl 1 n]
  by (auto simp: value_flags_def apply_option_def k_max_minutes_def)

section \<open>Answers\<close>

lemma ask_probe_some:
  "ask_probe interactive probes out input = (probes', out', input') \<Longrightarrow> sel_ch probes \<or> sel_rbx probes
    \<Longrightarrow> sel_ch probes' \<or> sel_rbx probes'"
proof (induction input arbitrary: out rule: length_induct)
  case (1 input)
  show ?case
  proof (cases "interactive \<and> read_line input \<noteq> None")
    case True
    then obtain answer rest where read: "interactive" "read_line input = Some (answer, rest)" by auto
    show ?thesis
    proof (cases "parse_probe_selection answer probes")
      case None
      have "\<exists>out2. ask_probe interactive probes out input = ask_probe interactive probes out2 rest"
        using None read by (subst ask_probe.simps) (auto simp: Let_def)
      then obtain out2 where "ask_probe interactive probes out2 rest = (probes', out', input')" using 1(2) by metis
      with 1(1) 1(3) read_line_shorter [OF read(2)] show ?thesis by blast
    next
      case (Some p)
      with 1(2) [unfolded ask_probe.simps [of interactive probes out input]] read have "probes' = p"
        by (simp add: Let_def)
      with parse_probe_some [OF Some 1(3)] show ?thesis by simp
    qed
  next
    case False
    then have "\<not> interactive \<or> read_line input = None" by blast
    with 1(2) [unfolded ask_probe.simps [of interactive probes out input]] 1(3) show ?thesis
      by (auto simp: Let_def split: if_splits)
  qed
qed

lemma ask_minutes_range:
  "ask_minutes pl interactive prompt minutes out input = (minutes', out', input') \<Longrightarrow>
    1 \<le> unat minutes \<and> unat minutes \<le> 1440 \<Longrightarrow> 1 \<le> unat minutes' \<and> unat minutes' \<le> 1440"
proof (induction input arbitrary: out rule: length_induct)
  case (1 input)
  show ?case
  proof (cases "interactive \<and> read_line input \<noteq> None \<and> fst (the (read_line input)) \<noteq> []")
    case True
    then obtain answer rest where read: "interactive" "read_line input = Some (answer, rest)" "answer \<noteq> []" by auto
    show ?thesis
    proof (cases "long_in pl 1 (uint k_max_minutes) (c_str answer)")
      case None
      have "\<exists>out2. ask_minutes pl interactive prompt minutes out input = ask_minutes pl interactive prompt minutes out2 rest"
        using None read by (subst ask_minutes.simps) (auto simp: Let_def)
      then obtain out2 where "ask_minutes pl interactive prompt minutes out2 rest = (minutes', out', input')" using 1(2) by metis
      with 1(1) 1(3) read_line_shorter [OF read(2)] show ?thesis by blast
    next
      case (Some v)
      with 1(2) [unfolded ask_minutes.simps [of pl interactive prompt minutes out input]] read
      have "minutes' = word_of_int v" by (simp add: Let_def)
      with minutes_range [OF Some] show ?thesis by simp
    qed
  next
    case False
    then have "\<not> interactive \<or> read_line input = None \<or> (\<exists>rest. read_line input = Some ([], rest))" by force
    with 1(2) [unfolded ask_minutes.simps [of pl interactive prompt minutes out input]] 1(3) show ?thesis
      by (auto simp: Let_def split: if_splits)
  qed
qed

lemma ask_cores_parsed:
  "ask_cores pl interactive given available out input = (Some selected, out', input') \<Longrightarrow>
    \<exists>answer. parse_cpu_selection pl answer available = Inr selected"
proof (induction input arbitrary: out rule: length_induct)
  case (1 input)
  show ?case
  proof (cases "given = None \<and> interactive \<and> read_line input \<noteq> None")
    case True
    then obtain answer rest where read: "given = None" "interactive" "read_line input = Some (answer, rest)" by auto
    show ?thesis
    proof (cases "parse_cpu_selection pl answer available")
      case (Inl err)
      have "\<exists>out2. ask_cores pl interactive given available out input = ask_cores pl interactive given available out2 rest"
        using Inl read by (subst ask_cores.simps) (auto simp: Let_def)
      then obtain out2 where "ask_cores pl interactive given available out2 rest = (Some selected, out', input')" using 1(2) by metis
      with 1(1) read_line_shorter [OF read(3)] show ?thesis by blast
    next
      case (Inr sel)
      with 1(2) [unfolded ask_cores.simps [of pl interactive given available out input]] read show ?thesis
        by (auto simp: Let_def)
    qed
  next
    case False
    then have "\<not> interactive \<or> read_line input = None \<or> given \<noteq> None"
      by argo
    with 1(2) [unfolded ask_cores.simps [of pl interactive given available out input]] show ?thesis
      by (auto simp: Let_def split: sum.splits option.splits if_splits prod.splits)
  qed
qed

section \<open>Witnesses\<close>

definition lab_args :: "string list" where
  "lab_args = [''sdcprobe'', ''--probe'', ''all'', ''--layers'', ''5'']"

definition lab_options :: options where
  "lab_options = default_options\<lparr>op_probes := \<lparr>sel_ch = True, sel_rbx = True\<rparr>, op_have_probe := True, op_layers := 5\<rparr>"

lemma lab_parsed_anywhere: "\<forall>pl. parse_args pl (drop 1 lab_args) default_options = Inr lab_options"
  by code_simp

lemmas lab_parsed = lab_parsed_anywhere [rule_format, of Linux]

lemma accepted_options_witness: "1 \<le> unat (op_minutes lab_options)"
  using accepted_options [OF lab_parsed] by blast

end
