(* ===== verification/Self_Test.thy ===== *)
theory Self_Test
  imports Run_Rbx
begin

text \<open>
  The self-tests of both probes (sdcprobe.cpp, \<open>self_test\<close> and \<open>rbx_self_test\<close>): the injected
  misreads with the verdict on each, the two-byte case, and the three checks of the rbx probe.
\<close>

section \<open>The ch probe\<close>

record injection =
  in_sample :: u64
  in_lane :: u32
  in_replacement :: u8

definition injections :: "nat \<Rightarrow> injection list" where
  "injections sample_count =
     map (\<lambda>(sample_index, lane, replacement).
            \<lparr>in_sample = of_nat sample_index, in_lane = lane, in_replacement = replacement\<rparr>)
       [(0, 0, 0x00), (0, 1, 0x00), (1, 2, 0x00), (1, 3, 0x00), (16610, 1, 0x00), (16610, 1, 0x5D),
        (sample_count div 2, 2, 0xFF), (sample_count - 1, 3, 0x00)]"

record self_test_state =
  ts_log :: logger
  ts_forward :: "u64 list"
  ts_backward :: "u64 list"
  ts_passed :: u32
  ts_failed :: u32

definition byte_index :: "injection \<Rightarrow> nat" where
  "byte_index injection = unat (in_sample injection) * 4 + unat (in_lane injection)"

definition injected_text :: "injection \<Rightarrow> u8 \<Rightarrow> string" where
  "injected_text injection original =
     ''injected lane '' @ dec (unat (in_lane injection)) @ '' of sample '' @ dec (unat (in_sample injection))
     @ '' ('' @ hex0 2 (unat original) @ '' -> '' @ hex0 2 (unat (in_replacement injection)) @ '')''"

definition analysis_text :: "reverse_result \<Rightarrow> string" where
  "analysis_text r =
     ''        analysis said: single_byte '' @ (if rr_single_byte r then ''1'' else ''0'')
     @ '' lane '' @ dec (unat (rr_lane r)) @ '' sample '' @ dec (unat (rr_sample_index r))
     @ '' '' @ hex0 2 (unat (rr_stored r)) @ '' -> '' @ hex0 2 (unat (rr_observed r))"

definition inject_one :: "f32 list \<Rightarrow> injection \<Rightarrow> self_test_state \<Rightarrow> self_test_state option" where
  "inject_one samples injection s =
     do {
       original \<leftarrow> vec_get (sample_bytes samples) (byte_index injection);
       if original = in_replacement injection
       then Some (s\<lparr>ts_log := log_line (''  SKIP  sample '' @ dec (unat (in_sample injection)) @ '' lane ''
                       @ dec (unat (in_lane injection)) @ '': stored byte already ''
                       @ hex0 2 (unat (in_replacement injection))) (ts_log s)\<rparr>)
       else do {
         corrupted \<leftarrow> replay_hash_with_substitution samples (length samples) (byte_index injection)
                        (in_replacement injection);
         (r, forward, backward) \<leftarrow> reverse_fnv samples corrupted (ts_forward s) (ts_backward s);
         let s = s\<lparr>ts_forward := forward, ts_backward := backward\<rparr>;
         let ok = (rr_single_byte r \<and> rr_lane r = in_lane injection \<and> rr_sample_index r = in_sample injection
                   \<and> rr_stored r = ucast original \<and> rr_observed r = ucast (in_replacement injection));
         Some (if ok
               then s\<lparr>ts_log := log_line (''  PASS  '' @ injected_text injection original @ '', analysis agreed'') (ts_log s),
                      ts_passed := ts_passed s + 1\<rparr>
               else s\<lparr>ts_log := log_line (analysis_text r)
                                  (log_line (''  FAIL  '' @ injected_text injection original) (ts_log s)),
                      ts_failed := ts_failed s + 1\<rparr>)
       }
     }"

definition two_byte_hash :: "f32 list \<Rightarrow> nat \<Rightarrow> u64 option" where
  "two_byte_hash samples sample_count =
     for_each [0..<sample_count * 4]
       (\<lambda>k hash. do {
          b \<leftarrow> vec_get (sample_bytes samples) k;
          let byte = (if k = 1000 * 4 + 1 \<or> k = 50000 * 4 + 2 then b XOR 0x5A else b);
          Some (fnv_step hash byte) }) k_fnv_basis"

definition two_byte_case :: "f32 list \<Rightarrow> self_test_state \<Rightarrow> self_test_state option" where
  "two_byte_case samples s =
     do {
       hash \<leftarrow> two_byte_hash samples (length samples);
       (r, forward, backward) \<leftarrow> reverse_fnv samples hash (ts_forward s) (ts_backward s);
       let s = s\<lparr>ts_forward := forward, ts_backward := backward\<rparr>;
       Some (if \<not> rr_single_byte r
             then s\<lparr>ts_log := log_line ''  PASS  two injected bytes reported as multi-byte, not single'' (ts_log s),
                    ts_passed := ts_passed s + 1\<rparr>
             else s\<lparr>ts_log := log_line (''  FAIL  two injected bytes reported as a single-byte misread (lane ''
                       @ dec (unat (rr_lane r)) @ '' sample '' @ dec (unat (rr_sample_index r)) @ '')'') (ts_log s),
                    ts_failed := ts_failed s + 1\<rparr>)
     }"

definition clean_case :: "bool \<Rightarrow> logger \<Rightarrow> workspace \<Rightarrow> self_test_state" where
  "clean_case same lg work =
     (let s = \<lparr>ts_log = lg, ts_forward = ws_forward work, ts_backward = ws_backward work,
               ts_passed = 0, ts_failed = 0\<rparr>
      in if same
         then s\<lparr>ts_log := log_line ''  PASS  clean round: register path and memory path agree'' lg, ts_passed := 1\<rparr>
         else s\<lparr>ts_log :=
                log_line ''        not a self-test failure. Run without --self-test to investigate.''
                  (log_line ''  NOTE  clean round: the two paths DISAGREE - that is a real detection,'' lg)\<rparr>)"

definition count_line :: "u32 \<Rightarrow> u32 \<Rightarrow> logger \<Rightarrow> logger" where
  "count_line passed failed lg =
     log_line (''self-test: '' @ dec (unat passed) @ '' passed, '' @ dec (unat failed) @ '' failed'') (log_blank lg)"

definition self_test :: "cpu \<Rightarrow> int \<Rightarrow> u32 \<Rightarrow> logger \<Rightarrow> workspace \<Rightarrow> (bool \<times> logger \<times> workspace) option" where
  "self_test cpu layers seed lg work =
     do {
       let lg = log_line ''self-test: verifying the detector against injected misreads'' lg;
       let sample_count = length (ws_samples work);
       (register_hash, samples) \<leftarrow> compute_rows cpu layers seed k_rows (ws_samples work);
       memory_hash \<leftarrow> replay_hash samples sample_count;
       let s = clean_case (register_hash = memory_hash) lg work;
       s \<leftarrow> for_each (injections sample_count) (inject_one samples) s;
       s \<leftarrow> two_byte_case samples s;
       Some (ts_failed s = 0, count_line (ts_passed s) (ts_failed s) (ts_log s),
             work\<lparr>ws_samples := samples, ws_forward := ts_forward s, ws_backward := ts_backward s\<rparr>)
     }"

section \<open>What a verdict means\<close>

text \<open>
  A case is sound when no other byte of the stream explains the hash it makes: for an injected
  byte none before it, for the two bytes none at all.
\<close>

definition injection_clear :: "u8 list \<Rightarrow> injection \<Rightarrow> bool" where
  "injection_clear bytes injection \<longleftrightarrow>
     (let k = byte_index injection; b = in_replacement injection
      in bytes ! k = b \<or> (\<forall>i<k. \<forall>c. \<not> explains bytes (foldl fnv_step k_fnv_basis (bytes[k := b])) i c))"

definition two_bytes_changed :: "u8 list \<Rightarrow> u8 list" where
  "two_bytes_changed bytes = (bytes[4001 := bytes ! 4001 XOR 0x5A])[200002 := bytes ! 200002 XOR 0x5A]"

definition two_byte_clear :: "u8 list \<Rightarrow> bool" where
  "two_byte_clear bytes \<longleftrightarrow>
     (\<forall>i<length bytes. \<forall>c. \<not> explains bytes (foldl fnv_step k_fnv_basis (two_bytes_changed bytes)) i c)"

definition state_fits :: "f32 list \<Rightarrow> self_test_state \<Rightarrow> bool" where
  "state_fits samples s \<longleftrightarrow> buffers_fit samples (ts_forward s) (ts_backward s)"

lemma fits_kept:
  "buffers_fit samples f b \<Longrightarrow> reverse_fnv samples wrong f b = Some (r, f', b') \<Longrightarrow> buffers_fit samples f' b'"
  using reverse_fnv_lengths [of samples f b wrong r f' b'] by (simp add: buffers_fit_def)

lemma words_of_nat_eq:
  "i < 2 ^ 64 \<Longrightarrow> j < 2 ^ 64 \<Longrightarrow>
     (of_nat (i mod 4) :: u32) = of_nat (j mod 4) \<and> (of_nat (i div 4) :: u64) = of_nat (j div 4) \<longleftrightarrow> i = j"
  for i j :: nat
proof
  assume bound: "i < 2 ^ 64" "j < 2 ^ 64"
    and same: "(of_nat (i mod 4) :: u32) = of_nat (j mod 4) \<and> (of_nat (i div 4) :: u64) = of_nat (j div 4)"
  then have "i mod 4 = j mod 4" "i div 4 = j div 4"
    using small_lane [of i] small_lane [of j] small_index [OF bound(1)] small_index [OF bound(2)] by metis+
  then show "i = j" by (metis div_mult_mod_eq)
qed simp

text \<open>The verdict on one injected byte.\<close>

lemma inject_one_eq:
  fixes samples injection s
  defines "bytes \<equiv> sample_bytes samples"
  assumes fit: "state_fits samples s" and lane: "in_lane injection < 4"
    and sample: "unat (in_sample injection) < length samples"
  shows "\<exists>s'. inject_one samples injection s = Some s' \<and> state_fits samples s'
    \<and> ts_failed s' = ts_failed s + (if injection_clear bytes injection then 0 else 1)"
proof -
  let ?k = "byte_index injection" and ?b = "in_replacement injection"
  have l4: "unat (in_lane injection) < 4" using lane by (simp add: word_less_nat_alt)
  then have k: "?k < 4 * length samples" "?k mod 4 = unat (in_lane injection)" "?k div 4 = unat (in_sample injection)"
    using sample by (simp_all add: byte_index_def)
  have k64: "?k < 2 ^ 64" using k(1) fit by (simp add: state_fits_def buffers_fit_def)
  have get: "vec_get (sample_bytes samples) ?k = Some (bytes ! ?k)" using k(1) by (simp add: vec_simps bytes_def)
  show ?thesis
  proof (cases "bytes ! ?k = ?b")
    case True
    with get fit show ?thesis by (simp add: inject_one_def injection_clear_def state_fits_def Let_def)
  next
    case False
    let ?wrong = "foldl fnv_step k_fnv_basis (bytes[?k := ?b])"
    have e: "explains bytes ?wrong ?k ?b" using False by (simp add: explains_def)
    have f: "buffers_fit samples (ts_forward s) (ts_backward s)" using fit by (simp add: state_fits_def)
    obtain i fw bw where i: "i < 4 * length samples" "candidate bytes ?wrong i" "\<forall>j<i. \<not> candidate bytes ?wrong j"
        "reverse_fnv samples ?wrong (ts_forward s) (ts_backward s)
          = Some (found_at bytes ?wrong i (4 * length samples + 1), fw, bw)"
      using reverse_fnv_cases [OF f, of ?wrong] explains_candidate(1) [of ?k bytes ?wrong ?b] e k(1)
      by (auto simp: bytes_def split: if_splits)
    have i64: "i < 2 ^ 64" using i(1) f by (simp add: buffers_fit_def)
    have "candidate bytes ?wrong ?k" using explains_candidate(1) [of ?k bytes ?wrong ?b] e k(1) by (simp add: bytes_def)
    with i(3) have le: "i \<le> ?k" by (meson not_le)
    have clear: "injection_clear bytes injection \<longleftrightarrow> i = ?k"
    proof
      assume "injection_clear bytes injection"
      then have "\<forall>j<?k. \<forall>c. \<not> explains bytes ?wrong j c" using False by (simp add: injection_clear_def Let_def)
      then show "i = ?k" using candidate_iff [of i bytes ?wrong] i(1,2) le by (auto simp: bytes_def le_less)
    next
      assume "i = ?k"
      then show "injection_clear bytes injection"
        using i(1,3) candidate_iff [of _ bytes ?wrong] by (auto simp: injection_clear_def Let_def bytes_def)
    qed
    define r where "r = found_at bytes ?wrong i (4 * length samples + 1)"
    have lanes: "in_lane injection = of_nat (?k mod 4)" "in_sample injection = of_nat (?k div 4)"
      by (simp_all add: k)
    have rev: "reverse_fnv samples ?wrong (ts_forward s) (ts_backward s) = Some (r, fw, bw)"
      unfolding r_def by (rule i(4))
    have place: "rr_lane r = in_lane injection \<and> rr_sample_index r = in_sample injection \<longleftrightarrow> i = ?k"
      unfolding r_def found_at_def lanes using words_of_nat_eq [OF i64 k64] by simp
    have "rr_stored r = ucast (bytes ! ?k) \<and> rr_observed r = ucast ?b" if "i = ?k"
      using explains_candidate(2) [OF _ e] k(1) by (simp add: r_def found_at_def that bytes_def)
    moreover have "rr_single_byte r" by (simp add: r_def found_at_def)
    ultimately have ok: "rr_single_byte r \<and> rr_lane r = in_lane injection \<and> rr_sample_index r = in_sample injection
        \<and> rr_stored r = ucast (bytes ! ?k) \<and> rr_observed r = ucast ?b \<longleftrightarrow> injection_clear bytes injection"
      using clear place by blast
    have "replay_hash_with_substitution samples (length samples) ?k ?b = Some ?wrong"
      using replay_hash_with_substitution_eq [OF k(1)] by (simp add: bytes_def)
    then show ?thesis
      using get False rev fits_kept [OF f rev] by (simp add: inject_one_def ok state_fits_def Let_def)
  qed
qed

lemma inject_all:
  assumes "state_fits samples s"
    and "\<forall>injection\<in>set xs. in_lane injection < 4 \<and> unat (in_sample injection) < length samples"
  shows "\<exists>s'. for_each xs (inject_one samples) s = Some s' \<and> state_fits samples s'
    \<and> ts_failed s' = ts_failed s + of_nat (length (filter (\<lambda>x. \<not> injection_clear (sample_bytes samples) x) xs))"
  using assms
proof (induction xs arbitrary: s)
  case (Cons x xs)
  have x: "in_lane x < 4" "unat (in_sample x) < length samples" using Cons.prems(2) by simp_all
  obtain s1 where s1: "inject_one samples x s = Some s1" "state_fits samples s1"
      "ts_failed s1 = ts_failed s + (if injection_clear (sample_bytes samples) x then 0 else 1)"
    using inject_one_eq [OF Cons.prems(1) x] by blast
  with Cons.IH [OF s1(2)] Cons.prems(2) show ?case by (auto simp: algebra_simps)
qed simp

lemma two_byte_hash_eq:
  assumes "200002 < length (sample_bytes samples)"
  shows "two_byte_hash samples (length samples)
    = Some (foldl fnv_step k_fnv_basis (two_bytes_changed (sample_bytes samples)))"
proof -
  let ?bs = "sample_bytes samples"
  have "map (\<lambda>k. if k = 1000 * 4 + 1 \<or> k = 50000 * 4 + 2 then ?bs ! k XOR 0x5A else ?bs ! k) [0..<length ?bs]
      = two_bytes_changed ?bs"
    using assms by (intro nth_equalityI) (auto simp: two_bytes_changed_def nth_list_update)
  then show ?thesis
    using for_each_bytes [of "length ?bs" ?bs "\<lambda>k b. if k = 1000 * 4 + 1 \<or> k = 50000 * 4 + 2 then b XOR 0x5A else b" k_fnv_basis]
    by (simp add: two_byte_hash_def mult.commute)
qed

definition overread :: "u8 list \<Rightarrow> u64 \<Rightarrow> bool" where
  \<comment> \<open>the scan reads past the array: only the low byte of the final hash differs and no byte explains it\<close>
  "overread bytes wrong \<longleftrightarrow> candidate bytes wrong (length bytes)
     \<and> (\<forall>i<length bytes. \<forall>c. \<not> explains bytes wrong i c)"

lemma two_byte_case_eq:
  fixes samples s
  defines "bytes \<equiv> sample_bytes samples"
  assumes fit: "state_fits samples s" and long: "200002 < length bytes"
  shows "if overread bytes (foldl fnv_step k_fnv_basis (two_bytes_changed bytes)) then two_byte_case samples s = None
    else \<exists>s'. two_byte_case samples s = Some s' \<and> state_fits samples s'
      \<and> ts_failed s' = ts_failed s + (if two_byte_clear bytes then 0 else 1)"
proof -
  let ?wrong = "foldl fnv_step k_fnv_basis (two_bytes_changed bytes)"
  have f: "buffers_fit samples (ts_forward s) (ts_backward s)" using fit by (simp add: state_fits_def)
  have hash: "two_byte_hash samples (length samples) = Some ?wrong" using two_byte_hash_eq long by (simp add: bytes_def)
  have len: "4 * length samples = length bytes" by (simp add: bytes_def)
  have none: "(\<forall>i<length bytes. \<not> candidate bytes ?wrong i) \<longleftrightarrow> two_byte_clear bytes"
    by (auto simp: two_byte_clear_def candidate_iff)
  have over: "overread bytes ?wrong \<longleftrightarrow> candidate bytes ?wrong (length bytes) \<and> two_byte_clear bytes"
    by (auto simp: overread_def two_byte_clear_def)
  consider (found) k fw bw where "k < length bytes" "candidate bytes ?wrong k"
      "reverse_fnv samples ?wrong (ts_forward s) (ts_backward s) = Some (found_at bytes ?wrong k (length bytes + 1), fw, bw)"
    | (over) "two_byte_clear bytes" "candidate bytes ?wrong (length bytes)"
      "reverse_fnv samples ?wrong (ts_forward s) (ts_backward s) = None"
    | (clear) r fw bw where "two_byte_clear bytes" "\<not> candidate bytes ?wrong (length bytes)"
      "reverse_fnv samples ?wrong (ts_forward s) (ts_backward s) = Some (r, fw, bw)" "\<not> rr_single_byte r"
    using reverse_fnv_cases [OF f, of ?wrong, unfolded len, folded bytes_def] none by (auto split: if_splits)
  then show ?thesis
  proof cases
    case found
    then have "\<not> two_byte_clear bytes" using none by blast
    with found hash fits_kept [OF f found(3)] show ?thesis
      by (auto simp: two_byte_case_def over state_fits_def found_at_def Let_def)
  next
    case over
    with hash show ?thesis by (simp add: two_byte_case_def overread_def two_byte_clear_def)
  next
    case clear
    with hash fits_kept [OF f clear(3)] show ?thesis
      by (auto simp: two_byte_case_def overread_def state_fits_def Let_def)
  qed
qed

lemma grid_injections:
  "injections 100000 = map (\<lambda>(sample_index, lane, replacement).
      \<lparr>in_sample = sample_index, in_lane = lane, in_replacement = replacement\<rparr>)
    [(0, 0, 0x00), (0, 1, 0x00), (1, 2, 0x00), (1, 3, 0x00), (16610, 1, 0x00), (16610, 1, 0x5D),
     (50000, 2, 0xFF), (99999, 3, 0x00)]"
  by (simp add: injections_def)

text \<open>
  Property C17: the self-test fails only on a collision. Whatever the processor does with its
  registers, the self-test's verdict depends on the bytes in memory alone: it passes exactly if,
  for each injected byte that differs from the stored one, no earlier single byte explains the
  same hash, and no single byte explains the hash of the two-byte case; and it returns unless
  that hash is one on which the analysis reads past its array.
\<close>

theorem self_test_exact:
  assumes "work_ok work"
  shows "let bytes = sample_bytes (grid_values cpu layers seed (k_rows * k_cols)) in
    if overread bytes (foldl fnv_step k_fnv_basis (two_bytes_changed bytes)) then self_test cpu layers seed lg work = None
    else \<exists>lg' work'. work_ok work' \<and> self_test cpu layers seed lg work
      = Some ((\<forall>injection\<in>set (injections 100000). injection_clear bytes injection) \<and> two_byte_clear bytes, lg', work')"
proof -
  define vals where "vals = grid_values cpu layers seed (k_rows * k_cols)"
  define bytes where "bytes = sample_bytes vals"
  have len: "length vals = 100000" by (simp add: vals_def grid_size)
  have work: "length (ws_samples work) = 100000" "buffers_fit vals (ws_forward work) (ws_backward work)"
    using assms len by (simp_all add: work_ok_def grid_size buffers_fit_def)
  let ?hash = "foldl fnv_step k_fnv_basis (register_bytes cpu layers seed (k_rows * k_cols))"
  have rows: "compute_rows cpu layers seed k_rows (ws_samples work) = Some (?hash, vals)"
    using compute_rows_eq [of k_rows "ws_samples work" cpu layers seed] work by (simp add: vals_def grid_size)
  have mem: "replay_hash vals 100000 = Some (foldl fnv_step k_fnv_basis bytes)"
    using replay_hash_eq [of vals] len by (simp add: bytes_def)
  define s0 where "s0 = clean_case (?hash = foldl fnv_step k_fnv_basis bytes)
    (log_line ''self-test: verifying the detector against injected misreads'' lg) work"
  have s0: "state_fits vals s0" "ts_failed s0 = 0"
    using work by (simp_all add: s0_def clean_case_def state_fits_def Let_def)
  have run: "self_test cpu layers seed lg work = do {
         s \<leftarrow> for_each (injections 100000) (inject_one vals) s0;
         s \<leftarrow> two_byte_case vals s;
         Some (ts_failed s = 0, count_line (ts_passed s) (ts_failed s) (ts_log s),
             work\<lparr>ws_samples := vals, ws_forward := ts_forward s, ws_backward := ts_backward s\<rparr>)
       }"
    using rows mem work by (simp add: self_test_def s0_def)
  have "\<forall>injection\<in>set (injections 100000). in_lane injection < 4 \<and> unat (in_sample injection) < length vals"
    by (simp add: grid_injections len)
  from inject_all [OF s0(1) this] obtain s1 where s1: "for_each (injections 100000) (inject_one vals) s0 = Some s1"
      "state_fits vals s1" "ts_failed s1 = of_nat (length (filter (\<lambda>x. \<not> injection_clear bytes x) (injections 100000)))"
    using s0(2) by (auto simp: bytes_def)
  let ?bad = "length (filter (\<lambda>x. \<not> injection_clear bytes x) (injections 100000))"
  have few: "?bad \<le> 8" by (rule order_trans [OF length_filter_le]) (simp add: injections_def)
  have bad: "?bad = 0 \<longleftrightarrow> (\<forall>injection\<in>set (injections 100000). injection_clear bytes injection)"
    by (simp add: filter_empty_conv)
  have zero: "(of_nat ?bad :: u32) + (if clear then 0 else 1) = 0 \<longleftrightarrow> ?bad = 0 \<and> clear" for clear
    using few by (cases clear) (simp_all add: unat_eq_0 [symmetric] unat_of_nat unat_word_ariths)
  have long: "200002 < length (sample_bytes vals)" using len by simp
  show ?thesis
  proof (cases "overread bytes (foldl fnv_step k_fnv_basis (two_bytes_changed bytes))")
    case True
    then show ?thesis
      using two_byte_case_eq [OF s1(2) long] run s1(1) by (simp add: bytes_def vals_def)
  next
    case False
    then obtain s2 where s2: "two_byte_case vals s1 = Some s2" "state_fits vals s2"
        "ts_failed s2 = ts_failed s1 + (if two_byte_clear bytes then 0 else 1)"
      using two_byte_case_eq [OF s1(2) long] by (auto simp: bytes_def)
    have "ts_failed s2 = 0 \<longleftrightarrow> (\<forall>injection\<in>set (injections 100000). injection_clear bytes injection) \<and> two_byte_clear bytes"
      unfolding s2(3) s1(3) zero bad ..
    moreover have "work_ok (work\<lparr>ws_samples := vals, ws_forward := ts_forward s2, ws_backward := ts_backward s2\<rparr>)"
      using assms s2(2) len by (simp add: work_ok_def state_fits_def buffers_fit_def grid_size)
    ultimately show ?thesis
      using False run s1(1) s2(1) unfolding Let_def vals_def [symmetric] bytes_def [symmetric] by auto
  qed
qed


lemma self_test_exact_witness:
  "self_test healthy_cpu 5 42 (new_logger [] (\<lambda>_. None)) grid_work = None
   \<longleftrightarrow> overread (sample_bytes (grid_values healthy_cpu 5 42 (k_rows * k_cols)))
        (foldl fnv_step k_fnv_basis (two_bytes_changed (sample_bytes (grid_values healthy_cpu 5 42 (k_rows * k_cols)))))"
  using self_test_exact [OF grid_work_ok, of healthy_cpu 5 42 "new_logger [] (\<lambda>_. None)"]
  unfolding Let_def by (auto split: if_splits)

section \<open>The rbx probe\<close>

definition check_line :: "bool \<Rightarrow> string \<Rightarrow> string \<Rightarrow> logger \<times> u32 \<times> u32 \<Rightarrow> logger \<times> u32 \<times> u32" where
  \<comment> \<open>one of the three checks, and the two counters\<close>
  "check_line good pass_text fail_text st =
     (let (lg, passed, failed) = st
      in if good then (log_line pass_text lg, passed + 1, failed) else (log_line fail_text lg, passed, failed + 1))"

definition rbx_self_test ::
  "rbx_symbols \<Rightarrow> rbx_os \<Rightarrow> (nat \<Rightarrow> payload) \<Rightarrow> (nat \<Rightarrow> bool) \<Rightarrow> logger \<Rightarrow> rbx_state
    \<Rightarrow> (bool \<times> logger \<times> rbx_state) option" where
  "rbx_self_test sy os payloads prctl_ok lg s =
     (let lg = log_line ''self-test: verifying the rbx probe against an injected frame-base change'' lg in
      case sdc_rbx_supported (os_avx2 os) of
        Some problem \<Rightarrow>
          Some (True, log_line ''self-test: rbx probe not available on this machine''
                        (log_blank (log_line (''  SKIP  '' @ c_str problem) lg)), s)
      | None \<Rightarrow>
          (case sdc_rbx_prepare sy os s of
             (Some problem, s) \<Rightarrow> Some (False, log_line (''  FAIL  cannot set the probe up: '' @ c_str problem) lg, s)
           | (None, s) \<Rightarrow> do {
               (r, s) \<leftarrow> sdc_rbx_self_test sy payloads prctl_ok s;
               let st = check_line (st_clean_pass_ok r)
                   (''  PASS  clean pass: '' @ dec (unat k_rbx_calls_per_pass) @ '' calls, hash as computed independently'')
                   ''  FAIL  clean pass did not complete with the expected hash'' (lg, 0, 0);
               let st = check_line (st_injected_caught r)
                   (''  PASS  frame base moved by 0xa0 in call 1000: caught ('' @ c_str (st_detail r) @ '')'')
                   ''  FAIL  frame base moved by 0xa0 in call 1000: nothing was caught'' st;
               let (lg, passed, failed) = check_line (st_recovered r)
                   ''  PASS  pass after the fault: clean, state was rebuilt''
                   ''  FAIL  pass after the fault did not complete with the expected hash'' st;
               Some (failed = 0, count_line passed failed lg, s)
             }))"

lemma check_lines:
  "snd (snd (check_line c p3 f3 (check_line b p2 f2 (check_line a p1 f1 (lg, 0, 0))))) = 0 \<longleftrightarrow> a \<and> b \<and> c"
  by (simp add: check_line_def)

text \<open>The verdict is that of the three checks.\<close>

lemma rbx_self_test_verdict:
  assumes "sdc_rbx_prepare sy os s = (None, s1)" and "os_avx2 os"
    and "sdc_rbx_self_test sy payloads prctl_ok s1 = Some (r, s2)"
  shows "\<exists>lg'. rbx_self_test sy os payloads prctl_ok lg s
    = Some (st_clean_pass_ok r \<and> st_injected_caught r \<and> st_recovered r, lg', s2)"
  using assms check_lines [of "st_recovered r" _ _ "st_injected_caught r" _ _ "st_clean_pass_ok r"]
  by (simp add: rbx_self_test_def sdc_rbx_supported_def Let_def case_prod_beta)

end
