(* ===== verification/Main_Prog.thy ===== *)
theory Main_Prog
  imports Cli Self_Test
begin

text \<open>
  The whole of \<open>main\<close> (sdcprobe.cpp): command line, self-test or questions, report header, layer
  count, sweep, conclusion. The host is what the program finds: the build, the machine with its
  clock and cores, the operating system's answers and the input. None is a run that does not
  return or that runs into undefined behaviour. The theorems tie the exit code to what was done.
\<close>

section \<open>The host\<close>

record host =
  ho_build :: build
  ho_machine :: machine
  ho_os :: rbx_os
  ho_rbx :: rbx_state
  ho_cpus :: cpu_answers
  ho_cpuid :: cpuid
  ho_tty :: bool
  ho_stdin :: string
  ho_fopen :: "string \<Rightarrow> bool"
  ho_stamp :: "string option"
  ho_disk :: "string \<Rightarrow> string option"

record outcome =
  oc_code :: int
  oc_stdout :: string
  oc_stderr :: string
  oc_disk :: "string \<Rightarrow> string option"

text \<open>\<open>ho_rbx\<close>: the globals of rbx.cpp as the program starts.\<close>

definition outcome_of :: "int \<Rightarrow> logger \<Rightarrow> outcome" where
  "outcome_of code lg = \<lparr>oc_code = code, oc_stdout = lg_screen lg, oc_stderr = [], oc_disk = lg_disk lg\<rparr>"

definition platform_of :: "host \<Rightarrow> platform" where
  "platform_of h = mc_platform (ho_machine h)"

definition available :: "host \<Rightarrow> cpu_info list" where
  "available h = sdc_enumerate_cpus (platform_of h) (ho_cpus h)"

section \<open>The self-test\<close>

definition main_self_test :: "host \<Rightarrow> options \<Rightarrow> outcome option" where
  "main_self_test h op =
     do {
       let mc = ho_machine h;
       let lg = new_logger (print_version (platform_of h) (ho_build h)) (ho_disk h);
       let lg = log_blank (log_line (cpu_line (ho_cpuid h)) lg);
       let layers = sdc_set_load_layers (if op_layers op \<noteq> 0 then op_layers op else k_load_layers_default);
       (ch_ok, lg, work) \<leftarrow> self_test (mc_cpus mc 0) layers (op_seed op) lg (new_workspace (k_cols * k_rows));
       let lg = log_blank lg;
       (rbx_ok, lg, state) \<leftarrow> rbx_self_test (mc_symbols mc) (ho_os h) (mc_payloads mc) (mc_prctl mc) lg (ho_rbx h);
       let lg = log_blank lg;
       let ok = (ch_ok \<and> rbx_ok);
       let lg = log_line (''RESULT: SELF-TEST '' @ (if ok then ''PASSED'' else ''FAILED'')) lg;
       Some (outcome_of (if ok then k_exit_clean else k_exit_self_test_failed) lg)
     }"

section \<open>The questions\<close>

text \<open>What the sweep is set up with: the answers, and the state of the rbx probe.\<close>

record answers =
  an_probes :: probe_selection
  an_selected :: "cpu_info list"
  an_minutes :: u32
  an_rbx :: rbx_state

definition greeting :: "host \<Rightarrow> string" where
  "greeting h = unlines [identity_line (platform_of h) (ho_build h), cpu_line (ho_cpuid h),
     ''Logical cores available to this process: '' @ dec (length (available h))
       @ ''   ['' @ c_str (format_cpu_list (available h)) @ '']'', '''']"

definition probe_count :: "probe_selection \<Rightarrow> nat" where
  "probe_count probes = (if sel_ch probes then 1 else 0) + (if sel_rbx probes then 1 else 0)"

definition minutes_prompt :: "probe_selection \<Rightarrow> string" where
  "minutes_prompt probes = (if 1 < probe_count probes then ''Minutes per core and probe'' else ''Minutes per core'')"

definition prepare_probe :: "host \<Rightarrow> probe_selection \<Rightarrow> string option \<times> rbx_state" where
  "prepare_probe h probes =
     (if sel_rbx probes then sdc_rbx_prepare (mc_symbols (ho_machine h)) (ho_os h) (ho_rbx h) else (None, ho_rbx h))"

definition ask :: "host \<Rightarrow> options \<Rightarrow> answers option \<times> string" where
  \<comment> \<open>with the output so far; None: refused\<close>
  "ask h op =
     (let out = greeting h;
          (probes, out, input) =
            (if op_have_probe op then (op_probes op, out, ho_stdin h)
             else ask_probe (ho_tty h) (op_probes op) out (ho_stdin h))
      in case prepare_probe h probes of
           (Some problem, state) \<Rightarrow>
             (None, out @ unlines [''sdcprobe: the rbx probe cannot run here: '' @ c_str problem])
         | (None, state) \<Rightarrow>
             (case ask_cores (platform_of h) (ho_tty h) (if op_have_cores op then Some (op_cores_spec op) else None)
                     (available h) out input of
                (None, out, input) \<Rightarrow> (None, out)
              | (Some selected, out, input) \<Rightarrow>
                  let (minutes, out, input) =
                        (if op_have_minutes op then (op_minutes op, out, input)
                         else ask_minutes (platform_of h) (ho_tty h) (minutes_prompt probes) (op_minutes op) out input)
                  in (Some \<lparr>an_probes = probes, an_selected = selected, an_minutes = minutes, an_rbx = state\<rparr>, out)))"

section \<open>The report header\<close>

definition open_report :: "host \<Rightarrow> options \<Rightarrow> string \<Rightarrow> logger" where
  "open_report h op out =
     (let path = (if op_log_path op = [] then sdc_default_log_path (ho_stamp h) else op_log_path op);
          (opened, lg) = log_open (ho_fopen h path) path (new_logger out (ho_disk h))
      in if \<not> opened
         then put_screen ([newline] @ unlines [''WARNING: could not open report file '' @ [quote] @ path @ [quote]
                @ ''. Screen output only.'']) lg
         else lg)"

definition f64_60 :: f64 where "f64_60 = 0x404E000000000000"

definition total_minutes :: "answers \<Rightarrow> u64" where
  "total_minutes an = ucast (an_minutes an) * of_nat (length (an_selected an)) * of_nat (probe_count (an_probes an))"

definition header_events :: "host \<Rightarrow> answers \<Rightarrow> logger \<Rightarrow> event list" where
  "header_events h an lg =
     [File_Line (identity_line (platform_of h) (ho_build h)), File_Line (cpu_line (ho_cpuid h)),
      Line (''probe:    '' @ probe_selection_name (an_probes an))]
     @ (if sel_ch (an_probes an)
        then [Line ''ch loop:  movd %xmm0,%ecx / movss / movzbl %cl / movzbl %ch  (single thread)''] else [])
     @ (if sel_rbx (an_probes an)
        then [Line (''rbx loop: emit_i16 with its frame base in rbx, '' @ dec (unat k_rbx_calls_per_pass)
                @ '' calls per pass  (single thread)'')] else [])
     @ [Line (''report:   '' @ (if has_file lg then c_str (lg_path lg) else ''(console only)'')),
        Blank,
        Line (''cores:    '' @ dec (length (an_selected an)) @ '' of '' @ dec (length (available h))
          @ ''  ['' @ c_str (format_cpu_list (an_selected an)) @ '']''),
        Line (''duration: '' @ num (an_minutes an) @ '' min per core''
          @ (if 1 < probe_count (an_probes an) then '' and probe'' else [])
          @ '', '' @ num (total_minutes an) @ '' min total ('' @ fixed 1 (fp64 (f64_div (f64_of_nat (unat (total_minutes an))) f64_60))
          @ '' h)'')]"

definition closing_events :: "event list" where
  "closing_events =
     [Blank, Line ''Cores are tested one at a time: concurrent load hides the fault.'',
      Line ''Ctrl+C stops after the current round and still prints a report.'', Blank]"

definition choose_layers ::
  "host \<Rightarrow> options \<Rightarrow> probe_selection \<Rightarrow> logger \<Rightarrow> workspace \<Rightarrow> (int \<times> nat \<times> logger \<times> workspace) option" where
  \<comment> \<open>the answer to the pinning before it, question 0, is not looked at\<close>
  "choose_layers h op probes lg work =
     (if sel_ch probes then
        let lg = log_line (''seed:     '' @ num (op_seed op)) lg in
        if op_layers op \<noteq> 0 then
          let layers = sdc_set_load_layers (op_layers op)
          in Some (layers, 1, log_line (''layers:   '' @ dec_int layers
                @ '' (given on the command line, calibration skipped)'') lg, work)
        else calibrate_layers (mc_env (ho_machine h)) (mc_cpus (ho_machine h)) (op_seed op) 1 lg work
      else Some (k_load_layers_default, 0, lg, work))"

section \<open>The program\<close>

definition plan_of :: "options \<Rightarrow> answers \<Rightarrow> int \<Rightarrow> plan" where
  "plan_of op an layers =
     \<lparr>pl_probes = an_probes an, pl_seed = op_seed op, pl_minutes = an_minutes an, pl_layers = layers\<rparr>"

definition main_sweep :: "host \<Rightarrow> options \<Rightarrow> outcome option" where
  "main_sweep h op =
     (case ask h op of
        (None, out) \<Rightarrow> Some (outcome_of k_exit_usage (new_logger out (ho_disk h)))
      | (Some an, out) \<Rightarrow>
          do {
            let lg = open_report h op out;
            let lg = fold log_event (header_events h an lg) lg;
            (layers, t, lg, work) \<leftarrow> choose_layers h op (an_probes an) lg (new_workspace (k_cols * k_rows));
            let lg = fold log_event closing_events lg;
            s \<leftarrow> sweep_cores (ho_machine h) (plan_of op an layers) (an_selected an)
                   (sweep_start t lg work (an_rbx an));
            let (code, lg) = conclude (an_probes an) (length (an_selected an)) layers s;
            Some (outcome_of code lg)
          })"

definition halted :: "host \<Rightarrow> halt \<Rightarrow> outcome" where
  "halted h reason =
     \<lparr>oc_code = halt_code reason,
      oc_stdout = (case reason of Show_Usage \<Rightarrow> print_usage | Show_Version \<Rightarrow> print_version (platform_of h) (ho_build h) | Complain m \<Rightarrow> []),
      oc_stderr = (case reason of Complain m \<Rightarrow> unlines [m] | _ \<Rightarrow> []),
      oc_disk = ho_disk h\<rparr>"

definition sdcprobe_main :: "host \<Rightarrow> string list \<Rightarrow> outcome option" where
  "sdcprobe_main h argv =
     (case parse_args (platform_of h) (drop 1 argv) default_options of
        Inl reason \<Rightarrow> Some (halted h reason)
      | Inr op \<Rightarrow>
          if available h = [] then
            Some \<lparr>oc_code = k_exit_usage, oc_stdout = [],
                  oc_stderr = unlines [''sdcprobe: could not determine any available core''], oc_disk = ho_disk h\<rparr>
          else if op_want_self_test op then main_self_test h op
          else main_sweep h op)"

section \<open>What is asked\<close>

lemma prepare_probe_ready:
  assumes "rbx_initial (ho_rbx h)" and "prepare_probe h probes = (None, state)" and "sel_rbx probes"
  shows "rbx_ready (mc_symbols (ho_machine h)) state"
  using assms prepare_gives by (simp add: prepare_probe_def)

lemma ask_gives:
  assumes "ask h op = (Some an, out)" and "options_ok op"
  shows "prepare_probe h (an_probes an) = (None, an_rbx an)
    \<and> (sel_ch (an_probes an) \<or> sel_rbx (an_probes an))
    \<and> 1 \<le> unat (an_minutes an) \<and> unat (an_minutes an) \<le> 1440
    \<and> (\<exists>answer. parse_cpu_selection (platform_of h) answer (available h) = Inr (an_selected an))"
proof -
  have valid: "sel_ch (op_probes op) \<or> sel_rbx (op_probes op)" "1 \<le> unat (op_minutes op) \<and> unat (op_minutes op) \<le> 1440"
    using assms(2) by (simp_all add: options_ok_def)
  obtain probes out1 input1 where p: "(if op_have_probe op then (op_probes op, greeting h, ho_stdin h)
      else ask_probe (ho_tty h) (op_probes op) (greeting h) (ho_stdin h)) = (probes, out1, input1)"
    by (rule prod_cases3)
  obtain state where st: "prepare_probe h probes = (None, state)"
    using assms(1) p by (auto simp: ask_def Let_def split: prod.splits option.splits)
  obtain selected out2 input2 where c: "ask_cores (platform_of h) (ho_tty h)
      (if op_have_cores op then Some (op_cores_spec op) else None) (available h) out1 input1 = (Some selected, out2, input2)"
    using assms(1) p st by (auto simp: ask_def Let_def split: prod.splits option.splits)
  obtain minutes out3 input3 where m: "(if op_have_minutes op then (op_minutes op, out2, input2)
      else ask_minutes (platform_of h) (ho_tty h) (minutes_prompt probes) (op_minutes op) out2 input2) = (minutes, out3, input3)"
    by (rule prod_cases3)
  have an: "an = \<lparr>an_probes = probes, an_selected = selected, an_minutes = minutes, an_rbx = state\<rparr>"
    using assms(1) p st c m by (simp add: ask_def Let_def)
  have "sel_ch probes \<or> sel_rbx probes" using p valid(1) ask_probe_some by (auto split: if_splits)
  moreover have "1 \<le> unat minutes \<and> unat minutes \<le> 1440"
    using m valid(2) ask_minutes_range [of _ _ _ "op_minutes op" out2 input2 minutes] by (auto split: if_splits)
  ultimately show ?thesis using st ask_cores_parsed [OF c] by (simp add: an)
qed

text \<open>The selected cores are available ones, and there are not many.\<close>

lemma selected_few:
  assumes "parse_cpu_selection pl answer cpus = Inr selected" and "cpus \<noteq> []"
    and "distinct (map ci_index cpus)"
  shows "selected \<noteq> []" "set selected \<subseteq> set cpus" "length selected < 2 ^ 64"
proof -
  note fit = selection_fit [OF assms]
  then show "selected \<noteq> []" "set selected \<subseteq> set cpus" by simp_all
  have "length selected = card (set (map ci_index selected))" using fit by (metis distinct_card length_map)
  also have "\<dots> \<le> card (UNIV :: u32 set)" by (rule card_mono) simp_all
  also have "\<dots> < 2 ^ 64" by (simp add: card_word)
  finally show "length selected < 2 ^ 64" .
qed

lemma available_distinct: "plausible_answers (ho_cpus h) \<Longrightarrow> distinct (map ci_index (available h))"
  unfolding available_def by (rule enumerate_distinct)

lemma new_work_ok: "work_ok (new_workspace (k_cols * k_rows))"
  using work_ok_new by (simp add: mult.commute)

lemma choose_layers_gives:
  assumes "work_ok work" and "choose_layers h op probes lg work = Some (layers, t, lg', work')"
  shows "work_ok work'"
  using assms calibrate_gives [where env = "mc_env (ho_machine h)" and cpus = "mc_cpus (ho_machine h)"
      and seed = "op_seed op" and t = 1 and lg = "log_line (''seed:     '' @ num (op_seed op)) lg", OF assms(1)]
  by (auto simp: choose_layers_def Let_def split: if_splits option.splits)

lemma choose_layers_some:
  assumes "work_ok work"
    and "op_layers op = 0 \<longrightarrow> sel_ch probes \<longrightarrow>
      fit_layers (timed_ns (mc_env (ho_machine h)) 1) (timed_ns (mc_env (ho_machine h)) 5) \<noteq> None"
  shows "\<exists>layers t lg' work'. choose_layers h op probes lg work = Some (layers, t, lg', work')"
proof (cases "sel_ch probes \<and> op_layers op = 0")
  case True
  then show ?thesis
    using assms(2) calibrate_gives [where env = "mc_env (ho_machine h)" and cpus = "mc_cpus (ho_machine h)"
        and seed = "op_seed op" and t = 1 and lg = "log_line (''seed:     '' @ num (op_seed op)) lg", OF assms(1)]
    by (auto simp: choose_layers_def Let_def split: option.splits)
next
  case False
  then show ?thesis by (auto simp: choose_layers_def Let_def)
qed

section \<open>What was swept\<close>

lemma main_sweep_gives:
  assumes "main_sweep h op = Some oc" and "options_ok op" and "rbx_initial (ho_rbx h)"
    and "available h \<noteq> []" and "plausible_answers (ho_cpus h)"
  obtains (refused) out where "ask h op = (None, out)" "oc_code oc = 2"
    | (swept) an out layers t lg work s where "ask h op = (Some an, out)"
      "choose_layers h op (an_probes an) (fold log_event (header_events h an (open_report h op out)) (open_report h op out))
        (new_workspace (k_cols * k_rows)) = Some (layers, t, lg, work)"
      "sweep_cores (ho_machine h) (plan_of op an layers) (an_selected an)
        (sweep_start t (fold log_event closing_events lg) work (an_rbx an)) = Some s"
      "work_ok work" "sel_rbx (an_probes an) \<longrightarrow> rbx_ready (mc_symbols (ho_machine h)) (an_rbx an)"
      "an_selected an \<noteq> []" "set (an_selected an) \<subseteq> set (available h)" "length (an_selected an) < 2 ^ 64"
      "oc_code oc = fst (conclude (an_probes an) (length (an_selected an)) layers s)"
proof (cases "ask h op")
  case (Pair an_opt out)
  show thesis
  proof (cases an_opt)
    case None
    with assms(1) Pair have "oc_code oc = 2"
      by (auto simp: main_sweep_def outcome_of_def k_exit_usage_def)
    with None Pair show thesis by (simp add: refused)
  next
    case (Some an)
    with Pair have asked: "ask h op = (Some an, out)" by simp
    note given = ask_gives [OF this assms(2)]
    define lg where "lg = fold log_event (header_events h an (open_report h op out)) (open_report h op out)"
    obtain layers t lg1 work where layers: "choose_layers h op (an_probes an) lg (new_workspace (k_cols * k_rows))
        = Some (layers, t, lg1, work)"
      using assms(1) asked by (auto simp: main_sweep_def lg_def Let_def split: bind_splits)
    define lg2 where "lg2 = fold log_event closing_events lg1"
    obtain s where s: "sweep_cores (ho_machine h) (plan_of op an layers) (an_selected an)
        (sweep_start t lg2 work (an_rbx an)) = Some s"
      using assms(1) asked layers by (auto simp: main_sweep_def lg_def lg2_def Let_def split: bind_splits)
    have code: "oc_code oc = fst (conclude (an_probes an) (length (an_selected an)) layers s)"
      using assms(1) asked layers s
      by (auto simp: main_sweep_def lg_def lg2_def Let_def outcome_of_def split: prod.splits)
    obtain answer where "parse_cpu_selection (platform_of h) answer (available h) = Inr (an_selected an)"
      using given by blast
    note few = selected_few [OF this assms(4) available_distinct [OF assms(5)]]
    have "sel_rbx (an_probes an) \<longrightarrow> rbx_ready (mc_symbols (ho_machine h)) (an_rbx an)"
      using prepare_probe_ready [OF assms(3)] given by blast
    from swept [OF asked layers [unfolded lg_def] s [unfolded lg2_def] choose_layers_gives [OF new_work_ok layers] this few code] show thesis .
  qed
qed

section \<open>The exit code of the program\<close>

lemma main_self_test_gives:
  assumes "main_self_test h op = Some oc"
  shows "\<exists>ch_ok lg work rbx_ok lg' state.
      self_test (mc_cpus (ho_machine h) 0) (sdc_set_load_layers (if op_layers op \<noteq> 0 then op_layers op else k_load_layers_default))
        (op_seed op) (log_blank (log_line (cpu_line (ho_cpuid h)) (new_logger (print_version (platform_of h) (ho_build h)) (ho_disk h))))
        (new_workspace (k_cols * k_rows)) = Some (ch_ok, lg, work)
      \<and> rbx_self_test (mc_symbols (ho_machine h)) (ho_os h) (mc_payloads (ho_machine h)) (mc_prctl (ho_machine h))
          (log_blank lg) (ho_rbx h) = Some (rbx_ok, lg', state)
      \<and> oc_code oc = (if ch_ok \<and> rbx_ok then 0 else 3)"
proof -
  let ?lg = "log_blank (log_line (cpu_line (ho_cpuid h)) (new_logger (print_version (platform_of h) (ho_build h)) (ho_disk h)))"
    and ?layers = "sdc_set_load_layers (if op_layers op \<noteq> 0 then op_layers op else k_load_layers_default)"
  obtain ch_ok lg work where ch: "self_test (mc_cpus (ho_machine h) 0) ?layers (op_seed op) ?lg (new_workspace (k_cols * k_rows)) = Some (ch_ok, lg, work)"
    using assms unfolding main_self_test_def Let_def by (auto split: bind_splits)
  obtain rbx_ok lg' state where rbx: "rbx_self_test (mc_symbols (ho_machine h)) (ho_os h) (mc_payloads (ho_machine h)) (mc_prctl (ho_machine h))
      (log_blank lg) (ho_rbx h) = Some (rbx_ok, lg', state)"
    using assms unfolding main_self_test_def Let_def ch by (auto split: bind_splits)
  have "oc_code oc = (if ch_ok \<and> rbx_ok then 0 else 3)"
    using assms unfolding main_self_test_def Let_def ch by (auto simp: rbx outcome_of_def k_exit_clean_def k_exit_self_test_failed_def)
  with ch rbx show ?thesis by blast
qed

text \<open>
  Property C1: the exit code of the program tells the truth about this run. Help and version end with 0, a
  refused command line with 2, and so does a host without a core. A self-test ends with 0 if both of its halves,
  run as asked, passed, and else with 3. Otherwise the program ends with 2 if the questions were refused; and if
  not, the answers set up one sweep of a selection of the available cores, and the code is that of the cores
  this sweep measured, skipped and left out (\<open>sweep_account\<close>): 2 if it measured none, else 1 if a result has a
  detection, else 4 if it was interrupted, and else 0, with no core left out.
\<close>

theorem exit_codes_truthful:
  assumes "sdcprobe_main h argv = Some oc" and "rbx_initial (ho_rbx h)" and "plausible_answers (ho_cpus h)"
  shows "case parse_args (platform_of h) (drop 1 argv) default_options of
      Inl reason \<Rightarrow> oc_code oc = (case reason of Complain m \<Rightarrow> 2 | _ \<Rightarrow> 0)
    | Inr op \<Rightarrow>
        if available h = [] then oc_code oc = 2
        else if op_want_self_test op then
          \<exists>ch_ok lg work rbx_ok lg' state.
            self_test (mc_cpus (ho_machine h) 0) (sdc_set_load_layers (if op_layers op \<noteq> 0 then op_layers op else k_load_layers_default))
              (op_seed op) (log_blank (log_line (cpu_line (ho_cpuid h)) (new_logger (print_version (platform_of h) (ho_build h)) (ho_disk h))))
              (new_workspace (k_cols * k_rows)) = Some (ch_ok, lg, work)
            \<and> rbx_self_test (mc_symbols (ho_machine h)) (ho_os h) (mc_payloads (ho_machine h)) (mc_prctl (ho_machine h))
                (log_blank lg) (ho_rbx h) = Some (rbx_ok, lg', state)
            \<and> oc_code oc = (if ch_ok \<and> rbx_ok then 0 else 3)
        else case ask h op of
            (None, out) \<Rightarrow> oc_code oc = 2
          | (Some an, out) \<Rightarrow> \<exists>layers t lg work s m k u.
              choose_layers h op (an_probes an) (fold log_event (header_events h an (open_report h op out)) (open_report h op out))
                (new_workspace (k_cols * k_rows)) = Some (layers, t, lg, work)
              \<and> sweep_cores (ho_machine h) (plan_of op an layers) (an_selected an)
                  (sweep_start t (fold log_event closing_events lg) work (an_rbx an)) = Some s
              \<and> an_selected an \<noteq> [] \<and> set (an_selected an) \<subseteq> set (available h)
              \<and> (countable_detections s \<longrightarrow> sweep_account (ho_machine h) (plan_of op an layers) (an_selected an) s m k u
                  \<and> oc_code oc = (if m = [] then 2 else if detected s then 1 else if sw_interrupted s then 4 else 0)
                  \<and> (\<not> sw_interrupted s \<longrightarrow> u = []))"
proof (cases "parse_args (platform_of h) (drop 1 argv) default_options")
  case (Inl reason)
  with assms(1) show ?thesis
    by (cases reason) (auto simp: sdcprobe_main_def halted_def k_exit_clean_def k_exit_usage_def)
next
  case (Inr op)
  note ok = parse_args_ok [OF Inr default_ok]
  consider (none) "available h = []" "oc_code oc = 2" | (test) "available h \<noteq> []" "op_want_self_test op" "main_self_test h op = Some oc"
    | (run) "available h \<noteq> []" "\<not> op_want_self_test op" "main_sweep h op = Some oc"
    using assms(1) Inr by (auto simp: sdcprobe_main_def k_exit_usage_def split: if_splits)
  then show ?thesis
  proof cases
    case none
    with Inr show ?thesis by simp
  next
    case test
    with main_self_test_gives [OF test(3)] Inr show ?thesis by simp
  next
    case run
    from run(3) ok assms(2) run(1) assms(3) show ?thesis
    proof (cases rule: main_sweep_gives)
      case refused
      with run Inr show ?thesis by simp
    next
      case (swept an out layers t lg work s)
      have probes: "pl_probes (plan_of op an layers) = an_probes an" by (simp add: plan_of_def)
      have "\<exists>m k u. sweep_account (ho_machine h) (plan_of op an layers) (an_selected an) s m k u
          \<and> oc_code oc = (if m = [] then 2 else if detected s then 1 else if sw_interrupted s then 4 else 0)
          \<and> (\<not> sw_interrupted s \<longrightarrow> u = [])" if "countable_detections s"
        using swept(5) by (rule conclude_means [OF swept(4) _ swept(8,3) that, where layers = layers, unfolded probes, folded swept(9)]) blast
      then have "\<exists>m k u. countable_detections s \<longrightarrow> sweep_account (ho_machine h) (plan_of op an layers) (an_selected an) s m k u
          \<and> oc_code oc = (if m = [] then 2 else if detected s then 1 else if sw_interrupted s then 4 else 0)
          \<and> (\<not> sw_interrupted s \<longrightarrow> u = [])" by blast
      with swept(2,3,6,7) have "\<exists>layers t lg work s m k u.
          choose_layers h op (an_probes an) (fold log_event (header_events h an (open_report h op out)) (open_report h op out))
            (new_workspace (k_cols * k_rows)) = Some (layers, t, lg, work)
          \<and> sweep_cores (ho_machine h) (plan_of op an layers) (an_selected an)
              (sweep_start t (fold log_event closing_events lg) work (an_rbx an)) = Some s
          \<and> an_selected an \<noteq> [] \<and> set (an_selected an) \<subseteq> set (available h)
          \<and> (countable_detections s \<longrightarrow> sweep_account (ho_machine h) (plan_of op an layers) (an_selected an) s m k u
              \<and> oc_code oc = (if m = [] then 2 else if detected s then 1 else if sw_interrupted s then 4 else 0)
              \<and> (\<not> sw_interrupted s \<longrightarrow> u = []))" by blast
      with run Inr swept(1) show ?thesis by simp
    qed
  qed
qed

lemma sound_host:
  assumes "parse_args (platform_of h) (drop 1 argv) default_options = Inr op" and "\<not> op_want_self_test op"
    and "ask h op = (Some an, out)" and "sound_machine (ho_machine h) payload usable"
    and "rbx_initial (ho_rbx h)" and "available h \<noteq> []" and "plausible_answers (ho_cpus h)"
    and "\<And>t. \<not> e_interrupt (mc_env (ho_machine h)) t" and "\<forall>t. \<forall>cpu\<in>set (available h). pins (ho_machine h) t cpu = Some True"
    and "op_layers op = 0 \<longrightarrow> sel_ch (an_probes an) \<longrightarrow>
      fit_layers (timed_ns (mc_env (ho_machine h)) 1) (timed_ns (mc_env (ho_machine h)) 5) \<noteq> None"
  shows "\<exists>oc. sdcprobe_main h argv = Some oc \<and> oc_code oc = 0"
proof -
  note given = ask_gives [OF assms(3) parse_args_ok [OF assms(1) default_ok]]
  obtain answer where "parse_cpu_selection (platform_of h) answer (available h) = Inr (an_selected an)"
    using given by blast
  note few = selected_few [OF this assms(6) available_distinct [OF assms(7)]]
  have granted: "\<forall>t. \<forall>cpu\<in>set (an_selected an). pins (ho_machine h) t cpu = Some True"
    using assms(9) few(2) by blast
  define lg where "lg = fold log_event (header_events h an (open_report h op out)) (open_report h op out)"
  obtain layers t lg1 work where layers: "choose_layers h op (an_probes an) lg (new_workspace (k_cols * k_rows))
      = Some (layers, t, lg1, work)"
    using choose_layers_some [OF new_work_ok assms(10)] by blast
  note work = choose_layers_gives [OF new_work_ok layers]
  have clean: "sel_rbx (pl_probes (plan_of op an layers)) \<longrightarrow> rbx_clean usable (mc_symbols (ho_machine h)) (an_rbx an)"
  proof
    assume "sel_rbx (pl_probes (plan_of op an layers))"
    then have "sdc_rbx_prepare (mc_symbols (ho_machine h)) (ho_os h) (ho_rbx h) = (None, an_rbx an)"
      using given by (simp add: prepare_probe_def plan_of_def)
    from payload_contract.initial_clean [OF sound_machine.contract [OF assms(4)] assms(5) this]
    show "rbx_clean usable (mc_symbols (ho_machine h)) (an_rbx an)" .
  qed
  obtain s where "sweep_cores (ho_machine h) (plan_of op an layers) (an_selected an)
      (sweep_start t (fold log_event closing_events lg1) work (an_rbx an)) = Some s"
    "fst (conclude (an_probes an) (length (an_selected an)) layers s) = 0"
    using sound_conclude [where t = t and lg = "fold log_event closing_events lg1" and layers = layers,
        OF assms(4) work clean assms(8) granted few(1,3)] by (auto simp: plan_of_def)
  then show ?thesis
    using assms(1-3,6) layers
    by (auto simp: sdcprobe_main_def main_sweep_def lg_def Let_def outcome_of_def split: prod.splits)
qed

text \<open>
  Property C2: on a sound machine the program ends with exit code 0. Whatever accepted options and
  answers set the sweep up, if the machine is sound, nobody interrupts, every core can be pinned,
  and the layer count is given or the two calibration timings can be fitted, the program returns
  and says clean.
\<close>

theorem sound_host_exits_clean:
  assumes "parse_args (platform_of h) (drop 1 argv) default_options = Inr op" and "\<not> op_want_self_test op"
    and "ask h op = (Some an, out)" and "sound_machine (ho_machine h) payload usable"
    and "rbx_initial (ho_rbx h)" and "available h \<noteq> []" and "plausible_answers (ho_cpus h)"
    and "\<And>t. \<not> e_interrupt (mc_env (ho_machine h)) t" and "\<forall>t. \<forall>cpu\<in>set (available h). pins (ho_machine h) t cpu = Some True"
    and "op_layers op = 0 \<longrightarrow> sel_ch (an_probes an) \<longrightarrow>
      fit_layers (timed_ns (mc_env (ho_machine h)) 1) (timed_ns (mc_env (ho_machine h)) 5) \<noteq> None"
  shows "\<exists>oc. sdcprobe_main h argv = Some oc \<and> oc_code oc = 0"
  by (rule sound_host [OF assms])

section \<open>Witnesses\<close>

text \<open>A host with two cores and no terminal, on which everything works.\<close>

definition lab_host :: host where
  "lab_host =
     \<lparr>ho_build = \<lparr>bd_git_hash = ''unknown'', bd_compiler = Gcc ''13.2.0''\<rparr>,
      ho_machine = willing_machine, ho_os = willing_os, ho_rbx = rbx_globals, ho_cpus = few_cpus,
      ho_cpuid = (\<lambda>_. None), ho_tty = False, ho_stdin = [], ho_fopen = (\<lambda>_. True), ho_stamp = None,
      ho_disk = (\<lambda>_. None)\<rparr>"

lemma lab_host_parts [simp]: "platform_of lab_host = Linux" "ho_machine lab_host = willing_machine"
  "ho_rbx lab_host = rbx_globals" "ho_cpus lab_host = few_cpus"
  by (simp_all add: lab_host_def platform_of_def linux_symbols_def)

lemma lab_available [simp]: "available lab_host = two_cores"
  by (simp add: available_def few_cpus_def enumerate_linux_def two_cores_def plain_cpu_def upt_rec)

lemma lab_asked:
  "\<exists>out. ask lab_host lab_options
    = (Some \<lparr>an_probes = \<lparr>sel_ch = True, sel_rbx = True\<rparr>, an_selected = two_cores, an_minutes = 10, an_rbx = prepared\<rparr>, out)"
proof -
  have "sdc_rbx_prepare linux_symbols willing_os rbx_globals = (None, prepared)"
    unfolding prepared_def using prepare_willing by (metis prod.collapse)
  then have "prepare_probe lab_host \<lparr>sel_ch = True, sel_rbx = True\<rparr> = (None, prepared)"
    by (simp add: prepare_probe_def) (simp add: lab_host_def)
  moreover have "parse_cpu_selection Linux ''all'' two_cores = Inr two_cores" by code_simp
  then obtain out1 where "ask_cores Linux False None two_cores (greeting lab_host) [] = (Some two_cores, out1, [])"
    by (subst (asm) ask_cores.simps) simp
  moreover obtain out2 where "ask_minutes Linux False (minutes_prompt \<lparr>sel_ch = True, sel_rbx = True\<rparr>) 10 out1 [] = (10, out2, [])"
    by (subst (asm) ask_minutes.simps) simp
  moreover have "ho_tty lab_host = False" "ho_stdin lab_host = []" by (simp_all add: lab_host_def)
  moreover have "op_have_probe lab_options" "\<not> op_have_cores lab_options" "\<not> op_have_minutes lab_options"
      "op_minutes lab_options = 10" "op_probes lab_options = \<lparr>sel_ch = True, sel_rbx = True\<rparr>"
    by (simp_all add: lab_options_def default_options_def k_default_minutes_def)
  ultimately show ?thesis by (simp add: ask_def)
qed

lemma willing_machine_answers: "\<not> e_interrupt (mc_env willing_machine) t"
  "\<forall>t. \<forall>cpu\<in>set cpus. pins willing_machine t cpu = Some True"
  by (simp_all add: willing_machine_def lab_machine_def tick_env_def linux_symbols_def)

lemma lab_layers: "\<not> op_want_self_test lab_options" "op_layers lab_options = 0 \<longrightarrow> P"
  by (simp_all add: lab_options_def default_options_def)

lemma sound_host_exits_clean_witness: "\<exists>oc. sdcprobe_main lab_host lab_args = Some oc \<and> oc_code oc = 0"
proof -
  obtain an out where "ask lab_host lab_options = (Some an, out)" using lab_asked by blast
  from sound_host_exits_clean [where h = lab_host and argv = lab_args and payload = repro_payload and usable = "\<lambda>_. True",
      unfolded lab_host_parts lab_available, OF lab_parsed lab_layers(1) this willing_machine_sound rbx_globals_initial
        two_cores_few(1) few_cpus_plausible willing_machine_answers lab_layers(2)]
  show ?thesis .
qed

lemma exit_codes_truthful_witness:
  "\<exists>oc an out layers t lg work s m k u. sdcprobe_main lab_host lab_args = Some oc \<and> oc_code oc = 0
    \<and> ask lab_host lab_options = (Some an, out)
    \<and> sweep_cores willing_machine (plan_of lab_options an layers) (an_selected an)
        (sweep_start t (fold log_event closing_events lg) work (an_rbx an)) = Some s
    \<and> sweep_account willing_machine (plan_of lab_options an layers) (an_selected an) s m k u
    \<and> m \<noteq> [] \<and> \<not> detected s \<and> \<not> sw_interrupted s \<and> u = []"
proof -
  obtain an out where asked: "ask lab_host lab_options = (Some an, out)"
    and an: "an_selected an = two_cores" "an_rbx an = prepared" using lab_asked by auto
  obtain oc where oc: "sdcprobe_main lab_host lab_args = Some oc" "oc_code oc = 0"
    using sound_host [where h = lab_host and argv = lab_args and payload = repro_payload and usable = "\<lambda>_. True",
      unfolded lab_host_parts lab_available, OF lab_parsed lab_layers(1) asked willing_machine_sound rbx_globals_initial
        two_cores_few(1) few_cpus_plausible willing_machine_answers lab_layers(2)] by blast
  from exit_codes_truthful [where h = lab_host, unfolded lab_host_parts lab_available, OF oc(1) rbx_globals_initial few_cpus_plausible]
  have "\<exists>layers t lg work s m k u. choose_layers lab_host lab_options (an_probes an)
        (fold log_event (header_events lab_host an (open_report lab_host lab_options out)) (open_report lab_host lab_options out))
        (new_workspace (k_cols * k_rows)) = Some (layers, t, lg, work)
      \<and> sweep_cores willing_machine (plan_of lab_options an layers) (an_selected an)
        (sweep_start t (fold log_event closing_events lg) work (an_rbx an)) = Some s
      \<and> an_selected an \<noteq> [] \<and> set (an_selected an) \<subseteq> set two_cores
      \<and> (countable_detections s \<longrightarrow> sweep_account willing_machine (plan_of lab_options an layers) (an_selected an) s m k u
          \<and> oc_code oc = (if m = [] then 2 else if detected s then 1 else if sw_interrupted s then 4 else 0)
          \<and> (\<not> sw_interrupted s \<longrightarrow> u = []))"
    unfolding lab_parsed sum.case if_not_P [OF two_cores_few(1)] if_not_P [OF lab_layers(1)] asked prod.case option.case .
  then obtain layers t lg work s m k u where c: "choose_layers lab_host lab_options (an_probes an)
        (fold log_event (header_events lab_host an (open_report lab_host lab_options out)) (open_report lab_host lab_options out))
        (new_workspace (k_cols * k_rows)) = Some (layers, t, lg, work)"
    and run: "sweep_cores willing_machine (plan_of lab_options an layers) (an_selected an)
        (sweep_start t (fold log_event closing_events lg) work (an_rbx an)) = Some s"
    and r: "countable_detections s \<longrightarrow> sweep_account willing_machine (plan_of lab_options an layers) (an_selected an) s m k u
          \<and> oc_code oc = (if m = [] then 2 else if detected s then 1 else if sw_interrupted s then 4 else 0)
          \<and> (\<not> sw_interrupted s \<longrightarrow> u = [])"
    by (elim exE conjE) (rule that)
  have "rbx_clean (\<lambda>_. True) (mc_symbols willing_machine) (an_rbx an)"
    using prepared_clean by (simp add: an willing_machine_def lab_machine_def)
  moreover have "\<forall>t. \<forall>cpu\<in>set (an_selected an). pins willing_machine t cpu \<noteq> None"
    using willing_machine_answers(2) [of "an_selected an"] by auto
  ultimately have "countable_detections s"
    by - (rule quiet_sweep(1) [OF willing_machine_sound choose_layers_gives [OF new_work_ok c] _ _ run], simp_all)
  with r oc(2) have "sweep_account willing_machine (plan_of lab_options an layers) (an_selected an) s m k u"
      "m \<noteq> [] \<and> \<not> detected s \<and> \<not> sw_interrupted s \<and> u = []"
    by (simp_all split: if_splits)
  with oc asked run show ?thesis by (intro exI conjI) (rule oc asked run | assumption | elim conjE, assumption)+
qed

end
