(* ===== verification/X86.thy ===== *)
theory X86
  imports Fnv
begin

text \<open>
  The part of x86-64 that rbx_payload.S is written in: registers, flags, byte-addressed memory, the
  instructions in AT&T order (source, destination) and their execution one at a time. Pages are
  not modelled: the arena, its shadow and the stack are mapped when the code runs. A flag whose
  value an instruction leaves undefined, or that this model does not compute, is unknown; code
  that branches on an unknown flag is stuck, so a theorem that it runs excludes that.
\<close>

section \<open>State\<close>

datatype reg = RAX | RCX | RDX | RBX | RSP | RBP | RSI | RDI | R8 | R9 | R10 | R11 | R12 | R13 | R14 | R15

record flags = \<comment> \<open>None: unknown\<close>
  zf :: "bool option"
  cf :: "bool option"
  sf :: "bool option"
  ovf :: "bool option"

definition no_flags :: flags where
  "no_flags = \<lparr>zf = None, cf = None, sf = None, ovf = None\<rparr>"

record xstate =
  rax :: u64
  rcx :: u64
  rdx :: u64
  rbx :: u64
  rsp :: u64
  rbp :: u64
  rsi :: u64
  rdi :: u64
  r8 :: u64
  r9 :: u64
  r10 :: u64
  r11 :: u64
  r12 :: u64
  r13 :: u64
  r14 :: u64
  r15 :: u64
  xmm0 :: "128 word"
  fl :: flags
  df :: bool
  gs :: u64 \<comment> \<open>the base of the segment\<close>
  mm :: "u64 \<Rightarrow> u8"
  rip :: u64

fun reg_get :: "reg \<Rightarrow> xstate \<Rightarrow> u64" where
  "reg_get RAX s = rax s" | "reg_get RCX s = rcx s" | "reg_get RDX s = rdx s" | "reg_get RBX s = rbx s"
| "reg_get RSP s = rsp s" | "reg_get RBP s = rbp s" | "reg_get RSI s = rsi s" | "reg_get RDI s = rdi s"
| "reg_get R8 s = r8 s" | "reg_get R9 s = r9 s" | "reg_get R10 s = r10 s" | "reg_get R11 s = r11 s"
| "reg_get R12 s = r12 s" | "reg_get R13 s = r13 s" | "reg_get R14 s = r14 s" | "reg_get R15 s = r15 s"

fun reg_set :: "reg \<Rightarrow> u64 \<Rightarrow> xstate \<Rightarrow> xstate" where
  "reg_set RAX v s = s\<lparr>rax := v\<rparr>" | "reg_set RCX v s = s\<lparr>rcx := v\<rparr>" | "reg_set RDX v s = s\<lparr>rdx := v\<rparr>"
| "reg_set RBX v s = s\<lparr>rbx := v\<rparr>" | "reg_set RSP v s = s\<lparr>rsp := v\<rparr>" | "reg_set RBP v s = s\<lparr>rbp := v\<rparr>"
| "reg_set RSI v s = s\<lparr>rsi := v\<rparr>" | "reg_set RDI v s = s\<lparr>rdi := v\<rparr>" | "reg_set R8 v s = s\<lparr>r8 := v\<rparr>"
| "reg_set R9 v s = s\<lparr>r9 := v\<rparr>" | "reg_set R10 v s = s\<lparr>r10 := v\<rparr>" | "reg_set R11 v s = s\<lparr>r11 := v\<rparr>"
| "reg_set R12 v s = s\<lparr>r12 := v\<rparr>" | "reg_set R13 v s = s\<lparr>r13 := v\<rparr>" | "reg_set R14 v s = s\<lparr>r14 := v\<rparr>"
| "reg_set R15 v s = s\<lparr>r15 := v\<rparr>"

section \<open>Memory\<close>

text \<open>\<open>n\<close> bytes at an address, least significant first, zero-extended; addresses wrap around.\<close>

definition ld :: "nat \<Rightarrow> u64 \<Rightarrow> (u64 \<Rightarrow> u8) \<Rightarrow> u64" where
  "ld n a m = foldr (\<lambda>i w. push_bit 8 w OR ucast (m (of_nat i + a))) [0..<n] 0"

definition st :: "nat \<Rightarrow> u64 \<Rightarrow> u64 \<Rightarrow> (u64 \<Rightarrow> u8) \<Rightarrow> u64 \<Rightarrow> u8" where
  "st n a v m = (\<lambda>x. if x - a < of_nat n then ucast (drop_bit (8 * unat (x - a)) v) else m x)"

definition fill :: "u64 \<Rightarrow> u64 \<Rightarrow> u8 \<Rightarrow> (u64 \<Rightarrow> u8) \<Rightarrow> u64 \<Rightarrow> u8" where
  "fill a n b m = (\<lambda>x. if x - a < n then b else m x)"

section \<open>Instructions\<close>

datatype width = W8 | W16 | W32 | W64

fun bits :: "width \<Rightarrow> nat" where
  "bits W8 = 8" | "bits W16 = 16" | "bits W32 = 32" | "bits W64 = 64"

fun bytes :: "width \<Rightarrow> nat" where
  "bytes W8 = 1" | "bytes W16 = 2" | "bytes W32 = 4" | "bytes W64 = 8"

datatype 'y operand =
    Reg width reg
  | Imm u64                \<comment> \<open>sign-extended\<close>
  | At width u64 reg       \<comment> \<open>displacement and base\<close>
  | Idx width u64 reg reg    \<comment> \<open>displacement, base and index\<close>
  | Gs width u64             \<comment> \<open>an address relative to the gs base\<close>
  | Rip width 'y u64         \<comment> \<open>a symbol and an offset, relative to the instruction pointer\<close>

datatype alu = Add_op | Sub_op | And_op | Xor_op

datatype cond = CC_E | CC_NE | CC_B | CC_AE | CC_BE | CC_A | CC_L | CC_GE | CC_G | CC_LE | CC_NS | CC_O

datatype 'y instr =
    Mov "'y operand" "'y operand"    \<comment> \<open>with \<open>movzbl\<close>, \<open>movzwl\<close>, \<open>movabs\<close>: the value is zero-extended\<close>
  | Movs "'y operand" "'y operand"   \<comment> \<open>\<open>movswl\<close>, \<open>movslq\<close>, \<open>cltq\<close>: sign-extended\<close>
  | Cmov cond "'y operand" "'y operand"
  | Lea "'y operand" "'y operand"
  | Alu alu "'y operand" "'y operand"
  | Cmp "'y operand" "'y operand"
  | Test "'y operand" "'y operand"
  | Imul "'y operand" "'y operand"
  | Shl nat "'y operand"
  | Shl_Cl "'y operand"
  | Shr nat "'y operand"
  | Shr_Cl "'y operand"
  | Sar nat "'y operand"
  | Inc "'y operand"
  | Dec "'y operand"
  | Not_op "'y operand"
  | Neg "'y operand"
  | Set cond "'y operand"
  | J cond u64                       \<comment> \<open>displacement from the next instruction\<close>
  | Jmp u64
  | Jmp_Sym 'y
  | Jmp_Ind "'y operand"
  | Call 'y
  | Call_Ind "'y operand"
  | Ret
  | Push reg
  | Pop reg
  | Cld
  | Rep_Stosb
  | Endbr64
  | Vmovd_Esi_Xmm0
  | Vpbroadcastb_Xmm0
  | Nop
  | Ud2

section \<open>Execution\<close>

fun ea :: "('y \<Rightarrow> u64) \<Rightarrow> 'y operand \<Rightarrow> xstate \<Rightarrow> u64" where
  \<comment> \<open>of an operand in memory\<close>
  "ea lay (At w d r) s = reg_get r s + d"
| "ea lay (Idx w d r i) s = reg_get r s + reg_get i s + d"
| "ea lay (Gs w d) s = gs s + d"
| "ea lay (Rip w y d) s = lay y + d"
| "ea lay _ s = 0"

fun width_of :: "'y operand \<Rightarrow> width" where
  "width_of (Reg w r) = w" | "width_of (Imm v) = W64" | "width_of (At w d r) = w"
| "width_of (Idx w d r i) = w" | "width_of (Gs w d) = w" | "width_of (Rip w y d) = w"

fun trunc :: "width \<Rightarrow> u64 \<Rightarrow> u64" where
  "trunc W64 v = v" | "trunc W32 v = take_bit 32 v" | "trunc W16 v = take_bit 16 v" | "trunc W8 v = take_bit 8 v"

fun get :: "('y \<Rightarrow> u64) \<Rightarrow> 'y operand \<Rightarrow> xstate \<Rightarrow> u64" where
  "get lay (Reg w r) s = trunc w (reg_get r s)"
| "get lay (Imm v) s = v"
| "get lay (At w d r) s = ld (bytes w) (reg_get r s + d) (mm s)"
| "get lay (Idx w d r i) s = ld (bytes w) (reg_get r s + reg_get i s + d) (mm s)"
| "get lay (Gs w d) s = ld (bytes w) (gs s + d) (mm s)"
| "get lay (Rip w y d) s = ld (bytes w) (lay y + d) (mm s)"

definition merge :: "nat \<Rightarrow> u64 \<Rightarrow> u64 \<Rightarrow> u64" where
  "merge n old v = (old AND NOT (mask n)) OR take_bit n v"

fun put :: "('y \<Rightarrow> u64) \<Rightarrow> 'y operand \<Rightarrow> u64 \<Rightarrow> xstate \<Rightarrow> xstate" where
  "put lay (Reg W64 r) v s = reg_set r v s"
| "put lay (Reg W32 r) v s = reg_set r (take_bit 32 v) s"
| "put lay (Reg W16 r) v s = reg_set r (merge 16 (reg_get r s) v) s"
| "put lay (Reg W8 r) v s = reg_set r (merge 8 (reg_get r s) v) s"
| "put lay (Imm _) v s = s" \<comment> \<open>no instruction writes to a constant\<close>
| "put lay (At w d r) v s = s\<lparr>mm := st (bytes w) (reg_get r s + d) v (mm s)\<rparr>"
| "put lay (Idx w d r i) v s = s\<lparr>mm := st (bytes w) (reg_get r s + reg_get i s + d) v (mm s)\<rparr>"
| "put lay (Gs w d) v s = s\<lparr>mm := st (bytes w) (gs s + d) v (mm s)\<rparr>"
| "put lay (Rip w y d) v s = s\<lparr>mm := st (bytes w) (lay y + d) v (mm s)\<rparr>"

definition logic_flags :: "nat \<Rightarrow> u64 \<Rightarrow> flags" where
  "logic_flags n r = \<lparr>zf = Some (take_bit n r = 0), cf = Some False, sf = Some (bit r (n - 1)), ovf = Some False\<rparr>"

definition sub_flags :: "nat \<Rightarrow> u64 \<Rightarrow> u64 \<Rightarrow> flags" where
  "sub_flags n a b = \<lparr>zf = Some (take_bit n (a - b) = 0), cf = Some (a < b), sf = Some (bit (a - b) (n - 1)),
     ovf = Some (bit a (n - 1) \<noteq> bit b (n - 1) \<and> bit (a - b) (n - 1) \<noteq> bit a (n - 1))\<rparr>"

definition add_flags :: "nat \<Rightarrow> u64 \<Rightarrow> u64 \<Rightarrow> flags" where
  "add_flags n a b = \<lparr>zf = Some (take_bit n (a + b) = 0), cf = Some (take_bit n (a + b) < a),
     sf = Some (bit (a + b) (n - 1)),
     ovf = Some (bit a (n - 1) = bit b (n - 1) \<and> bit (a + b) (n - 1) \<noteq> bit a (n - 1))\<rparr>"

definition mul_flags :: "nat \<Rightarrow> u64 \<Rightarrow> u64 \<Rightarrow> flags" where
  \<comment> \<open>carry and overflow: the signed product does not fit\<close>
  "mul_flags n a b =
     (let signed = (\<lambda>x. signed_take_bit (n - 1) (uint x)); over = signed a * signed b \<noteq> signed (a * b)
      in \<lparr>zf = None, cf = Some over, sf = None, ovf = Some over\<rparr>)"

fun alu_op :: "alu \<Rightarrow> nat \<Rightarrow> u64 \<Rightarrow> u64 \<Rightarrow> u64 \<times> flags" where
  "alu_op Add_op n a b = (a + b, add_flags n a b)"
| "alu_op Sub_op n a b = (a - b, sub_flags n a b)"
| "alu_op And_op n a b = (a AND b, logic_flags n (a AND b))"
| "alu_op Xor_op n a b = (a XOR b, logic_flags n (a XOR b))"

fun both :: "(bool \<Rightarrow> bool \<Rightarrow> bool) \<Rightarrow> bool option \<Rightarrow> bool option \<Rightarrow> bool option" where
  "both f (Some a) (Some b) = Some (f a b)"
| "both f _ _ = None"

definition differ :: "bool \<Rightarrow> bool \<Rightarrow> bool" where
  "differ a b \<longleftrightarrow> a \<noteq> b"

fun holds :: "cond \<Rightarrow> flags \<Rightarrow> bool option" where
  "holds CC_E f = zf f"
| "holds CC_NE f = map_option Not (zf f)"
| "holds CC_B f = cf f"
| "holds CC_AE f = map_option Not (cf f)"
| "holds CC_BE f = both (\<or>) (cf f) (zf f)"
| "holds CC_A f = map_option Not (both (\<or>) (cf f) (zf f))"
| "holds CC_L f = both differ (sf f) (ovf f)"
| "holds CC_GE f = map_option Not (both differ (sf f) (ovf f))"
| "holds CC_G f = map_option Not (both (\<or>) (zf f) (both differ (sf f) (ovf f)))"
| "holds CC_LE f = both (\<or>) (zf f) (both differ (sf f) (ovf f))"
| "holds CC_NS f = map_option Not (sf f)"
| "holds CC_O f = ovf f"

definition sign_extend :: "nat \<Rightarrow> u64 \<Rightarrow> u64" where
  "sign_extend n v = signed_take_bit (n - 1) v"

definition jump :: "u64 \<Rightarrow> xstate \<Rightarrow> xstate" where
  "jump target s = s\<lparr>rip := target\<rparr>"

definition push :: "u64 \<Rightarrow> xstate \<Rightarrow> xstate" where
  "push v s = s\<lparr>rsp := rsp s - 8, mm := st 8 (rsp s - 8) v (mm s)\<rparr>"

fun exec :: "('y \<Rightarrow> u64) \<Rightarrow> 'y instr \<Rightarrow> xstate \<Rightarrow> xstate option" where
  \<comment> \<open>\<open>rip\<close> is already past the instruction. None: an exception, or a branch on an unknown flag\<close>
  "exec lay (Mov src dst) s = Some (put lay dst (get lay src s) s)"
| "exec lay (Movs src dst) s = Some (put lay dst (sign_extend (bits (width_of src)) (get lay src s)) s)"
| "exec lay (Cmov c src dst) s =
     map_option (\<lambda>b. put lay dst (if b then get lay src s else get lay dst s) s) (holds c (fl s))"
| "exec lay (Lea src dst) s = Some (put lay dst (ea lay src s) s)"
| "exec lay (Alu op src dst) s =
     (let r = alu_op op (bits (width_of dst)) (get lay dst s) (trunc (width_of dst) (get lay src s))
      in Some ((put lay dst (fst r) s)\<lparr>fl := snd r\<rparr>))"
| "exec lay (Cmp src dst) s =
     Some (s\<lparr>fl := sub_flags (bits (width_of dst)) (get lay dst s) (trunc (width_of dst) (get lay src s))\<rparr>)"
| "exec lay (Test src dst) s =
     Some (s\<lparr>fl := logic_flags (bits (width_of dst)) (get lay dst s AND trunc (width_of dst) (get lay src s))\<rparr>)"
| "exec lay (Imul src dst) s =
     (let n = bits (width_of dst)
      in Some ((put lay dst (get lay dst s * get lay src s) s)\<lparr>fl := mul_flags n (get lay dst s) (get lay src s)\<rparr>))"
| "exec lay (Shl k dst) s = Some ((put lay dst (push_bit k (get lay dst s)) s)\<lparr>fl := no_flags\<rparr>)"
| "exec lay (Shl_Cl dst) s =
     Some ((put lay dst (push_bit (unat (take_bit (if width_of dst = W64 then 6 else 5) (rcx s))) (get lay dst s)) s)\<lparr>fl := no_flags\<rparr>)"
| "exec lay (Shr k dst) s = Some ((put lay dst (drop_bit k (get lay dst s)) s)\<lparr>fl := no_flags\<rparr>)"
| "exec lay (Shr_Cl dst) s =
     Some ((put lay dst (drop_bit (unat (take_bit (if width_of dst = W64 then 6 else 5) (rcx s))) (get lay dst s)) s)\<lparr>fl := no_flags\<rparr>)"
| "exec lay (Sar k dst) s =
     Some ((put lay dst (sign_extend (bits (width_of dst) - k) (drop_bit k (get lay dst s))) s)\<lparr>fl := no_flags\<rparr>)"
| "exec lay (Inc dst) s =
     (let a = get lay dst s
      in Some ((put lay dst (a + 1) s)\<lparr>fl := (add_flags (bits (width_of dst)) a 1)\<lparr>cf := cf (fl s)\<rparr>\<rparr>))"
| "exec lay (Dec dst) s =
     (let a = get lay dst s
      in Some ((put lay dst (a - 1) s)\<lparr>fl := (sub_flags (bits (width_of dst)) a 1)\<lparr>cf := cf (fl s)\<rparr>\<rparr>))"
| "exec lay (Not_op dst) s = Some (put lay dst (NOT (get lay dst s)) s)"
| "exec lay (Neg dst) s =
     (let a = get lay dst s in Some ((put lay dst (- a) s)\<lparr>fl := sub_flags (bits (width_of dst)) 0 a\<rparr>))"
| "exec lay (Set c dst) s = map_option (\<lambda>b. put lay dst (of_bool b) s) (holds c (fl s))"
| "exec lay (J c d) s = map_option (\<lambda>b. if b then jump (d + rip s) s else s) (holds c (fl s))"
| "exec lay (Jmp d) s = Some (jump (d + rip s) s)"
| "exec lay (Jmp_Sym y) s = Some (jump (lay y) s)"
| "exec lay (Jmp_Ind target) s = Some (jump (get lay target s) s)"
| "exec lay (Call y) s = Some (jump (lay y) (push (rip s) s))"
| "exec lay (Call_Ind target) s = Some (jump (get lay target s) (push (rip s) s))"
| "exec lay Ret s = Some (s\<lparr>rip := ld 8 (rsp s) (mm s), rsp := rsp s + 8\<rparr>)"
| "exec lay (Push r) s = Some (push (reg_get r s) s)"
| "exec lay (Pop r) s = Some (reg_set r (ld 8 (rsp s) (mm s)) (s\<lparr>rsp := rsp s + 8\<rparr>))"
| "exec lay Cld s = Some (s\<lparr>df := False\<rparr>)"
| "exec lay Rep_Stosb s = Some (if df s
     then s\<lparr>mm := fill (rdi s - rcx s + 1) (rcx s) (ucast (rax s)) (mm s), rdi := rdi s - rcx s, rcx := 0\<rparr>
     else s\<lparr>mm := fill (rdi s) (rcx s) (ucast (rax s)) (mm s), rdi := rdi s + rcx s, rcx := 0\<rparr>)"
| "exec lay Endbr64 s = Some s"
| "exec lay Vmovd_Esi_Xmm0 s = Some (s\<lparr>xmm0 := ucast (take_bit 32 (rsi s))\<rparr>)"
| "exec lay Vpbroadcastb_Xmm0 s =
     Some (s\<lparr>xmm0 := foldr (\<lambda>_ w. push_bit 8 w OR take_bit 8 (xmm0 s)) [0..<16] 0\<rparr>)"
| "exec lay Nop s = Some s"
| "exec lay Ud2 s = None"

type_synonym 'y program = "u64 \<Rightarrow> ('y instr \<times> u64) option" \<comment> \<open>the instruction at an address, and its length\<close>

definition step :: "('y \<Rightarrow> u64) \<Rightarrow> 'y program \<Rightarrow> xstate \<Rightarrow> xstate option" where
  "step lay code s = (case code (rip s) of None \<Rightarrow> None | Some (i, len) \<Rightarrow> exec lay i (s\<lparr>rip := len + rip s\<rparr>))"

fun run :: "('y \<Rightarrow> u64) \<Rightarrow> 'y program \<Rightarrow> nat \<Rightarrow> xstate \<Rightarrow> xstate option" where
  "run lay code 0 s = Some s"
| "run lay code (Suc n) s = (case step lay code s of None \<Rightarrow> None | Some t \<Rightarrow> run lay code n t)"

definition reaches :: "('y \<Rightarrow> u64) \<Rightarrow> 'y program \<Rightarrow> xstate \<Rightarrow> xstate \<Rightarrow> bool" where
  "reaches lay code s t \<longleftrightarrow> (\<exists>n. run lay code n s = Some t)"

text \<open>A call that is over: the return address popped, the registers a callee keeps as they were.\<close>

definition callee_saved :: "xstate \<Rightarrow> u64 \<times> u64 \<times> u64 \<times> u64 \<times> u64 \<times> u64" where
  "callee_saved s = (rbx s, rbp s, r12 s, r13 s, r14 s, r15 s)"

definition saved :: "xstate \<Rightarrow> (u64 \<times> u64 \<times> u64 \<times> u64 \<times> u64 \<times> u64) \<times> bool \<times> u64" where
  "saved s = (callee_saved s, df s, gs s)"

lemmas saved_simps = saved_def callee_saved_def

definition returns :: "('y \<Rightarrow> u64) \<Rightarrow> 'y program \<Rightarrow> xstate \<Rightarrow> xstate \<Rightarrow> bool" where
  "returns lay code s t \<longleftrightarrow> reaches lay code s t \<and> rip t = ld 8 (rsp s) (mm s) \<and> rsp t = rsp s + 8 \<and> saved t = saved s"

text \<open>A listing, as (offset, instruction, length), placed at an address.\<close>

type_synonym 'y listing = "(u64 \<times> 'y instr \<times> u64) list"

definition placed :: "'y program \<Rightarrow> u64 \<Rightarrow> 'y listing \<Rightarrow> bool" where
  "placed code base xs \<longleftrightarrow> list_all (\<lambda>(off, i, len). code (off + base) = Some (i, len)) xs"

section \<open>Loads over stores\<close>

definition apart :: "u64 \<Rightarrow> u64 \<Rightarrow> u64 \<Rightarrow> u64 \<Rightarrow> bool" where
  \<comment> \<open>\<open>n\<close> bytes at \<open>a\<close> and \<open>k\<close> bytes at \<open>b\<close> have no byte in common\<close>
  "apart a n b k \<longleftrightarrow> n = 0 \<or> k = 0 \<or> n \<le> b - a \<and> k \<le> a - b"

lemma apart_bytes: "apart a n b k \<Longrightarrow> x - a < n \<Longrightarrow> \<not> x - b < k"
proof -
  have *: "n = 0 \<or> k = 0 \<or> n \<le> b - a \<and> k \<le> a - b \<Longrightarrow> x - a < n \<Longrightarrow> \<not> x - b < k" for x a b n k :: u64
    by unat_arith
  show "apart a n b k \<Longrightarrow> x - a < n \<Longrightarrow> \<not> x - b < k" unfolding apart_def by (rule *)
qed

lemma ld_cong: "(\<And>i. i < n \<Longrightarrow> m (of_nat i + a) = m' (of_nat i + a)) \<Longrightarrow> ld n a m = ld n a m'"
  unfolding ld_def by (rule foldr_cong) auto

lemma ld_Suc: "ld (Suc n) a m = push_bit 8 (ld n (a + 1) m) OR ucast (m a)"
proof -
  have "[0..<Suc n] = 0 # map Suc [0..<n]" by (simp only: upt_conv_Cons map_Suc_upt zero_less_Suc)
  then show ?thesis by (simp add: ld_def foldr_map comp_def ac_simps)
qed

lemma bit_ld: "bit (ld n a m) k \<longleftrightarrow> k < 64 \<and> k < 8 * n \<and> bit (m (of_nat (k div 8) + a)) (k mod 8)"
proof (induction n arbitrary: a k)
  case 0
  then show ?case by (simp add: ld_def)
next
  case (Suc n)
  show ?case
  proof (cases "k < 8")
    case True
    then show ?thesis by (auto simp: ld_Suc bit_simps)
  next
    case False
    then have "k div 8 = Suc ((k - 8) div 8)" "k mod 8 = (k - 8) mod 8"
      by (simp_all add: le_div_geq le_mod_geq)
    with False show ?thesis
      using bit_imp_le_length [of "m a" k] by (auto simp: ld_Suc bit_simps Suc ac_simps)
  qed
qed

lemma ld_st_same:
  assumes "n \<le> 8"
  shows "ld n a (st n a v m) = take_bit (8 * n) v"
proof (rule bit_eqI)
  fix k
  have *: "of_nat (k div 8) < (of_nat n :: u64)" "unat (of_nat (k div 8) :: u64) = k div 8" if "k < 8 * n"
    using that assms by (simp_all add: word_less_nat_alt unat_of_nat)
  show "bit (ld n a (st n a v m)) k = bit (take_bit (8 * n) v) k"
    using * by (auto simp: bit_ld st_def bit_simps dest: bit_imp_le_length)
qed

lemma ld_st_apart:
  assumes "apart a (of_nat n) b (of_nat k)" and "n \<le> 8"
  shows "ld n a (st k b v m) = ld n a m"
proof (rule ld_cong)
  fix i assume "i < n"
  then have "of_nat i < (of_nat n :: u64)" using assms(2) by (simp add: word_less_nat_alt unat_of_nat)
  then have "\<not> (of_nat i + a) - b < of_nat k" by (intro apart_bytes [OF assms(1)]) simp
  then show "st k b v m (of_nat i + a) = m (of_nat i + a)" by (simp add: st_def)
qed

lemma apart_offsets:
  "apart (x - c) n (x - d) k \<longleftrightarrow> n = 0 \<or> k = 0 \<or> n \<le> c - d \<and> k \<le> d - c"
  "apart x n (x - d) k \<longleftrightarrow> n = 0 \<or> k = 0 \<or> n \<le> - d \<and> k \<le> d"
  "apart (x - c) n x k \<longleftrightarrow> n = 0 \<or> k = 0 \<or> n \<le> c \<and> k \<le> - c"
  "apart (x + c) n (x + d) k \<longleftrightarrow> n = 0 \<or> k = 0 \<or> n \<le> d - c \<and> k \<le> c - d"
  "apart x n (x + d) k \<longleftrightarrow> n = 0 \<or> k = 0 \<or> n \<le> d \<and> k \<le> - d"
  "apart (x + c) n x k \<longleftrightarrow> n = 0 \<or> k = 0 \<or> n \<le> - c \<and> k \<le> c"
  "apart (x + c) n (x - d) k \<longleftrightarrow> n = 0 \<or> k = 0 \<or> n \<le> - d - c \<and> k \<le> c + d"
  "apart (x - c) n (x + d) k \<longleftrightarrow> n = 0 \<or> k = 0 \<or> n \<le> d + c \<and> k \<le> - c - d"
  by (simp_all add: apart_def)


lemma one_le_word: "(1 :: u64) \<le> x \<longleftrightarrow> x \<noteq> 0"
  by unat_arith

lemma take_bit_64: "take_bit 64 (v :: u64) = v"
  by (auto simp: bit_eq_iff bit_simps dest: bit_imp_le_length)

lemma take_bit_merge: "take_bit 8 (merge 8 old v) = take_bit 8 v" "take_bit 16 (merge 16 old v) = take_bit 16 v"
  by (auto simp: merge_def bit_eq_iff bit_simps)

lemma take_bit_of_bool: "0 < n \<Longrightarrow> take_bit n (of_bool p :: u64) = of_bool p"
  by (cases p) (simp_all add: take_bit_eq_0_iff)

lemma take_bit_8_and_7: "take_bit 8 (x :: u64) AND 7 = x AND 7"
proof -
  have "(7 :: u64) = mask 3" by (simp add: mask_eq_exp_minus_1)
  then show ?thesis by (auto simp: bit_eq_iff bit_simps)
qed

lemma of_bool_and: "(of_bool p :: u64) AND of_bool q = of_bool (p \<and> q)" "of_bool p AND (1 :: u64) = of_bool p"
  by (cases p; cases q; simp)+

lemma minus_numeral_add: "- numeral a + (numeral b + z) = (numeral b - numeral a) + (z :: u64)"
  by simp

lemma zf_flags [simp]:
    "zf (sub_flags n a b) = Some (take_bit n (a - b) = 0)" "zf (logic_flags n r) = Some (take_bit n r = 0)"
    "zf (add_flags n a b) = Some (take_bit n (a + b) = 0)"
  and logic_rest [simp]: "sf (logic_flags n r) = Some (bit r (n - 1))" "ovf (logic_flags n r) = Some False"
  and cf_flags [simp]: "cf (sub_flags n a b) = Some (a < b)" "cf (logic_flags n r) = Some False"
  by (simp_all add: sub_flags_def logic_flags_def add_flags_def)

definition less_signed :: "nat \<Rightarrow> u64 \<Rightarrow> u64 \<Rightarrow> bool" where
  "less_signed n a b \<longleftrightarrow> bit (a - b) (n - 1) \<noteq> (bit a (n - 1) \<noteq> bit b (n - 1) \<and> bit (a - b) (n - 1) \<noteq> bit a (n - 1))"

lemma signed_flags [simp]: "both differ (sf (sub_flags n a b)) (ovf (sub_flags n a b)) = Some (less_signed n a b)"
  by (auto simp: sub_flags_def less_signed_def differ_def)

lemma differ_False [simp]: "differ a False \<longleftrightarrow> a"
  by (simp add: differ_def)

lemma less_signed_iff:
  assumes "a < 2 ^ (n - 1)" and "b < 2 ^ (n - 1)" and "0 < n" and "n \<le> 64"
  shows "less_signed n a b \<longleftrightarrow> a < b"
proof -
  have small: "\<not> bit x (n - 1)" if "x < 2 ^ (n - 1)" for x :: u64
  proof -
    have "x div 2 ^ (n - 1) = 0"
      using that assms(3,4) by (simp add: word_less_nat_alt unat_div flip: unat_eq_0)
    then show ?thesis by (simp add: bit_iff_odd)
  qed
  show ?thesis
  proof (cases "a < b")
    case True
    have "a - b = NOT (b - a - 1)" by (simp add: not_eq_complement)
    moreover have "\<not> bit (b - a - 1) (n - 1)" by (rule small) (use assms True in unat_arith)
    ultimately have "bit (a - b) (n - 1)" using assms by (simp add: bit_not_iff)
    with True small assms show ?thesis by (simp add: less_signed_def)
  next
    case False
    have "\<not> bit (a - b) (n - 1)" by (rule small) (use assms False in unat_arith)
    with False small assms show ?thesis by (simp add: less_signed_def)
  qed
qed

lemma less_signed_small: "a < b \<Longrightarrow> b < 0x80 \<Longrightarrow> less_signed 8 a b"
  using less_signed_iff [of a 8 b] by simp

lemma run_numeral:
  "run lay code (numeral k) s = (case step lay code s of None \<Rightarrow> None | Some t \<Rightarrow> run lay code (pred_numeral k) t)"
  by (simp only: numeral_eq_Suc run.simps)

lemma run_add: "run lay code (k + n) s = (case run lay code k s of None \<Rightarrow> None | Some t \<Rightarrow> run lay code n t)"
  by (induction k arbitrary: s) (auto split: option.splits)

lemma reaches_refl: "reaches lay code s s"
  unfolding reaches_def by (metis run.simps(1))

lemma reaches_trans: "reaches lay code s t \<Longrightarrow> reaches lay code t u \<Longrightarrow> reaches lay code s u"
  unfolding reaches_def by (metis run_add option.simps(5))

lemma reaches_run: "run lay code n s = Some t \<Longrightarrow> reaches lay code s t"
  unfolding reaches_def by blast

lemma returns_run:
  assumes "run lay code k s = Some t" and "rip t = ld 8 (rsp s) (mm s)" and "rsp t = rsp s + 8" and "saved t = saved s"
  shows "returns lay code s t"
  using assms by (auto simp: returns_def reaches_def)

lemma ld_fill: "apart a (of_nat n) b k \<Longrightarrow> n \<le> 8 \<Longrightarrow> ld n a (fill b k v m) = ld n a m"
proof (rule ld_cong)
  fix i assume a: "apart a (of_nat n) b k" "n \<le> 8" "i < n"
  then have "of_nat i < (of_nat n :: u64)" by (simp add: word_less_nat_alt unat_of_nat)
  then have "\<not> (of_nat i + a) - b < k" by (intro apart_bytes [OF a(1)]) simp
  then show "fill b k v m (of_nat i + a) = m (of_nat i + a)" by (simp add: fill_def)
qed

lemma ucast_take_bit_8: "(ucast (take_bit 8 (x :: u64)) :: u8) = ucast x"
  by (auto simp: bit_eq_iff bit_simps dest: bit_imp_le_length)

lemma take_bit_less: "k \<le> 64 \<Longrightarrow> unat x < 2 ^ k \<Longrightarrow> take_bit k (x :: u64) = x"
  by (simp add: word_unat_eq_iff unsigned_take_bit_eq take_bit_nat_eq_self)

lemma fill_0: "fill a 0 v m = m"
  by (simp add: fill_def)

section \<open>What stays\<close>

definition inside :: "u64 \<Rightarrow> u64 \<Rightarrow> u64 \<Rightarrow> u64 \<Rightarrow> bool" where
  "inside b k c l \<longleftrightarrow> b - c \<le> l \<and> k \<le> l - (b - c)"

lemma inside_bytes: "inside b k c l \<Longrightarrow> x - b < k \<Longrightarrow> x - c < l"
proof -
  have *: "q \<le> l \<Longrightarrow> k \<le> l - q \<Longrightarrow> p < k \<Longrightarrow> p + q < l" for p q :: u64
    by unat_arith
  show "inside b k c l \<Longrightarrow> x - b < k \<Longrightarrow> x - c < l"
    using * [of "b - c" "x - b"] by (simp add: inside_def)
qed

lemma inside_offsets:
  "inside (x - c) n (x - d) k \<longleftrightarrow> d - c \<le> k \<and> n \<le> k - (d - c)"
  "inside x n (x - d) k \<longleftrightarrow> d \<le> k \<and> n \<le> k - d"
  "inside (x + c) n (x - d) k \<longleftrightarrow> c + d \<le> k \<and> n \<le> k - (c + d)"
  "inside (x - c) n x k \<longleftrightarrow> - c \<le> k \<and> n \<le> k + c"
  "inside x n x k \<longleftrightarrow> n \<le> k"
  "inside (x + c) n x k \<longleftrightarrow> c \<le> k \<and> n \<le> k - c"
  "inside x n (x + d) k \<longleftrightarrow> - d \<le> k \<and> n \<le> k + d"
  "inside (x + c) n (x + d) k \<longleftrightarrow> c - d \<le> k \<and> n \<le> k - (c - d)"
  by (simp_all add: inside_def add.commute)

type_synonym extents = "(u64 \<times> u64) list" \<comment> \<open>address and size\<close>

definition keeps :: "extents \<Rightarrow> (u64 \<Rightarrow> u8) \<Rightarrow> (u64 \<Rightarrow> u8) \<Rightarrow> bool" where
  \<comment> \<open>only bytes of the extents differ\<close>
  "keeps W m m' \<longleftrightarrow> (\<forall>x. list_all (\<lambda>(a, n). \<not> x - a < n) W \<longrightarrow> m' x = m x)"

definition clear :: "extents \<Rightarrow> u64 \<Rightarrow> u64 \<Rightarrow> bool" where
  "clear W a n \<longleftrightarrow> list_all (\<lambda>(b, k). apart a n b k) W"

definition covers :: "extents \<Rightarrow> u64 \<Rightarrow> u64 \<Rightarrow> bool" where
  "covers W a n \<longleftrightarrow> list_ex (\<lambda>(b, k). inside a n b k) W"

lemma keeps_refl: "keeps W m m"
  by (simp add: keeps_def)

lemma keeps_st: "keeps W m m' \<Longrightarrow> covers W b (of_nat k) \<Longrightarrow> keeps W m (st k b v m')"
  by (fastforce simp: keeps_def covers_def st_def list_all_iff list_ex_iff dest: inside_bytes)

lemma keeps_trans: "keeps W m m' \<Longrightarrow> keeps W m' m'' \<Longrightarrow> keeps W m m''"
  by (simp add: keeps_def)

lemma keeps_mono: "keeps W m m' \<Longrightarrow> list_all (\<lambda>(a, n). covers V a n) W \<Longrightarrow> keeps V m m'"
  by (fastforce simp: keeps_def covers_def list_all_iff list_ex_iff dest: inside_bytes)

lemma keeps_ld:
  assumes "keeps W m m'" and "clear W a (of_nat n)" and "n \<le> 8"
  shows "ld n a m' = ld n a m"
proof (rule ld_cong)
  fix i assume "i < n"
  then have "(of_nat i + a) - a < of_nat n" using assms(3) by (simp add: word_less_nat_alt unat_of_nat)
  then have "\<not> (of_nat i + a) - b < k" if "(b, k) \<in> set W" for b k
    using that assms(2) by (intro apart_bytes) (auto simp: clear_def list_all_iff)
  with assms(1) show "m' (of_nat i + a) = m (of_nat i + a)" by (auto simp: keeps_def list_all_iff)
qed

lemma ld_1: "ld 1 a m = ucast (m a)" "ld (Suc 0) a m = ucast (m a)"
  by (simp_all add: ld_def)

lemma apart_sym: "apart a n b k \<longleftrightarrow> apart b k a n"
  by (auto simp: apart_def)

lemma apartI: "(\<And>x. x - a < n \<Longrightarrow> \<not> x - b < k) \<Longrightarrow> apart a n b k"
  unfolding apart_def by (metis diff_self not_le word_neq_0_conv)

lemma apart_inside: "apart a n b k \<Longrightarrow> inside a' n' a n \<Longrightarrow> inside b' k' b k \<Longrightarrow> apart a' n' b' k'"
  by (rule apartI) (auto dest: apart_bytes inside_bytes)

lemma inside_refl [simp]: "inside a n a n"
  by (simp add: inside_def)

lemma inside_trans: "inside a n b k \<Longrightarrow> inside b k c l \<Longrightarrow> inside a n c l"
proof -
  have *: "p \<le> k \<Longrightarrow> n \<le> k - p \<Longrightarrow> q \<le> l \<Longrightarrow> k \<le> l - q \<Longrightarrow> p + q \<le> l \<and> n \<le> l - (p + q)" for p q :: u64
    by unat_arith
  show "inside a n b k \<Longrightarrow> inside b k c l \<Longrightarrow> inside a n c l"
    using * [of "a - b" "b - c"] by (simp add: inside_def)
qed

lemma apart_within:
  assumes "apart a n b k"
  shows "inside c l a n \<Longrightarrow> inside d j b k \<Longrightarrow> apart c l d j"
    and "inside c l a n \<Longrightarrow> inside d j b k \<Longrightarrow> apart d j c l"
  using apart_inside [OF assms, of c l d j] by (simp_all add: apart_sym)

lemma clear_within: "clear W a n \<Longrightarrow> inside b k a n \<Longrightarrow> clear W b k"
  using apart_inside [of a n _ _ b k] by (fastforce simp: clear_def list_all_iff)

lemma take_bit_ld: "8 * n \<le> k \<Longrightarrow> take_bit k (ld n a m) = ld n a m"
  by (rule bit_eqI) (auto simp: bit_simps bit_ld)

lemma add_no_wrap:
  fixes b :: u64
  assumes "i < n" and "n \<le> - b" and "b \<noteq> 0"
  shows "\<not> b + i < b" and "b + i \<noteq> 0"
proof -
  have *: "\<not> x < b \<and> x \<noteq> 0" if "x - b < n" "n \<le> 0 - b" "b \<noteq> 0" for x b n :: u64
  proof -
    have "unat (x - b) < unat (0 - b)" using that(1,2) by (simp add: word_less_nat_alt [symmetric])
    with that(3) show ?thesis
      unfolding unat_sub_if' [of x b] unat_sub_if' [of 0 b]
      by (auto simp: word_less_nat_alt unat_eq_0 split: if_splits)
  qed
  show "\<not> b + i < b" and "b + i \<noteq> 0" using * [of "b + i" b n] assms by simp_all
qed

lemma word_offsets:
  fixes x :: u64
  shows "x + numeral a + numeral b = x + (numeral a + numeral b)" "x - numeral a - numeral b = x - (numeral a + numeral b)"
    and "x - numeral a + numeral b = x - (numeral a - numeral b)" "x + numeral a - numeral b = x + (numeral a - numeral b)"
  by (simp_all only: algebra_simps)

text \<open>Blocks of memory that are pairwise apart, and parts of them.\<close>

fun scattered :: "extents \<Rightarrow> bool" where
  "scattered [] = True"
| "scattered ((a, n) # W) = (clear W a n \<and> scattered W)"

lemma scattered_parts: "scattered W \<Longrightarrow> list_all2 (\<lambda>(a, n) (b, k). inside a n b k) V W \<Longrightarrow> scattered V"
proof (induction W arbitrary: V rule: scattered.induct)
  case (2 b k W)
  then obtain a n V' where V: "V = (a, n) # V'" "inside a n b k" "list_all2 (\<lambda>(a, n) (b, k). inside a n b k) V' W"
    by (auto simp: list_all2_Cons2)
  have "apart a n c l" if mem: "(c, l) \<in> set V'" for c l
  proof -
    obtain d j where "(d, j) \<in> set W" "inside c l d j" using V(3) mem by (fastforce simp: list_all2_conv_all_nth in_set_conv_nth)
    with 2(2) V(2) show ?thesis by (auto simp: clear_def list_all_iff intro: apart_inside)
  qed
  with 2 V show ?case by (auto simp: clear_def list_all_iff)
qed simp

lemma scattered_nth: "scattered W \<longleftrightarrow> (\<forall>j<length W. \<forall>i<j. apart (fst (W ! i)) (snd (W ! i)) (fst (W ! j)) (snd (W ! j)))"
proof (induction W rule: scattered.induct)
  case (2 a n W)
  have "clear W a n \<longleftrightarrow> (\<forall>j<length W. apart a n (fst (W ! j)) (snd (W ! j)))"
    by (auto simp: clear_def list_all_length split: prod.splits)
  moreover have "(\<forall>j<Suc k. P j) \<longleftrightarrow> P 0 \<and> (\<forall>j<k. P (Suc j))" for P k by (auto simp: less_Suc_eq_0_disj)
  ultimately show ?case using 2 by auto
qed simp

lemma scattered_select:
  assumes "scattered W" and "sorted_wrt (<) is" and "\<forall>i\<in>set is. i < length W"
  shows "scattered (map ((!) W) is)"
  using assms by (auto simp: scattered_nth sorted_wrt_iff_nth_less)

lemma numeral_blocks:
  "inside (numeral a) n (numeral b) k \<longleftrightarrow> numeral a - numeral b \<le> k \<and> n \<le> k - (numeral a - numeral b)"
  "apart (numeral a) n (numeral b) k \<longleftrightarrow> n = 0 \<or> k = 0 \<or> n \<le> numeral b - numeral a \<and> k \<le> numeral a - numeral b"
  by (simp_all add: inside_def apart_def)

lemma scattered_of:
  assumes "scattered W" and "sorted_wrt (<) is" and "\<forall>i\<in>set is. i < length W"
    and "list_all2 (\<lambda>(a, n) (b, k). inside a n b k) V (map ((!) W) is)"
  shows "scattered V"
  using scattered_parts [OF scattered_select [OF assms(1-3)] assms(4)] .

text \<open>Blocks replaced by parts of them, or left out.\<close>

lemma scattered_append:
  "scattered (V @ W) \<longleftrightarrow> scattered V \<and> scattered W \<and> (\<forall>(a, n)\<in>set V. \<forall>(b, k)\<in>set W. apart a n b k)"
  by (induction V rule: scattered.induct) (auto simp: clear_def list_all_iff)

lemma scattered_refine:
  assumes "scattered W" and "list_all2 (\<lambda>V (b, k). scattered V \<and> list_all (\<lambda>(a, n). inside a n b k) V) Vs W"
  shows "scattered (concat Vs)"
  using assms(2,1)
proof (induction rule: list_all2_induct)
  case (Cons V Vs x W)
  obtain b k where x: "x = (b, k)" by fastforce
  have "apart a n c l" if mem: "(a, n) \<in> set V" "(c, l) \<in> set (concat Vs)" for a n c l
  proof -
    obtain U where U: "U \<in> set Vs" "(c, l) \<in> set U" using mem(2) by auto
    then obtain i where i: "i < length Vs" "Vs ! i = U" by (auto simp: in_set_conv_nth)
    with Cons(2) have "list_all (\<lambda>(a, n). inside a n (fst (W ! i)) (snd (W ! i))) U" and "W ! i \<in> set W"
      by (auto simp: list_all2_conv_all_nth split: prod.splits)
    moreover from this have "apart b k (fst (W ! i)) (snd (W ! i))"
      using Cons(4) by (auto simp: x clear_def list_all_iff)
    ultimately show ?thesis using Cons(1) mem(1) U(2) by (auto simp: x list_all_iff intro: apart_inside)
  qed
  then have "\<forall>(a, n)\<in>set V. \<forall>(c, l)\<in>set (concat Vs). apart a n c l" by blast
  moreover have "scattered (concat Vs)" using Cons(3,4) by (simp add: x)
  ultimately show ?case using Cons(1) unfolding concat.simps scattered_append by (simp add: x)
qed simp

fun spread :: "extents \<Rightarrow> bool" where
  "spread [] = True"
| "spread ((a, n) # W) = (list_all (\<lambda>(b, k). \<forall>c l d j. inside c l a n \<longrightarrow> inside d j b k \<longrightarrow> apart c l d j \<and> apart d j c l) W
     \<and> spread W)"

lemma scattered_spread: "scattered W \<Longrightarrow> spread W"
  by (induction W rule: scattered.induct) (auto simp: clear_def list_all_iff dest: apart_within)

section \<open>Concrete machines\<close>

definition load_at :: "u64 \<Rightarrow> 'y listing \<Rightarrow> 'y program" where
  "load_at base xs = (\<lambda>a. map_of xs (a - base))"

lemma placed_load_at: "distinct (map fst xs) \<Longrightarrow> placed (load_at base xs) base xs"
  by (auto simp: placed_def load_at_def list_all_iff intro!: map_of_is_SomeI)

definition at_rest :: "(u64 \<Rightarrow> u8) \<Rightarrow> xstate" where
  "at_rest m = \<lparr>rax = 0, rcx = 0, rdx = 0, rbx = 0, rsp = 0, rbp = 0, rsi = 0, rdi = 0, r8 = 0, r9 = 0, r10 = 0,
     r11 = 0, r12 = 0, r13 = 0, r14 = 0, r15 = 0, xmm0 = 0, fl = no_flags, df = False, gs = 0, mm = m, rip = 0\<rparr>"

lemmas x86 = word_offsets numeral_blocks push_def jump_def run_numeral step_def take_bit_64 ld_st_same ld_st_apart apart_offsets inside_offsets one_le_word Let_def
  take_bit_merge take_bit_of_bool of_bool_and minus_numeral_add take_bit_ld

end
