(* ===== verification/Payload.thy ===== *)
theory Payload
  imports X86
begin

text \<open>
  The hand-written parts of rbx_payload.S: the symbols and the data block, memset, the memset of
  the self-test that plants the fault, the call wrapper and the landing of a fault. Instructions
  given by their mnemonic only have the length the assembler chooses.
\<close>

section \<open>Symbols and data\<close>

text \<open>\<open>Fn k\<close> is \<open>sdc_rbx_fn_k\<close>, \<open>Trap k\<close> is \<open>sdc_rbx_trap_k\<close>; \<open>Fn 10\<close> is \<open>sdc_rbx_emit_i16\<close> as well.\<close>

datatype symbol = Fn nat | Trap nat | Emit_I16_End | Memset
  | Saved_Rsp | Inject_Countdown | D_Real_Memset | D_Mid_Beg | D_Mid_End | D_High_End
  | D_Detect_Uar | D_Can_Poison | D_Dummy

definition data_block :: "(symbol \<Rightarrow> u64) \<Rightarrow> u64 \<Rightarrow> bool" where
  \<comment> \<open>where the symbols of the data section lie\<close>
  "data_block lay data \<longleftrightarrow>
     lay Saved_Rsp = data \<and> lay Inject_Countdown = data + 8 \<and> lay D_Real_Memset = data + 0x10
     \<and> lay D_Mid_Beg = data + 0x18 \<and> lay D_Mid_End = data + 0x20 \<and> lay D_High_End = data + 0x28
     \<and> lay D_Detect_Uar = data + 0x30 \<and> lay D_Can_Poison = data + 0x34 \<and> lay D_Dummy = data + 0x40"

definition data_values :: "(symbol \<Rightarrow> u64) \<Rightarrow> (u64 \<Rightarrow> u8) \<Rightarrow> bool" where
  \<comment> \<open>the values the code reads and nothing changes\<close>
  "data_values lay m \<longleftrightarrow>
     ld 8 (lay D_Mid_Beg) m = 0 \<and> ld 8 (lay D_Mid_End) m = 0 \<and> ld 8 (lay D_High_End) m = 0x00007FFFFFFFFFFF
     \<and> ld 4 (lay D_Detect_Uar) m = 1 \<and> ld 1 (lay D_Can_Poison) m = 1 \<and> (\<forall>i<256. m (lay D_Dummy + i) = 0)"

section \<open>Shadow memory\<close>

text \<open>The shadow byte of an address, and the check of a one-byte access before it is made.\<close>

definition shadow :: "u64 \<Rightarrow> u64" where
  "shadow a = drop_bit 3 a + 0x7FFF8000"

definition addressable :: "(u64 \<Rightarrow> u8) \<Rightarrow> u64 \<Rightarrow> bool" where
  "addressable m a \<longleftrightarrow> m (shadow a) = 0 \<or> (let k = ucast (m (shadow a)) in a AND 7 < k \<and> k < 0x80)"

section \<open>Listings\<close>

definition sdc_rbx_memset_code :: "symbol listing" where
  "sdc_rbx_memset_code = [
    (0, Endbr64, 4),
    (4, Vmovd_Esi_Xmm0, 4),
    (8, Mov (Reg W64 RDI) (Reg W64 RAX), 3),
    (0xB, Cmp (Imm 0x20) (Reg W64 RDX), 4),
    (0xF, J CC_B 0xCB, 6),
    (0x15, Mov (Reg W64 RDI) (Reg W64 R8), 3),
    (0x18, Mov (Reg W8 RSI) (Reg W32 RAX), 4),
    (0x1C, Mov (Reg W64 RDX) (Reg W64 RCX), 3),
    (0x1F, Rep_Stosb, 2),
    (0x21, Mov (Reg W64 R8) (Reg W64 RAX), 3),
    (0x24, Ret, 1),
    (0xE0, Vpbroadcastb_Xmm0, 5),
    (0xE5, Cmp (Imm 0x10) (Reg W32 RDX), 3),
    (0xE8, J CC_GE 0x16, 2),
    (0xEA, Cmp (Imm 8) (Reg W32 RDX), 3),
    (0xED, J CC_GE 0x21, 2),
    (0xEF, Cmp (Imm 4) (Reg W32 RDX), 3),
    (0xF2, J CC_GE 0x2C, 2),
    (0xF4, Cmp (Imm 1) (Reg W32 RDX), 3),
    (0xF7, J CC_G 0x37, 2),
    (0xF9, J CC_L 3, 2),
    (0xFB, Mov (Reg W8 RSI) (At W8 0 RDI), 3),
    (0xFE, Ret, 1),
    (0xFF, Nop, 1),
    (0x100, Jmp (- 0xF0), 5),
    (0x110, Jmp (- 0x100), 5),
    (0x120, Jmp (- 0x110), 5),
    (0x130, Jmp (- 0x120), 5)]"

definition sdc_rbx_memset_inject_code :: "symbol listing" where
  "sdc_rbx_memset_inject_code = [
    (0, Mov (At W64 0x30 RSP) (Reg W64 R11), 5),
    (5, Lea (Rip W64 (Fn 10) 0) (Reg W64 R10), 7),
    (0xC, Cmp (Reg W64 R10) (Reg W64 R11), 3),
    (0xF, J CC_B 0x1F, 2),
    (0x11, Lea (Rip W64 Emit_I16_End 0) (Reg W64 R10), 7),
    (0x18, Cmp (Reg W64 R10) (Reg W64 R11), 3),
    (0x1B, J CC_AE 0x13, 2),
    (0x1D, Alu Sub_op (Imm 1) (Rip W64 Inject_Countdown 0), 8),
    (0x25, J CC_NE 9, 2),
    (0x27, Alu Add_op (Imm 0xA0) (At W64 0x10 RSP), 9),
    (0x30, Jmp_Sym Memset, 5)]"

definition sdc_rbx_call_code :: "symbol listing" where
  \<comment> \<open>with \<open>.Lcall_return\<close> at \<open>0x1F\<close> and \<open>sdc_rbx_fault_landing\<close> at \<open>0x2A\<close>\<close>
  "sdc_rbx_call_code = [
    (0, Push RBP, 1),
    (1, Push RBX, 1),
    (2, Push R12, 2),
    (4, Push R13, 2),
    (6, Push R14, 2),
    (8, Push R15, 2),
    (0xA, Push RSI, 1),
    (0xB, Mov (Reg W64 RSP) (Rip W64 Saved_Rsp 0), 7),
    (0x12, Call (Fn 4), 5),
    (0x17, Pop RSI, 1),
    (0x18, Mov (Imm 0) (At W64 0 RSI), 7),
    (0x1F, Pop R15, 2),
    (0x21, Pop R14, 2),
    (0x23, Pop R13, 2),
    (0x25, Pop R12, 2),
    (0x27, Pop RBX, 1),
    (0x28, Pop RBP, 1),
    (0x29, Ret, 1),
    (0x2A, Mov (Rip W64 Saved_Rsp 0) (Reg W64 RSP), 7),
    (0x31, Cld, 1),
    (0x32, Pop RSI, 1),
    (0x33, Mov (Imm 1) (At W64 0 RSI), 7),
    (0x3A, Alu Xor_op (Reg W32 RAX) (Reg W32 RAX), 2),
    (0x3C, Jmp (- 0x1F), 2)]"

section \<open>memset\<close>

lemma st_1: "st (Suc 0) a v m = fill a 1 (ucast v) m"
proof
  have "x - a < 1 \<longleftrightarrow> x - a = 0" for x by unat_arith
  then show "st (Suc 0) a v m x = fill a 1 (ucast v) m x" for x
    by (simp add: st_def fill_def)
qed

lemma memset_fills:
  assumes p: "placed code base sdc_rbx_memset_code" and "rip s = base" and "\<not> df s"
    and "apart (rsp s) 8 (rdi s) (rdx s)"
  shows "\<exists>t. returns lay code s t \<and> rax t = rdi s \<and> mm t = fill (rdi s) (rdx s) (ucast (rsi s)) (mm s)"
proof -
  note fetch = p [unfolded placed_def sdc_rbx_memset_code_def list.pred_inject split_conv add_0_left]
  let ?n = "rdx s"
  have ret: "ld 8 (rsp s) (fill (rdi s) ?n v (mm s)) = ld 8 (rsp s) (mm s)" for v
    using assms(4) by (simp add: ld_fill)
  have "\<exists>k t. run lay code k s = Some t \<and> rip t = ld 8 (rsp s) (mm s) \<and> rsp t = rsp s + 8 \<and> saved t = saved s
    \<and> rax t = rdi s \<and> mm t = fill (rdi s) (rdx s) (ucast (rsi s)) (mm s)"
  proof (cases "?n < 0x20")
    case False
    then show ?thesis
      using assms(2,3) by (intro exI [of _ 11]) (simp add: x86 fetch ret saved_simps ucast_take_bit_8)
  next
    case True
    then have small: "take_bit 32 ?n = ?n" "\<And>c. c < 0x80000000 \<Longrightarrow> less_signed 32 ?n c \<longleftrightarrow> ?n < c"
      by (simp_all add: take_bit_less less_signed_iff word_less_nat_alt)
    have mono: "?n < 8 \<Longrightarrow> ?n < 16" "?n < 4 \<Longrightarrow> ?n < 8" by unat_arith+
    consider "\<not> ?n < 16" | "?n < 16" "\<not> ?n < 8" | "?n < 8" "\<not> ?n < 4" | "?n < 4" "?n \<noteq> 0" "?n \<noteq> 1" | "?n = 1" | "?n = 0"
      by blast
    then show ?thesis
    proof cases
      case 1
      with True show ?thesis using assms(2,3) by (intro exI [of _ 15]) (simp add: x86 fetch ret saved_simps ucast_take_bit_8 small)
    next
      case 2
      with True show ?thesis using assms(2,3) by (intro exI [of _ 17]) (simp add: x86 fetch ret saved_simps ucast_take_bit_8 small)
    next
      case 3
      with True mono show ?thesis using assms(2,3) by (intro exI [of _ 19]) (simp add: x86 fetch ret saved_simps ucast_take_bit_8 small)
    next
      case 4
      then have "take_bit 32 (?n - 1) \<noteq> 0" by (simp add: take_bit_less word_less_nat_alt unat_minus_one)
      with 4 True mono show ?thesis using assms(2,3) by (intro exI [of _ 21]) (simp add: x86 fetch ret saved_simps ucast_take_bit_8 small one_le_word)
    next
      case 5
      then show ?thesis using assms(2,3) by (intro exI [of _ 17])
          (simp add: x86 fetch ret [unfolded 5] saved_simps ucast_take_bit_8 less_signed_iff st_1)
    next
      case 6
      then show ?thesis using assms(2,3) by (intro exI [of _ 16])
          (simp add: x86 fetch saved_simps ucast_take_bit_8 less_signed_iff fill_0)
    qed
  qed
  then show ?thesis by (blast intro: returns_run)
qed

section \<open>The memset of the self-test\<close>

lemma memset_inject_plants:
  assumes p: "placed code base sdc_rbx_memset_inject_code" and "rip s = base"
    and "apart (lay Inject_Countdown) 8 (rsp s + 0x10) 8"
  shows "\<exists>t. reaches lay code s t \<and> rip t = lay Memset \<and> rsp t = rsp s \<and> rdi t = rdi s \<and> rsi t = rsi s
    \<and> rdx t = rdx s \<and> saved t = saved s
    \<and> (let caller = ld 8 (rsp s + 0x30) (mm s); count = ld 8 (lay Inject_Countdown) (mm s);
           m = st 8 (lay Inject_Countdown) (count - 1) (mm s); rbx_slot = rsp s + 0x10
       in mm t = (if caller < lay (Fn 10) \<or> \<not> caller < lay Emit_I16_End then mm s
                  else if count = 1 then st 8 rbx_slot (ld 8 rbx_slot (mm s) + 0xA0) m
                  else m))"
proof -
  note fetch = p [unfolded placed_def sdc_rbx_memset_inject_code_def list.pred_inject split_conv add_0_left]
  let ?caller = "ld 8 (rsp s + 0x30) (mm s)" and ?count = "ld 8 (lay Inject_Countdown) (mm s)"
  note ex = x86 fetch saved_simps assms(2,3) assms(3) [unfolded apart_sym [of "lay Inject_Countdown"]]
  consider "?caller < lay (Fn 10)" | "\<not> ?caller < lay (Fn 10)" "\<not> ?caller < lay Emit_I16_End"
    | "\<not> ?caller < lay (Fn 10)" "?caller < lay Emit_I16_End" "?count = 1"
    | "\<not> ?caller < lay (Fn 10)" "?caller < lay Emit_I16_End" "?count \<noteq> 1" by blast
  then have "\<exists>k t. run lay code k s = Some t \<and> rip t = lay Memset \<and> rsp t = rsp s \<and> rdi t = rdi s \<and> rsi t = rsi s
    \<and> rdx t = rdx s \<and> saved t = saved s
    \<and> (let caller = ld 8 (rsp s + 0x30) (mm s); count = ld 8 (lay Inject_Countdown) (mm s);
           m = st 8 (lay Inject_Countdown) (count - 1) (mm s); rbx_slot = rsp s + 0x10
       in mm t = (if caller < lay (Fn 10) \<or> \<not> caller < lay Emit_I16_End then mm s
                  else if count = 1 then st 8 rbx_slot (ld 8 rbx_slot (mm s) + 0xA0) m
                  else m))"
  proof cases
    case 1 then show ?thesis by (intro exI [of _ 5]) (simp add: ex)
  next
    case 2 then show ?thesis by (intro exI [of _ 8]) (simp add: ex)
  next
    case 3 then show ?thesis by (intro exI [of _ 11]) (simp add: ex)
  next
    case 4 then show ?thesis by (intro exI [of _ 10]) (simp add: ex)
  qed
  then show ?thesis by (blast intro: reaches_run)
qed

section \<open>The call\<close>

text \<open>
  Between the call and its end only what the code keeps out of the payload's reach matters: the
  saved registers on the stack and \<open>sdc_rbx_saved_rsp\<close>.
\<close>

definition undisturbed :: "(symbol \<Rightarrow> u64) \<Rightarrow> u64 \<Rightarrow> (u64 \<Rightarrow> u8) \<Rightarrow> (u64 \<Rightarrow> u8) \<Rightarrow> bool" where
  "undisturbed lay sp m m' \<longleftrightarrow> (\<exists>W. keeps W m m' \<and> clear W (sp - 0x38) 0x40 \<and> clear W (lay Saved_Rsp) 8)"

definition call_ends :: "(symbol \<Rightarrow> u64) \<Rightarrow> symbol program \<Rightarrow> xstate \<Rightarrow> xstate \<Rightarrow> u64 \<Rightarrow> u64 \<Rightarrow> bool" where
  \<comment> \<open>from \<open>t\<close> the call begun in \<open>s\<close> ends, with this hash and this \<open>*faulted\<close>\<close>
  "call_ends lay code s t hash faulted \<longleftrightarrow> (\<exists>v. reaches lay code t v
     \<and> rip v = ld 8 (rsp s) (mm s) \<and> rsp v = rsp s + 8 \<and> callee_saved v = callee_saved s
     \<and> rax v = hash \<and> ld 8 (rsi s) (mm v) = faulted \<and> df v = (df t \<and> faulted = 0) \<and> gs v = gs t
     \<and> keeps [(rsi s, 8)] (mm t) (mm v))"

text \<open>
  Property C28: the call survives a fault. \<open>sdc_rbx_call\<close> enters the payload with its argument, and
  as long as what runs there leaves the saved registers on the stack and \<open>sdc_rbx_saved_rsp\<close>
  alone: a return gives the hash of the payload and clears \<open>*faulted\<close>; resumption at the landing,
  with any registers, stack pointer and flags at all, returns to the caller with \<open>*faulted\<close> set to
  1; in both cases the stack pointer and all callee-saved registers are the caller's.
\<close>

theorem call_survives:
  assumes p: "placed code (base :: u64) sdc_rbx_call_code" and "rip s = base"
    and "apart (lay Saved_Rsp) 8 (rsp s - 0x40) 0x48" and "apart (rsi s) 8 (rsp s - 0x40) 0x48"
    and "apart (rsi s) 8 (lay Saved_Rsp) 8"
  shows "\<exists>u. reaches lay code s u \<and> rip u = lay (Fn 4) \<and> rdi u = rdi s \<and> rsp u = rsp s - 0x40 \<and> gs u = gs s
    \<and> df u = df s \<and> ld 8 (rsp u) (mm u) = 0x17 + base
    \<and> keeps [(rsp s - 0x40, 0x40), (lay Saved_Rsp, 8)] (mm s) (mm u)
    \<and> (\<forall>t. undisturbed lay (rsp s) (mm u) (mm t) \<longrightarrow>
        (rip t = 0x17 + base \<and> rsp t = rsp s - 0x38 \<longrightarrow> call_ends lay code s t (rax t) 0)
      \<and> (rip t = 0x2A + base \<longrightarrow> call_ends lay code s t 0 1))"
proof -
  note fetch = p [unfolded placed_def sdc_rbx_call_code_def list.pred_inject split_conv add_0_left]
  note sep = assms(3,4) [THEN apart_within(1)] assms(3,4) [THEN apart_within(2)] assms(5) assms(5) [unfolded apart_sym [of "rsi s"]]
  define sp where "sp = rsp s"
  note ex = x86 fetch callee_saved_def sep [folded sp_def] keeps_refl keeps_st covers_def
  obtain u where u: "run lay code 9 s = Some u" "rip u = lay (Fn 4)" "rdi u = rdi s" "rsp u = sp - 0x40"
      "gs u = gs s" "df u = df s" "ld 8 (sp - 0x40) (mm u) = 0x17 + base"
      "keeps [(sp - 0x40, 0x40), (lay Saved_Rsp, 8)] (mm s) (mm u)"
    and slots: "ld 8 (lay Saved_Rsp) (mm u) = sp - 0x38" "ld 8 (sp - 0x38) (mm u) = rsi s" "ld 8 (sp - 0x30) (mm u) = r15 s"
      "ld 8 (sp - 0x28) (mm u) = r14 s" "ld 8 (sp - 0x20) (mm u) = r13 s" "ld 8 (sp - 0x18) (mm u) = r12 s"
      "ld 8 (sp - 0x10) (mm u) = rbx s" "ld 8 (sp - 8) (mm u) = rbp s" "ld 8 sp (mm u) = ld 8 sp (mm s)"
    using assms(2) by (simp add: ex sp_def [symmetric])
  have stays: "ld 8 a (mm t) = ld 8 a (mm u)" if "undisturbed lay sp (mm u) (mm t)"
    "inside a 8 (sp - 0x38) 0x40 \<or> a = lay Saved_Rsp" for a and t :: xstate
    using that by (auto simp: undisturbed_def intro!: keeps_ld intro: clear_within)
  have "call_ends lay code s t (rax t) 0"
    if t: "undisturbed lay sp (mm u) (mm t)" "rip t = 0x17 + base" "rsp t = sp - 0x38" for t
  proof -
    have "\<exists>k v. run lay code k t = Some v
        \<and> rip v = ld 8 sp (mm s) \<and> rsp v = sp + 8 \<and> callee_saved v = callee_saved s \<and> rax v = rax t
        \<and> ld 8 (rsi s) (mm v) = 0 \<and> df v = df t \<and> gs v = gs t \<and> keeps [(rsi s, 8)] (mm t) (mm v)"
      using t(2,3) by (intro exI [of _ 9]) (simp add: ex stays [OF t(1), simplified inside_offsets] slots)
    then show ?thesis by (auto simp: call_ends_def sp_def intro: reaches_run)
  qed
  moreover have "call_ends lay code s t 0 1" if t: "undisturbed lay sp (mm u) (mm t)" "rip t = 0x2A + base" for t
  proof -
    have "\<exists>k v. run lay code k t = Some v
        \<and> rip v = ld 8 sp (mm s) \<and> rsp v = sp + 8 \<and> callee_saved v = callee_saved s \<and> rax v = 0
        \<and> ld 8 (rsi s) (mm v) = 1 \<and> \<not> df v \<and> gs v = gs t \<and> keeps [(rsi s, 8)] (mm t) (mm v)"
      using t(2) by (intro exI [of _ 13]) (simp add: ex stays [OF t(1), simplified inside_offsets] slots)
    then show ?thesis by (auto simp: call_ends_def sp_def intro: reaches_run)
  qed
  moreover have "reaches lay code s u" by (rule reaches_run [OF u(1)])
  ultimately show ?thesis using u unfolding sp_def by (intro exI [of _ u]) auto
qed

section \<open>Witness\<close>

definition call_layout :: "symbol \<Rightarrow> u64" where
  "call_layout y = (case y of Saved_Rsp \<Rightarrow> 0x7000 | Fn k \<Rightarrow> 0x1000 * of_nat k | _ \<Rightarrow> 0)"

lemma call_survives_witness:
  \<comment> \<open>a fault at once, with a stack pointer and frame base that are lost\<close>
  "\<exists>u v. let s = (at_rest (\<lambda>_. 0))\<lparr>rsp := 0x8000, rsi := 0x9000, rbx := 3, r15 := 4\<rparr>
    in reaches call_layout (load_at 0 sdc_rbx_call_code) s u \<and> rip u = 0x4000
    \<and> reaches call_layout (load_at 0 sdc_rbx_call_code) (u\<lparr>rsp := 1, rbx := 2, df := True, rip := 0x2A\<rparr>) v
    \<and> rsp v = 0x8008 \<and> rbx v = 3 \<and> r15 v = 4 \<and> rax v = 0 \<and> ld 8 0x9000 (mm v) = 1 \<and> \<not> df v"
proof -
  let ?s = "(at_rest (\<lambda>_. 0))\<lparr>rsp := 0x8000, rsi := 0x9000, rbx := 3, r15 := 4\<rparr>" and ?c = "load_at 0 sdc_rbx_call_code"
  have "placed ?c 0 sdc_rbx_call_code" by (rule placed_load_at) (simp add: sdc_rbx_call_code_def)
  then obtain u where u: "reaches call_layout ?c ?s u" "rip u = 0x4000"
    and later: "\<And>t. undisturbed call_layout 0x8000 (mm u) (mm t) \<Longrightarrow> rip t = 0x2A \<Longrightarrow> call_ends call_layout ?c ?s t 0 1"
    using call_survives [of ?c 0 ?s call_layout] by (auto simp: at_rest_def call_layout_def apart_def)
  let ?t = "u\<lparr>rsp := 1, rbx := 2, df := True, rip := 0x2A\<rparr>"
  have "undisturbed call_layout 0x8000 (mm u) (mm ?t)"
    unfolding undisturbed_def by (intro exI [of _ "[]"]) (simp add: keeps_refl clear_def)
  from later [OF this] obtain v where "reaches call_layout ?c ?t v" "rsp v = 0x8008" "callee_saved v = callee_saved ?s"
      "rax v = 0" "ld 8 0x9000 (mm v) = 1" "\<not> df v"
    by (auto simp: call_ends_def at_rest_def)
  with u show ?thesis by (intro exI [of _ u] exI [of _ v]) (simp add: callee_saved_def at_rest_def)
qed

end
