(* ===== verification/Payload_Shadow.thy ===== *)
theory Payload_Shadow
  imports Payload
begin

text \<open>
  \<open>asan::PoisonShadow\<close> (\<open>sdc_rbx_fn_3\<close>): it checks the ends of the range and jumps to the memset that
  \<open>sdc_rbx_d_real_memset\<close> holds, for the shadow of the range.
\<close>

section \<open>The listing\<close>

definition poison_shadow_code :: "symbol listing" where
  "poison_shadow_code = [
    (0, Endbr64, 4),
    (4, Push RBP, 1),
    (5, Push R15, 2),
    (7, Push R14, 2),
    (9, Push R13, 2),
    (0xB, Push R12, 2),
    (0xD, Push RBX, 1),
    (0xE, Push RAX, 1),
    (0xF, Test (Reg W32 RDX) (Reg W32 RDX), 2),
    (0x11, J CC_E 0xF, 2),
    (0x13, Mov (Rip W8 D_Can_Poison 0) (Reg W32 RAX), 7),
    (0x1A, Test (Reg W8 RAX) (Reg W8 RAX), 2),
    (0x1C, J CC_E 0xC3, 6),
    (0x22, Test (Imm 7) (Reg W8 RDI), 4),
    (0x26, J CC_NE 0x335, 6),
    (0x2C, Cmp (Imm 0x7FFF8000) (Reg W64 RDI), 7),
    (0x33, J CC_B 0xE2, 6),
    (0x39, Lea (Rip W64 D_Mid_Beg 0) (Reg W64 RAX), 7),
    (0x40, Mov (At W64 0 RAX) (Reg W64 R9), 3),
    (0x43, Lea (At W64 (- 0x1) R9) (Reg W64 R8), 4),
    (0x47, Cmp (Reg W64 RDI) (Reg W64 R8), 3),
    (0x4A, Set CC_B (Reg W8 RAX), 3),
    (0x4D, Lea (Rip W64 D_Mid_End 0) (Reg W64 RCX), 7),
    (0x54, Mov (At W64 0 RCX) (Reg W64 RCX), 3),
    (0x57, Cmp (Reg W64 RCX) (Reg W64 RDI), 3),
    (0x5A, Set CC_BE (Reg W8 R10), 4),
    (0x5E, Test (Reg W8 R10) (Reg W8 RAX), 3),
    (0x61, J CC_NE 0xB4, 6),
    (0x67, Lea (Rip W64 D_High_End 0) (Reg W64 RAX), 7),
    (0x6E, Mov (At W64 0 RAX) (Reg W64 R10), 3),
    (0x71, Mov (Reg W64 R10) (Reg W64 RAX), 3),
    (0x74, Shr 3 (Reg W64 RAX), 4),
    (0x78, Alu Add_op (Imm 0x7FFF8001) (Reg W64 RAX), 6),
    (0x7E, Cmp (Reg W64 RAX) (Reg W64 RDI), 3),
    (0x81, Set CC_AE (Reg W8 R11), 4),
    (0x85, Cmp (Reg W64 R10) (Reg W64 RDI), 3),
    (0x88, Set CC_BE (Reg W8 R10), 4),
    (0x8C, Test (Reg W8 R11) (Reg W8 R10), 3),
    (0x8F, J CC_NE 0x86, 6),
    (0x95, Lea (Rip W64 D_Dummy 0) (Reg W64 R10), 7),
    (0x9C, Cmp (Imm 0) (At W8 0x4E R10), 5),
    (0xA1, J CC_NE 0x26D, 6),
    (0xA7, Test (Reg W64 R9) (Reg W64 R9), 3),
    (0xAA, J CC_E 0x48, 2),
    (0xAC, Shr 3 (Reg W64 R9), 4),
    (0xB0, Alu Add_op (Imm 0x7FFF7FFF) (Reg W64 R9), 7),
    (0xB7, Cmp (Reg W64 R9) (Reg W64 RDI), 3),
    (0xBA, J CC_BE 0x241, 6),
    (0xC0, Cmp (Reg W64 RDI) (Reg W64 R8), 3),
    (0xC3, J CC_B 0x13, 2),
    (0xC5, Mov (Reg W64 RCX) (Reg W64 R8), 3),
    (0xC8, Shr 3 (Reg W64 R8), 4),
    (0xCC, Alu Add_op (Imm 0x7FFF8001) (Reg W64 R8), 7),
    (0xD3, Cmp (Reg W64 RDI) (Reg W64 R8), 3),
    (0xD6, J CC_BE 0x43, 2),
    (0xD8, Inc (Reg W64 RCX), 3),
    (0xDB, Cmp (Reg W64 RDI) (Reg W64 RCX), 3),
    (0xDE, J CC_BE 0x28, 2),
    (0xE0, Jmp 0x22F, 5),
    (0xE5, Alu Add_op (Imm 8) (Reg W64 RSP), 4),
    (0xE9, Pop RBX, 1),
    (0xEA, Pop R12, 2),
    (0xEC, Pop R13, 2),
    (0xEE, Pop R14, 2),
    (0xF0, Pop R15, 2),
    (0xF2, Pop RBP, 1),
    (0xF3, Ret, 1),
    (0xF4, Mov (Reg W64 RDI) (Reg W64 RCX), 3),
    (0xF7, Shr 12 (Reg W64 RCX), 4),
    (0xFB, Cmp (Imm 0x8FFF7) (Reg W64 RCX), 7),
    (0x102, J CC_B 0x20C, 6),
    (0x108, Shr 3 (Reg W64 RAX), 4),
    (0x10C, Alu Add_op (Imm 0x7FFF7FFF) (Reg W64 RAX), 6),
    (0x112, Cmp (Reg W64 RAX) (Reg W64 RDI), 3),
    (0x115, J CC_A 0x1F9, 6),
    (0x11B, Test (Imm 7) (Reg W8 RSI), 4),
    (0x11F, J CC_NE 0x259, 6),
    (0x125, Lea (Idx W64 0 RDI RSI) (Reg W64 RBX), 4),
    (0x129, Alu Add_op (Imm (- 0x8)) (Reg W64 RBX), 4),
    (0x12D, Cmp (Imm 0x7FFF8000) (Reg W64 RBX), 7),
    (0x134, J CC_B 0xCF, 6),
    (0x13A, Lea (Rip W64 D_Mid_Beg 0) (Reg W64 RAX), 7),
    (0x141, Mov (At W64 0 RAX) (Reg W64 R8), 3),
    (0x144, Lea (At W64 (- 0x1) R8) (Reg W64 RSI), 4),
    (0x148, Cmp (Reg W64 RBX) (Reg W64 RSI), 3),
    (0x14B, Set CC_B (Reg W8 RAX), 3),
    (0x14E, Lea (Rip W64 D_Mid_End 0) (Reg W64 RCX), 7),
    (0x155, Mov (At W64 0 RCX) (Reg W64 RCX), 3),
    (0x158, Cmp (Reg W64 RCX) (Reg W64 RBX), 3),
    (0x15B, Set CC_BE (Reg W8 R9), 4),
    (0x15F, Test (Reg W8 R9) (Reg W8 RAX), 3),
    (0x162, J CC_NE 0xA1, 6),
    (0x168, Lea (Rip W64 D_High_End 0) (Reg W64 RAX), 7),
    (0x16F, Mov (At W64 0 RAX) (Reg W64 R9), 3),
    (0x172, Mov (Reg W64 R9) (Reg W64 RAX), 3),
    (0x175, Shr 3 (Reg W64 RAX), 4),
    (0x179, Alu Add_op (Imm 0x7FFF8001) (Reg W64 RAX), 6),
    (0x17F, Cmp (Reg W64 RAX) (Reg W64 RBX), 3),
    (0x182, Set CC_AE (Reg W8 R10), 4),
    (0x186, Cmp (Reg W64 R9) (Reg W64 RBX), 3),
    (0x189, Set CC_BE (Reg W8 R9), 4),
    (0x18D, Test (Reg W8 R10) (Reg W8 R9), 3),
    (0x190, J CC_NE 0x77, 2),
    (0x192, Lea (Rip W64 D_Dummy 0) (Reg W64 R9), 7),
    (0x199, Cmp (Imm 0) (At W8 0x4E R9), 5),
    (0x19E, J CC_NE 0x1A0, 6),
    (0x1A4, Test (Reg W64 R8) (Reg W64 R8), 3),
    (0x1A7, J CC_E 0x39, 2),
    (0x1A9, Shr 3 (Reg W64 R8), 4),
    (0x1AD, Alu Add_op (Imm 0x7FFF7FFF) (Reg W64 R8), 7),
    (0x1B4, Cmp (Reg W64 R8) (Reg W64 RBX), 3),
    (0x1B7, J CC_BE 0x174, 6),
    (0x1BD, Cmp (Reg W64 RBX) (Reg W64 RSI), 3),
    (0x1C0, J CC_B 0x13, 2),
    (0x1C2, Mov (Reg W64 RCX) (Reg W64 RSI), 3),
    (0x1C5, Shr 3 (Reg W64 RSI), 4),
    (0x1C9, Alu Add_op (Imm 0x7FFF8001) (Reg W64 RSI), 7),
    (0x1D0, Cmp (Reg W64 RBX) (Reg W64 RSI), 3),
    (0x1D3, J CC_BE 0x34, 2),
    (0x1D5, Inc (Reg W64 RCX), 3),
    (0x1D8, Cmp (Reg W64 RBX) (Reg W64 RCX), 3),
    (0x1DB, J CC_BE 0x19, 2),
    (0x1DD, Jmp 0x162, 5),
    (0x1E2, Mov (Reg W64 RBX) (Reg W64 RCX), 3),
    (0x1E5, Shr 12 (Reg W64 RCX), 4),
    (0x1E9, Cmp (Imm 0x8FFF7) (Reg W64 RCX), 7),
    (0x1F0, J CC_B 0x14E, 6),
    (0x1F6, Shr 3 (Reg W64 RAX), 4),
    (0x1FA, Alu Add_op (Imm 0x7FFF7FFF) (Reg W64 RAX), 6),
    (0x200, Cmp (Reg W64 RAX) (Reg W64 RBX), 3),
    (0x203, J CC_A 0x13B, 6),
    (0x209, Lea (Rip W64 D_Real_Memset 0) (Reg W64 RBP), 7),
    (0x210, Mov (At W64 0 RBP) (Reg W64 RAX), 4),
    (0x214, Test (Reg W64 RAX) (Reg W64 RAX), 3),
    (0x217, J CC_E 0x17E, 6),
    (0x21D, Shr 3 (Reg W64 RDI), 4),
    (0x221, Lea (At W64 0x7FFF8000 RDI) (Reg W64 R14), 7),
    (0x228, Shr 3 (Reg W64 RBX), 4),
    (0x22C, Alu Add_op (Imm 0x7FFF8001) (Reg W64 RBX), 7),
    (0x233, Mov (Reg W64 RBX) (Reg W64 R12), 3),
    (0x236, Alu Sub_op (Reg W64 R14) (Reg W64 R12), 3),
    (0x239, Test (Reg W8 RDX) (Reg W8 RDX), 2),
    (0x23B, J CC_NE 0x9C, 6),
    (0x241, Lea (Rip W64 D_Dummy 0) (Reg W64 RCX), 7),
    (0x248, Cmp (At W64 0x78 RCX) (Reg W64 R12), 4),
    (0x24C, J CC_B 0x8B, 6),
    (0x252, Lea (Rip W64 D_Dummy 0) (Reg W64 R13), 7),
    (0x259, Mov (At W64 0 R13) (Reg W64 R15), 4),
    (0x25D, Test (Reg W64 R15) (Reg W64 R15), 3),
    (0x260, J CC_NE 0x12, 2),
    (0x262, Mov (Reg W64 RDI) (Reg W64 R15), 3),
    (0x265, Call (Trap 11), 5),
    (0x26A, Mov (Reg W64 R15) (Reg W64 RDI), 3),
    (0x26D, Mov (Reg W64 RAX) (Reg W64 R15), 3),
    (0x270, Mov (Reg W64 RAX) (At W64 0 R13), 4),
    (0x274, Lea (At W64 (- 0x1) R15) (Reg W64 RAX), 4),
    (0x278, Test (Reg W64 RAX) (Reg W64 R15), 3),
    (0x27B, J CC_NE 0x137, 6),
    (0x281, Lea (Idx W64 0 RDI R15) (Reg W64 R13), 4),
    (0x285, Alu Add_op (Imm 0x7FFF7FFF) (Reg W64 R13), 7),
    (0x28C, Neg (Reg W64 R15), 3),
    (0x28F, Alu And_op (Reg W64 R15) (Reg W64 R13), 3),
    (0x292, Alu And_op (Reg W64 RBX) (Reg W64 R15), 3),
    (0x295, Cmp (Reg W64 R15) (Reg W64 R13), 3),
    (0x298, J CC_AE 0x4B, 2),
    (0x29A, Mov (Reg W64 R13) (Reg W64 RDX), 3),
    (0x29D, Alu Sub_op (Reg W64 R14) (Reg W64 RDX), 3),
    (0x2A0, J CC_E 8, 2),
    (0x2A2, Mov (Reg W64 R14) (Reg W64 RDI), 3),
    (0x2A5, Alu Xor_op (Reg W32 RSI) (Reg W32 RSI), 2),
    (0x2A7, Call_Ind (At W64 0 RBP), 3),
    (0x2AA, Alu Sub_op (Reg W64 R15) (Reg W64 RBX), 3),
    (0x2AD, J CC_E 0xB, 2),
    (0x2AF, Mov (Reg W64 R15) (Reg W64 RDI), 3),
    (0x2B2, Alu Xor_op (Reg W32 RSI) (Reg W32 RSI), 2),
    (0x2B4, Mov (Reg W64 RBX) (Reg W64 RDX), 3),
    (0x2B7, Call_Ind (At W64 0 RBP), 3),
    (0x2BA, Dec (Reg W64 R15), 3),
    (0x2BD, Mov (Reg W64 R13) (Reg W64 RDI), 3),
    (0x2C0, Mov (Reg W64 R15) (Reg W64 RSI), 3),
    (0x2C3, Alu Xor_op (Reg W32 RDX) (Reg W32 RDX), 2),
    (0x2C5, Mov (Imm 1) (Reg W32 RCX), 5),
    (0x2CA, Alu Add_op (Imm 8) (Reg W64 RSP), 4),
    (0x2CE, Pop RBX, 1),
    (0x2CF, Pop R12, 2),
    (0x2D1, Pop R13, 2),
    (0x2D3, Pop R14, 2),
    (0x2D5, Pop R15, 2),
    (0x2D7, Pop RBP, 1),
    (0x2D8, Jmp_Sym (Trap 14), 5),
    (0x2DD, Mov (Reg W8 RDX) (Reg W32 RSI), 3),
    (0x2E0, Mov (Reg W64 R14) (Reg W64 RDI), 3),
    (0x2E3, Jmp 9, 2),
    (0x2E5, Mov (At W64 0 RBP) (Reg W64 RAX), 4),
    (0x2E9, Mov (Reg W64 R14) (Reg W64 RDI), 3),
    (0x2EC, Alu Xor_op (Reg W32 RSI) (Reg W32 RSI), 2),
    (0x2EE, Mov (Reg W64 R12) (Reg W64 RDX), 3),
    (0x2F1, Alu Add_op (Imm 8) (Reg W64 RSP), 4),
    (0x2F5, Pop RBX, 1),
    (0x2F6, Pop R12, 2),
    (0x2F8, Pop R13, 2),
    (0x2FA, Pop R14, 2),
    (0x2FC, Pop R15, 2),
    (0x2FE, Pop RBP, 1),
    (0x2FF, Jmp_Ind (Reg W64 RAX), 2),
    (0x301, Mov (Reg W64 RDI) (Reg W64 RAX), 3),
    (0x304, Shr 12 (Reg W64 RAX), 4),
    (0x308, Cmp (Imm 0x8FFF6) (Reg W64 RAX), 6),
    (0x30E, J CC_A (- 0x1F9), 6),
    (0x314, Lea (Rip W64 D_Dummy 0) (Reg W64 RDI), 7),
    (0x31B, Lea (Rip W64 D_Dummy 0) (Reg W64 RDX), 7),
    (0x322, Mov (Imm 0x56) (Reg W32 RSI), 5),
    (0x327, Alu Xor_op (Reg W32 RCX) (Reg W32 RCX), 2),
    (0x329, Alu Xor_op (Reg W32 R8) (Reg W32 R8), 3),
    (0x32C, Call (Trap 13), 5),
    (0x331, Mov (Reg W64 RBX) (Reg W64 RAX), 3),
    (0x334, Shr 12 (Reg W64 RAX), 4),
    (0x338, Cmp (Imm 0x8FFF6) (Reg W64 RAX), 6),
    (0x33E, J CC_A (- 0x13B), 6),
    (0x344, Lea (Rip W64 D_Dummy 0) (Reg W64 RDI), 7),
    (0x34B, Lea (Rip W64 D_Dummy 0) (Reg W64 RDX), 7),
    (0x352, Mov (Imm 0x58) (Reg W32 RSI), 5),
    (0x357, Alu Xor_op (Reg W32 RCX) (Reg W32 RCX), 2),
    (0x359, Alu Xor_op (Reg W32 R8) (Reg W32 R8), 3),
    (0x35C, Call (Trap 13), 5),
    (0x361, Lea (Rip W64 D_Dummy 0) (Reg W64 RDI), 7),
    (0x368, Lea (Rip W64 D_Dummy 0) (Reg W64 RDX), 7),
    (0x36F, Mov (Imm 0x55) (Reg W32 RSI), 5),
    (0x374, Alu Xor_op (Reg W32 RCX) (Reg W32 RCX), 2),
    (0x376, Alu Xor_op (Reg W32 R8) (Reg W32 R8), 3),
    (0x379, Call (Trap 13), 5),
    (0x37E, Lea (Rip W64 D_Dummy 0) (Reg W64 RDI), 7),
    (0x385, Lea (Rip W64 D_Dummy 0) (Reg W64 RDX), 7),
    (0x38C, Mov (Imm 0x57) (Reg W32 RSI), 5),
    (0x391, Alu Xor_op (Reg W32 RCX) (Reg W32 RCX), 2),
    (0x393, Alu Xor_op (Reg W32 R8) (Reg W32 R8), 3),
    (0x396, Call (Trap 13), 5),
    (0x39B, Lea (Rip W64 D_Dummy 0) (Reg W64 RDI), 7),
    (0x3A2, Lea (Rip W64 D_Dummy 0) (Reg W64 RDX), 7),
    (0x3A9, Mov (Imm 0x59) (Reg W32 RSI), 5),
    (0x3AE, Alu Xor_op (Reg W32 RCX) (Reg W32 RCX), 2),
    (0x3B0, Alu Xor_op (Reg W32 R8) (Reg W32 R8), 3),
    (0x3B3, Call (Trap 13), 5),
    (0x3B8, Lea (Rip W64 D_Dummy 0) (Reg W64 RDI), 7),
    (0x3BF, Call (Trap 10), 5),
    (0x3C4, Call (Trap 12), 5)]"

section \<open>Ranges in the arena\<close>

text \<open>What the checks ask of an address: in the high part of the application's memory, and aligned.\<close>

definition high_memory :: "u64 \<Rightarrow> bool" where
  "high_memory a \<longleftrightarrow> 0x10007FFF8000 \<le> a \<and> a < 0x00007FFFFFFFFFFF"

lemma high_memory_checks:
  assumes "high_memory a"
  shows "\<not> a < 0x7FFF8000" "\<not> a < 0x10007FFF8000" "a < 0x00007FFFFFFFFFFF" "\<not> - 1 < a" "a \<noteq> 0"
proof -
  have a: "0x10007FFF8000 \<le> a" "a < 0x00007FFFFFFFFFFF" using assms by (simp_all add: high_memory_def)
  show "\<not> a < 0x7FFF8000" using a(1) by unat_arith
  show "\<not> a < 0x10007FFF8000" using a(1) by unat_arith
  show "a < 0x00007FFFFFFFFFFF" by (rule a(2))
  show "\<not> - 1 < a" using word_n1_ge [of a] by (simp add: not_less)
  show "a \<noteq> 0" using a(1) by auto
qed

lemma poison_shadow_jumps:
  assumes p: "placed code base poison_shadow_code" and "rip s = base" and data: "data_block lay data" "data_values lay (mm s)"
    and sep: "apart data 0x140 (rsp s - 0x38) 0x38"
    and range: "high_memory (rdi s)" "high_memory (rdi s + rsi s - 8)" "rdi s AND 7 = 0" "rsi s AND 7 = 0"
    and byte: "take_bit 8 (rdx s) \<noteq> 0" and memset: "ld 8 (lay D_Real_Memset) (mm s) \<noteq> 0"
  shows "\<exists>t. reaches lay code s t \<and> rip t = ld 8 (lay D_Real_Memset) (mm s) \<and> rsp t = rsp s \<and> saved t = saved s
    \<and> rdi t = shadow (rdi s) \<and> rsi t = take_bit 8 (rdx s)
    \<and> rdx t = drop_bit 3 (rdi s + rsi s - 8) + 1 - drop_bit 3 (rdi s)
    \<and> keeps [(rsp s - 0x38, 0x38)] (mm s) (mm t)"
proof -
  note fetch = p [unfolded placed_def poison_shadow_code_def list.pred_inject split_conv add_0_left]
  note sep = apart_within [OF sep]
  have "take_bit 32 (rdx s) \<noteq> 0"
  proof
    assume z: "take_bit 32 (rdx s) = 0"
    have "take_bit 8 (rdx s) = take_bit 8 (take_bit 32 (rdx s))" by simp
    with byte show False unfolding z by simp
  qed
  then have "\<exists>k t. run lay code k s = Some t \<and> rip t = ld 8 (lay D_Real_Memset) (mm s) \<and> rsp t = rsp s \<and> saved t = saved s
    \<and> rdi t = shadow (rdi s) \<and> rsi t = take_bit 8 (rdx s)
    \<and> rdx t = drop_bit 3 (rdi s + rsi s - 8) + 1 - drop_bit 3 (rdi s)
    \<and> keeps [(rsp s - 0x38, 0x38)] (mm s) (mm t)"
    using assms(2) data range byte memset
    by (intro exI [of _ 91]) (simp add: x86 fetch saved_simps sep data_block_def data_values_def high_memory_checks
      take_bit_8_and_7 shadow_def keeps_refl keeps_st covers_def)
  then show ?thesis by (blast intro: reaches_run)
qed

end
