(* ===== verification/Payload_Frames.thy ===== *)
theory Payload_Frames
  imports Payload_Shadow
begin

text \<open>
  The fake stack of the ASan runtime as \<open>__asan_stack_malloc_0\<close>, \<open>_1\<close> and \<open>_2\<close> use it: frames of 64,
  128 and 256 bytes, a flag byte for each, and for each class the number of the frame to try next.
\<close>

section \<open>Listings\<close>

definition asan_stack_malloc_0_code :: "symbol listing" where
  "asan_stack_malloc_0_code = [
    (0, Endbr64, 4),
    (4, Push RBP, 1),
    (5, Mov (Reg W64 RSP) (Reg W64 RBP), 3),
    (8, Push R15, 2),
    (0xA, Push R14, 2),
    (0xC, Push RBX, 1),
    (0xD, Push RAX, 1),
    (0xE, Mov (Reg W64 RDI) (Reg W64 RBX), 3),
    (0x11, Mov (Gs W64 0x28) (Reg W64 RAX), 12),
    (0x1D, Mov (At W64 (- 0x48) RAX) (Reg W64 R14), 7),
    (0x24, Test (Reg W64 R14) (Reg W64 R14), 3),
    (0x27, J CC_E 0x70, 2),
    (0x29, Mov (At W64 0x58 R14) (Reg W64 R15), 4),
    (0x2D, Cmp (Imm 1) (At W8 0x60 R14), 5),
    (0x32, J CC_NE 0xB, 2),
    (0x34, Mov (Reg W64 R14) (Reg W64 RDI), 3),
    (0x37, Mov (Reg W64 RBP) (Reg W64 RSI), 3),
    (0x3A, Call (Trap 2), 5),
    (0x3F, Lea (At W64 (- 0x6) R15) (Reg W64 RCX), 4),
    (0x43, Mov (Imm 1) (Reg W32 RSI), 5),
    (0x48, Shl_Cl (Reg W64 RSI), 3),
    (0x4B, Test (Reg W32 RSI) (Reg W32 RSI), 2),
    (0x4D, J CC_LE 0x6C, 2),
    (0x4F, Lea (At W64 0x1000 R14) (Reg W64 RAX), 7),
    (0x56, Mov (Imm 0x8FFF6FFF) (Reg W32 RDX), 5),
    (0x5B, Mov (Imm (- 0x1)) (Reg W64 RDI), 7),
    (0x62, Shl_Cl (Reg W64 RDI), 3),
    (0x65, Not_op (Reg W64 RDI), 3),
    (0x68, Mov (At W64 0 R14) (Reg W64 RCX), 3),
    (0x6B, Mov (Reg W32 RSI) (Reg W32 R8), 3),
    (0x6E, Dec (Reg W32 R8), 3),
    (0x71, Lea (Idx W64 0 RCX R8) (Reg W64 R9), 4),
    (0x75, Inc (Reg W64 R9), 3),
    (0x78, Nop, 8),
    (0x80, Mov (Reg W64 RCX) (Reg W64 R8), 3),
    (0x83, Alu And_op (Reg W64 RDI) (Reg W64 R8), 3),
    (0x86, Cmp (Imm 0) (Idx W8 0 RAX R8), 5),
    (0x8B, J CC_E 0x35, 2),
    (0x8D, Inc (Reg W64 RCX), 3),
    (0x90, Dec (Reg W32 RSI), 2),
    (0x92, J CC_NE (- 0x14), 2),
    (0x94, Mov (Reg W64 R9) (At W64 0 R14), 3),
    (0x97, Jmp 0x22, 2),
    (0x99, Lea (Rip W64 D_Detect_Uar 0) (Reg W64 RAX), 7),
    (0xA0, Cmp (Imm 0) (At W32 0 RAX), 3),
    (0xA3, J CC_E 0x16, 2),
    (0xA5, Call (Trap 8), 5),
    (0xAA, Test (Reg W64 RAX) (Reg W64 RAX), 3),
    (0xAD, J CC_E 0xC, 2),
    (0xAF, Mov (At W8 0x28 RAX) (Reg W32 RCX), 4),
    (0xB3, Test (Reg W8 RCX) (Reg W8 RCX), 2),
    (0xB5, J CC_E 0x102, 6),
    (0xBB, Alu Xor_op (Reg W32 RAX) (Reg W32 RAX), 2),
    (0xBD, Jmp 0x15F, 5),
    (0xC2, Lea (Idx W64 0 RAX R8) (Reg W64 RSI), 4),
    (0xC6, Inc (Reg W64 RCX), 3),
    (0xC9, Mov (Reg W64 RCX) (At W64 0 R14), 3),
    (0xCC, Alu Add_op (Imm 0xFB) (Reg W8 R15), 4),
    (0xD0, Mov (Imm 1) (Reg W32 RDI), 5),
    (0xD5, Mov (Reg W32 R15) (Reg W32 RCX), 3),
    (0xD8, Shl_Cl (Reg W64 RDI), 3),
    (0xDB, Mov (Imm 1) (Idx W8 0x1000 R14 R8), 9),
    (0xE4, Alu Add_op (Reg W64 RAX) (Reg W64 RDI), 3),
    (0xE7, Shl 6 (Reg W64 R8), 4),
    (0xEB, Lea (Idx W64 0 RDI R8) (Reg W64 RAX), 4),
    (0xEF, Mov (Reg W64 RBP) (Idx W64 0x18 R8 RDI), 5),
    (0xF4, Mov (Reg W64 RSI) (Idx W64 0x38 R8 RDI), 5),
    (0xF9, Lea (Idx W64 0 RBX RAX) (Reg W64 RDI), 4),
    (0xFD, Test (Imm 7) (Reg W8 RDI), 4),
    (0x101, J CC_NE 0x147, 6),
    (0x107, Cmp (Imm 0x7FFF8000) (Reg W64 RAX), 6),
    (0x10D, J CC_B 0xE2, 6),
    (0x113, Lea (Rip W64 D_Mid_Beg 0) (Reg W64 RCX), 7),
    (0x11A, Mov (At W64 0 RCX) (Reg W64 R9), 3),
    (0x11D, Lea (At W64 (- 0x1) R9) (Reg W64 R8), 4),
    (0x121, Cmp (Reg W64 RAX) (Reg W64 R8), 3),
    (0x124, Set CC_B (Reg W8 RCX), 3),
    (0x127, Lea (Rip W64 D_Mid_End 0) (Reg W64 RSI), 7),
    (0x12E, Mov (At W64 0 RSI) (Reg W64 RSI), 3),
    (0x131, Cmp (Reg W64 RAX) (Reg W64 RSI), 3),
    (0x134, Set CC_AE (Reg W8 R10), 4),
    (0x138, Test (Reg W8 R10) (Reg W8 RCX), 3),
    (0x13B, J CC_NE 0xB4, 6),
    (0x141, Lea (Rip W64 D_High_End 0) (Reg W64 RCX), 7),
    (0x148, Mov (At W64 0 RCX) (Reg W64 R10), 3),
    (0x14B, Mov (Reg W64 R10) (Reg W64 RCX), 3),
    (0x14E, Shr 3 (Reg W64 RCX), 4),
    (0x152, Alu Add_op (Imm 0x7FFF8001) (Reg W64 RCX), 7),
    (0x159, Cmp (Reg W64 RAX) (Reg W64 RCX), 3),
    (0x15C, Set CC_BE (Reg W8 R11), 4),
    (0x160, Cmp (Reg W64 RAX) (Reg W64 R10), 3),
    (0x163, Set CC_AE (Reg W8 R10), 4),
    (0x167, Test (Reg W8 R11) (Reg W8 R10), 3),
    (0x16A, J CC_NE 0x85, 6),
    (0x170, Lea (Rip W64 D_Dummy 0) (Reg W64 R10), 7),
    (0x177, Cmp (Imm 0) (At W8 0x4E R10), 5),
    (0x17C, J CC_NE 0xAF, 6),
    (0x182, Test (Reg W64 R9) (Reg W64 R9), 3),
    (0x185, J CC_E 0x59, 2),
    (0x187, Shr 3 (Reg W64 R9), 4),
    (0x18B, Alu Add_op (Imm 0x7FFF7FFF) (Reg W64 R9), 7),
    (0x192, Cmp (Reg W64 RAX) (Reg W64 R9), 3),
    (0x195, J CC_AE 0x91, 6),
    (0x19B, Cmp (Reg W64 RAX) (Reg W64 R8), 3),
    (0x19E, J CC_B 0x13, 2),
    (0x1A0, Mov (Reg W64 RSI) (Reg W64 RDX), 3),
    (0x1A3, Shr 3 (Reg W64 RDX), 4),
    (0x1A7, Alu Add_op (Imm 0x7FFF8001) (Reg W64 RDX), 7),
    (0x1AE, Cmp (Reg W64 RAX) (Reg W64 RDX), 3),
    (0x1B1, J CC_BE 0x42, 2),
    (0x1B3, Inc (Reg W64 RSI), 3),
    (0x1B6, Cmp (Reg W64 RAX) (Reg W64 RSI), 3),
    (0x1B9, J CC_BE 0x2A, 2),
    (0x1BB, Jmp 0x74, 2),
    (0x1BD, Mov (At W64 0x48 RAX) (Reg W64 R14), 4),
    (0x1C1, Cmp (Imm 1) (Reg W64 R14), 4),
    (0x1C5, J CC_A 0xB, 2),
    (0x1C7, Mov (Reg W64 RAX) (Reg W64 RDI), 3),
    (0x1CA, Call (Trap 9), 5),
    (0x1CF, Mov (Reg W64 RAX) (Reg W64 R14), 3),
    (0x1D2, Test (Reg W64 R14) (Reg W64 R14), 3),
    (0x1D5, J CC_NE (- 0x1B2), 6),
    (0x1DB, Jmp (- 0x125), 5),
    (0x1E0, Cmp (Reg W64 RDX) (Reg W64 RAX), 3),
    (0x1E3, J CC_BE 0x4C, 2),
    (0x1E5, Shr 3 (Reg W64 RCX), 4),
    (0x1E9, Alu Add_op (Imm 0x7FFF7FFF) (Reg W64 RCX), 7),
    (0x1F0, Cmp (Reg W64 RAX) (Reg W64 RCX), 3),
    (0x1F3, J CC_B 0x3C, 2),
    (0x1F5, Mov (Reg W64 RAX) (Reg W64 RCX), 3),
    (0x1F8, Shr 3 (Reg W64 RCX), 4),
    (0x1FC, Mov (Imm 0) (At W64 0x7FFF8000 RCX), 11),
    (0x207, Alu Xor_op (Reg W32 RCX) (Reg W32 RCX), 2),
    (0x209, Mov (Imm 0x40) (Reg W32 RSI), 5),
    (0x20E, Alu Sub_op (Reg W64 RBX) (Reg W64 RSI), 3),
    (0x211, Mov (Imm 0xF3) (Reg W32 RDX), 5),
    (0x216, Mov (Reg W64 RAX) (Reg W64 RBX), 3),
    (0x219, Call (Fn 3), 5),
    (0x21E, Mov (Reg W64 RBX) (Reg W64 RAX), 3),
    (0x221, Alu Add_op (Imm 8) (Reg W64 RSP), 4),
    (0x225, Pop RBX, 1),
    (0x226, Pop R14, 2),
    (0x228, Pop R15, 2),
    (0x22A, Pop RBP, 1),
    (0x22B, Ret, 1),
    (0x22C, Cmp (Reg W64 RDX) (Reg W64 RAX), 3),
    (0x22F, J CC_A (- 0x3C), 2),
    (0x231, Lea (Rip W64 D_Dummy 0) (Reg W64 RDI), 7),
    (0x238, Lea (Rip W64 D_Dummy 0) (Reg W64 RDX), 7),
    (0x23F, Mov (Imm 0x177) (Reg W32 RSI), 5),
    (0x244, Alu Xor_op (Reg W32 RCX) (Reg W32 RCX), 2),
    (0x246, Alu Xor_op (Reg W32 R8) (Reg W32 R8), 3),
    (0x249, Call (Trap 13), 5),
    (0x24E, Lea (Rip W64 D_Dummy 0) (Reg W64 RDI), 7),
    (0x255, Lea (Rip W64 D_Dummy 0) (Reg W64 RDX), 7),
    (0x25C, Mov (Imm 0x1E) (Reg W32 RSI), 5),
    (0x261, Alu Xor_op (Reg W32 RCX) (Reg W32 RCX), 2),
    (0x263, Alu Xor_op (Reg W32 R8) (Reg W32 R8), 3),
    (0x266, Call (Trap 13), 5)]"

definition asan_stack_malloc_1_code :: "symbol listing" where
  "asan_stack_malloc_1_code = [
    (0, Endbr64, 4),
    (4, Push RBP, 1),
    (5, Mov (Reg W64 RSP) (Reg W64 RBP), 3),
    (8, Push R15, 2),
    (0xA, Push R14, 2),
    (0xC, Push RBX, 1),
    (0xD, Push RAX, 1),
    (0xE, Mov (Reg W64 RDI) (Reg W64 RBX), 3),
    (0x11, Mov (Gs W64 0x28) (Reg W64 RAX), 12),
    (0x1D, Mov (At W64 (- 0x48) RAX) (Reg W64 R14), 7),
    (0x24, Test (Reg W64 R14) (Reg W64 R14), 3),
    (0x27, J CC_E 0x8E, 6),
    (0x2D, Mov (At W64 0x58 R14) (Reg W64 R15), 4),
    (0x31, Cmp (Imm 1) (At W8 0x60 R14), 5),
    (0x36, J CC_NE 0xB, 2),
    (0x38, Mov (Reg W64 R14) (Reg W64 RDI), 3),
    (0x3B, Mov (Reg W64 RBP) (Reg W64 RSI), 3),
    (0x3E, Call (Trap 2), 5),
    (0x43, Lea (At W64 (- 0x7) R15) (Reg W64 RAX), 4),
    (0x47, Mov (Imm 1) (Reg W32 R8), 6),
    (0x4D, Mov (Reg W32 RAX) (Reg W32 RCX), 2),
    (0x4F, Shl_Cl (Reg W64 R8), 3),
    (0x52, Lea (At W64 (- 0xF) R15) (Reg W32 RCX), 4),
    (0x56, Mov (Imm 0x200) (Reg W32 RDX), 5),
    (0x5B, Shl_Cl (Reg W64 RDX), 3),
    (0x5E, Test (Reg W32 R8) (Reg W32 R8), 3),
    (0x61, J CC_LE 0x7A, 2),
    (0x63, Lea (At W64 0x1000 R14) (Reg W64 RDI), 7),
    (0x6A, Lea (Idx W64 0 R14 RDX) (Reg W64 RSI), 4),
    (0x6E, Alu Add_op (Imm 0x1000) (Reg W64 RSI), 7),
    (0x75, Mov (Imm 0x8FFF6FFF) (Reg W32 RDX), 5),
    (0x7A, Mov (Imm (- 0x1)) (Reg W64 R10), 7),
    (0x81, Mov (Reg W32 RAX) (Reg W32 RCX), 2),
    (0x83, Shl_Cl (Reg W64 R10), 3),
    (0x86, Not_op (Reg W64 R10), 3),
    (0x89, Mov (At W64 8 R14) (Reg W64 RAX), 4),
    (0x8D, Mov (Reg W32 R8) (Reg W32 RCX), 3),
    (0x90, Dec (Reg W32 RCX), 2),
    (0x92, Alu Add_op (Reg W64 RAX) (Reg W64 RCX), 3),
    (0x95, Inc (Reg W64 RCX), 3),
    (0x98, Nop, 8),
    (0xA0, Mov (Reg W64 RAX) (Reg W64 R9), 3),
    (0xA3, Alu And_op (Reg W64 R10) (Reg W64 R9), 3),
    (0xA6, Cmp (Imm 0) (Idx W8 0 RSI R9), 5),
    (0xAB, J CC_E 0x37, 2),
    (0xAD, Inc (Reg W64 RAX), 3),
    (0xB0, Dec (Reg W32 R8), 3),
    (0xB3, J CC_NE (- 0x15), 2),
    (0xB5, Mov (Reg W64 RCX) (At W64 8 R14), 4),
    (0xB9, Jmp 0x22, 2),
    (0xBB, Lea (Rip W64 D_Detect_Uar 0) (Reg W64 RAX), 7),
    (0xC2, Cmp (Imm 0) (At W32 0 RAX), 3),
    (0xC5, J CC_E 0x16, 2),
    (0xC7, Call (Trap 8), 5),
    (0xCC, Test (Reg W64 RAX) (Reg W64 RAX), 3),
    (0xCF, J CC_E 0xC, 2),
    (0xD1, Mov (At W8 0x28 RAX) (Reg W32 RCX), 4),
    (0xD5, Test (Reg W8 RCX) (Reg W8 RCX), 2),
    (0xD7, J CC_E 0x10A, 6),
    (0xDD, Alu Xor_op (Reg W32 RAX) (Reg W32 RAX), 2),
    (0xDF, Jmp 0x172, 5),
    (0xE4, Inc (Reg W64 RAX), 3),
    (0xE7, Mov (Reg W64 RAX) (At W64 8 R14), 4),
    (0xEB, Mov (Imm 1) (Idx W8 0 RSI R9), 5),
    (0xF0, Alu Add_op (Reg W64 R9) (Reg W64 RSI), 3),
    (0xF3, Lea (At W64 (- 0x5) R15) (Reg W32 RCX), 4),
    (0xF7, Mov (Imm 1) (Reg W32 R8), 6),
    (0xFD, Mov (Imm 1) (Reg W32 RAX), 5),
    (0x102, Shl_Cl (Reg W64 RAX), 3),
    (0x105, Mov (Reg W32 R15) (Reg W32 RCX), 3),
    (0x108, Shl_Cl (Reg W64 R8), 3),
    (0x10B, Alu Add_op (Reg W64 RAX) (Reg W64 RDI), 3),
    (0x10E, Alu Add_op (Reg W64 RDI) (Reg W64 R8), 3),
    (0x111, Shl 7 (Reg W64 R9), 4),
    (0x115, Lea (Idx W64 0 R8 R9) (Reg W64 RAX), 4),
    (0x119, Mov (Reg W64 RBP) (Idx W64 0x18 R9 R8), 5),
    (0x11E, Mov (Reg W64 RSI) (Idx W64 0x78 R9 R8), 5),
    (0x123, Lea (Idx W64 0 RBX RAX) (Reg W64 RDI), 4),
    (0x127, Test (Imm 7) (Reg W8 RDI), 4),
    (0x12B, J CC_NE 0x152, 6),
    (0x131, Cmp (Imm 0x7FFF8000) (Reg W64 RAX), 6),
    (0x137, J CC_B 0xE2, 6),
    (0x13D, Lea (Rip W64 D_Mid_Beg 0) (Reg W64 RCX), 7),
    (0x144, Mov (At W64 0 RCX) (Reg W64 R9), 3),
    (0x147, Lea (At W64 (- 0x1) R9) (Reg W64 R8), 4),
    (0x14B, Cmp (Reg W64 RAX) (Reg W64 R8), 3),
    (0x14E, Set CC_B (Reg W8 RCX), 3),
    (0x151, Lea (Rip W64 D_Mid_End 0) (Reg W64 RSI), 7),
    (0x158, Mov (At W64 0 RSI) (Reg W64 RSI), 3),
    (0x15B, Cmp (Reg W64 RAX) (Reg W64 RSI), 3),
    (0x15E, Set CC_AE (Reg W8 R10), 4),
    (0x162, Test (Reg W8 R10) (Reg W8 RCX), 3),
    (0x165, J CC_NE 0xB4, 6),
    (0x16B, Lea (Rip W64 D_High_End 0) (Reg W64 RCX), 7),
    (0x172, Mov (At W64 0 RCX) (Reg W64 R10), 3),
    (0x175, Mov (Reg W64 R10) (Reg W64 RCX), 3),
    (0x178, Shr 3 (Reg W64 RCX), 4),
    (0x17C, Alu Add_op (Imm 0x7FFF8001) (Reg W64 RCX), 7),
    (0x183, Cmp (Reg W64 RAX) (Reg W64 RCX), 3),
    (0x186, Set CC_BE (Reg W8 R11), 4),
    (0x18A, Cmp (Reg W64 RAX) (Reg W64 R10), 3),
    (0x18D, Set CC_AE (Reg W8 R10), 4),
    (0x191, Test (Reg W8 R11) (Reg W8 R10), 3),
    (0x194, J CC_NE 0x85, 6),
    (0x19A, Lea (Rip W64 D_Dummy 0) (Reg W64 R10), 7),
    (0x1A1, Cmp (Imm 0) (At W8 0x4E R10), 5),
    (0x1A6, J CC_NE 0xBA, 6),
    (0x1AC, Test (Reg W64 R9) (Reg W64 R9), 3),
    (0x1AF, J CC_E 0x59, 2),
    (0x1B1, Shr 3 (Reg W64 R9), 4),
    (0x1B5, Alu Add_op (Imm 0x7FFF7FFF) (Reg W64 R9), 7),
    (0x1BC, Cmp (Reg W64 RAX) (Reg W64 R9), 3),
    (0x1BF, J CC_AE 0x9C, 6),
    (0x1C5, Cmp (Reg W64 RAX) (Reg W64 R8), 3),
    (0x1C8, J CC_B 0x13, 2),
    (0x1CA, Mov (Reg W64 RSI) (Reg W64 RDX), 3),
    (0x1CD, Shr 3 (Reg W64 RDX), 4),
    (0x1D1, Alu Add_op (Imm 0x7FFF8001) (Reg W64 RDX), 7),
    (0x1D8, Cmp (Reg W64 RAX) (Reg W64 RDX), 3),
    (0x1DB, J CC_BE 0x42, 2),
    (0x1DD, Inc (Reg W64 RSI), 3),
    (0x1E0, Cmp (Reg W64 RAX) (Reg W64 RSI), 3),
    (0x1E3, J CC_BE 0x2A, 2),
    (0x1E5, Jmp 0x7F, 2),
    (0x1E7, Mov (At W64 0x48 RAX) (Reg W64 R14), 4),
    (0x1EB, Cmp (Imm 1) (Reg W64 R14), 4),
    (0x1EF, J CC_A 0xB, 2),
    (0x1F1, Mov (Reg W64 RAX) (Reg W64 RDI), 3),
    (0x1F4, Call (Trap 9), 5),
    (0x1F9, Mov (Reg W64 RAX) (Reg W64 R14), 3),
    (0x1FC, Test (Reg W64 R14) (Reg W64 R14), 3),
    (0x1FF, J CC_NE (- 0x1D8), 6),
    (0x205, Jmp (- 0x12D), 5),
    (0x20A, Cmp (Reg W64 RDX) (Reg W64 RAX), 3),
    (0x20D, J CC_BE 0x57, 2),
    (0x20F, Shr 3 (Reg W64 RCX), 4),
    (0x213, Alu Add_op (Imm 0x7FFF7FFF) (Reg W64 RCX), 7),
    (0x21A, Cmp (Reg W64 RAX) (Reg W64 RCX), 3),
    (0x21D, J CC_B 0x47, 2),
    (0x21F, Mov (Reg W64 RAX) (Reg W64 RCX), 3),
    (0x222, Shr 3 (Reg W64 RCX), 4),
    (0x226, Mov (Imm 0) (At W64 0x7FFF8000 RCX), 11),
    (0x231, Alu Xor_op (Reg W32 RDX) (Reg W32 RDX), 2),
    (0x233, Mov (Imm 0) (At W64 0x7FFF8008 RCX), 11),
    (0x23E, Mov (Imm 0x80) (Reg W32 RSI), 5),
    (0x243, Alu Sub_op (Reg W64 RBX) (Reg W64 RSI), 3),
    (0x246, Mov (Imm 0xF3) (Reg W32 RDX), 5),
    (0x24B, Mov (Reg W64 RAX) (Reg W64 RBX), 3),
    (0x24E, Call (Fn 3), 5),
    (0x253, Mov (Reg W64 RBX) (Reg W64 RAX), 3),
    (0x256, Alu Add_op (Imm 8) (Reg W64 RSP), 4),
    (0x25A, Pop RBX, 1),
    (0x25B, Pop R14, 2),
    (0x25D, Pop R15, 2),
    (0x25F, Pop RBP, 1),
    (0x260, Ret, 1),
    (0x261, Cmp (Reg W64 RDX) (Reg W64 RAX), 3),
    (0x264, J CC_A (- 0x47), 2),
    (0x266, Lea (Rip W64 D_Dummy 0) (Reg W64 RDI), 7),
    (0x26D, Lea (Rip W64 D_Dummy 0) (Reg W64 RDX), 7),
    (0x274, Mov (Imm 0x177) (Reg W32 RSI), 5),
    (0x279, Alu Xor_op (Reg W32 RCX) (Reg W32 RCX), 2),
    (0x27B, Alu Xor_op (Reg W32 R8) (Reg W32 R8), 3),
    (0x27E, Call (Trap 13), 5),
    (0x283, Lea (Rip W64 D_Dummy 0) (Reg W64 RDI), 7),
    (0x28A, Lea (Rip W64 D_Dummy 0) (Reg W64 RDX), 7),
    (0x291, Mov (Imm 0x1E) (Reg W32 RSI), 5),
    (0x296, Alu Xor_op (Reg W32 RCX) (Reg W32 RCX), 2),
    (0x298, Alu Xor_op (Reg W32 R8) (Reg W32 R8), 3),
    (0x29B, Call (Trap 13), 5)]"

definition asan_stack_malloc_2_code :: "symbol listing" where
  "asan_stack_malloc_2_code = [
    (0, Endbr64, 4),
    (4, Push RBP, 1),
    (5, Mov (Reg W64 RSP) (Reg W64 RBP), 3),
    (8, Push R15, 2),
    (0xA, Push R14, 2),
    (0xC, Push RBX, 1),
    (0xD, Push RAX, 1),
    (0xE, Mov (Reg W64 RDI) (Reg W64 RBX), 3),
    (0x11, Mov (Gs W64 0x28) (Reg W64 RAX), 12),
    (0x1D, Mov (At W64 (- 0x48) RAX) (Reg W64 R14), 7),
    (0x24, Test (Reg W64 R14) (Reg W64 R14), 3),
    (0x27, J CC_E 0x8E, 6),
    (0x2D, Mov (At W64 0x58 R14) (Reg W64 R15), 4),
    (0x31, Cmp (Imm 1) (At W8 0x60 R14), 5),
    (0x36, J CC_NE 0xB, 2),
    (0x38, Mov (Reg W64 R14) (Reg W64 RDI), 3),
    (0x3B, Mov (Reg W64 RBP) (Reg W64 RSI), 3),
    (0x3E, Call (Trap 2), 5),
    (0x43, Lea (At W64 (- 0x8) R15) (Reg W64 RAX), 4),
    (0x47, Mov (Imm 1) (Reg W32 R8), 6),
    (0x4D, Mov (Reg W32 RAX) (Reg W32 RCX), 2),
    (0x4F, Shl_Cl (Reg W64 R8), 3),
    (0x52, Lea (At W64 (- 0xF) R15) (Reg W32 RCX), 4),
    (0x56, Mov (Imm 0x300) (Reg W32 RDX), 5),
    (0x5B, Shl_Cl (Reg W64 RDX), 3),
    (0x5E, Test (Reg W32 R8) (Reg W32 R8), 3),
    (0x61, J CC_LE 0x7A, 2),
    (0x63, Lea (At W64 0x1000 R14) (Reg W64 RDI), 7),
    (0x6A, Lea (Idx W64 0 R14 RDX) (Reg W64 RSI), 4),
    (0x6E, Alu Add_op (Imm 0x1000) (Reg W64 RSI), 7),
    (0x75, Mov (Imm 0x8FFF6FFF) (Reg W32 RDX), 5),
    (0x7A, Mov (Imm (- 0x1)) (Reg W64 R10), 7),
    (0x81, Mov (Reg W32 RAX) (Reg W32 RCX), 2),
    (0x83, Shl_Cl (Reg W64 R10), 3),
    (0x86, Not_op (Reg W64 R10), 3),
    (0x89, Mov (At W64 0x10 R14) (Reg W64 RAX), 4),
    (0x8D, Mov (Reg W32 R8) (Reg W32 RCX), 3),
    (0x90, Dec (Reg W32 RCX), 2),
    (0x92, Alu Add_op (Reg W64 RAX) (Reg W64 RCX), 3),
    (0x95, Inc (Reg W64 RCX), 3),
    (0x98, Nop, 8),
    (0xA0, Mov (Reg W64 RAX) (Reg W64 R9), 3),
    (0xA3, Alu And_op (Reg W64 R10) (Reg W64 R9), 3),
    (0xA6, Cmp (Imm 0) (Idx W8 0 RSI R9), 5),
    (0xAB, J CC_E 0x37, 2),
    (0xAD, Inc (Reg W64 RAX), 3),
    (0xB0, Dec (Reg W32 R8), 3),
    (0xB3, J CC_NE (- 0x15), 2),
    (0xB5, Mov (Reg W64 RCX) (At W64 0x10 R14), 4),
    (0xB9, Jmp 0x22, 2),
    (0xBB, Lea (Rip W64 D_Detect_Uar 0) (Reg W64 RAX), 7),
    (0xC2, Cmp (Imm 0) (At W32 0 RAX), 3),
    (0xC5, J CC_E 0x16, 2),
    (0xC7, Call (Trap 8), 5),
    (0xCC, Test (Reg W64 RAX) (Reg W64 RAX), 3),
    (0xCF, J CC_E 0xC, 2),
    (0xD1, Mov (At W8 0x28 RAX) (Reg W32 RCX), 4),
    (0xD5, Test (Reg W8 RCX) (Reg W8 RCX), 2),
    (0xD7, J CC_E 0x110, 6),
    (0xDD, Alu Xor_op (Reg W32 RAX) (Reg W32 RAX), 2),
    (0xDF, Jmp 0x18E, 5),
    (0xE4, Inc (Reg W64 RAX), 3),
    (0xE7, Mov (Reg W64 RAX) (At W64 0x10 R14), 4),
    (0xEB, Mov (Imm 1) (Idx W8 0 RSI R9), 5),
    (0xF0, Alu Add_op (Reg W64 R9) (Reg W64 RSI), 3),
    (0xF3, Lea (At W64 (- 0x5) R15) (Reg W32 RCX), 4),
    (0xF7, Mov (Imm 1) (Reg W32 RAX), 5),
    (0xFC, Shl_Cl (Reg W64 RAX), 3),
    (0xFF, Mov (Imm 2) (Reg W32 R8), 6),
    (0x105, Mov (Reg W32 R15) (Reg W32 RCX), 3),
    (0x108, Shl_Cl (Reg W64 R8), 3),
    (0x10B, Alu Add_op (Reg W64 RAX) (Reg W64 RDI), 3),
    (0x10E, Alu Add_op (Reg W64 RDI) (Reg W64 R8), 3),
    (0x111, Shl 8 (Reg W64 R9), 4),
    (0x115, Lea (Idx W64 0 R8 R9) (Reg W64 RAX), 4),
    (0x119, Mov (Reg W64 RBP) (Idx W64 0x18 R9 R8), 5),
    (0x11E, Mov (Reg W64 RSI) (Idx W64 0xF8 R9 R8), 8),
    (0x126, Lea (Idx W64 0 RBX RAX) (Reg W64 RDI), 4),
    (0x12A, Test (Imm 7) (Reg W8 RDI), 4),
    (0x12E, J CC_NE 0x16B, 6),
    (0x134, Cmp (Imm 0x7FFF8000) (Reg W64 RAX), 6),
    (0x13A, J CC_B 0xE5, 6),
    (0x140, Lea (Rip W64 D_Mid_Beg 0) (Reg W64 RCX), 7),
    (0x147, Mov (At W64 0 RCX) (Reg W64 R9), 3),
    (0x14A, Lea (At W64 (- 0x1) R9) (Reg W64 R8), 4),
    (0x14E, Cmp (Reg W64 RAX) (Reg W64 R8), 3),
    (0x151, Set CC_B (Reg W8 RCX), 3),
    (0x154, Lea (Rip W64 D_Mid_End 0) (Reg W64 RSI), 7),
    (0x15B, Mov (At W64 0 RSI) (Reg W64 RSI), 3),
    (0x15E, Cmp (Reg W64 RAX) (Reg W64 RSI), 3),
    (0x161, Set CC_AE (Reg W8 R10), 4),
    (0x165, Test (Reg W8 R10) (Reg W8 RCX), 3),
    (0x168, J CC_NE 0xB7, 6),
    (0x16E, Lea (Rip W64 D_High_End 0) (Reg W64 RCX), 7),
    (0x175, Mov (At W64 0 RCX) (Reg W64 R10), 3),
    (0x178, Mov (Reg W64 R10) (Reg W64 RCX), 3),
    (0x17B, Shr 3 (Reg W64 RCX), 4),
    (0x17F, Alu Add_op (Imm 0x7FFF8001) (Reg W64 RCX), 7),
    (0x186, Cmp (Reg W64 RAX) (Reg W64 RCX), 3),
    (0x189, Set CC_BE (Reg W8 R11), 4),
    (0x18D, Cmp (Reg W64 RAX) (Reg W64 R10), 3),
    (0x190, Set CC_AE (Reg W8 R10), 4),
    (0x194, Test (Reg W8 R11) (Reg W8 R10), 3),
    (0x197, J CC_NE 0x88, 6),
    (0x19D, Lea (Rip W64 D_Dummy 0) (Reg W64 R10), 7),
    (0x1A4, Cmp (Imm 0) (At W8 0x4E R10), 5),
    (0x1A9, J CC_NE 0xD3, 6),
    (0x1AF, Test (Reg W64 R9) (Reg W64 R9), 3),
    (0x1B2, J CC_E 0x5C, 2),
    (0x1B4, Shr 3 (Reg W64 R9), 4),
    (0x1B8, Alu Add_op (Imm 0x7FFF7FFF) (Reg W64 R9), 7),
    (0x1BF, Cmp (Reg W64 RAX) (Reg W64 R9), 3),
    (0x1C2, J CC_AE 0xB5, 6),
    (0x1C8, Cmp (Reg W64 RAX) (Reg W64 R8), 3),
    (0x1CB, J CC_B 0x13, 2),
    (0x1CD, Mov (Reg W64 RSI) (Reg W64 RDX), 3),
    (0x1D0, Shr 3 (Reg W64 RDX), 4),
    (0x1D4, Alu Add_op (Imm 0x7FFF8001) (Reg W64 RDX), 7),
    (0x1DB, Cmp (Reg W64 RAX) (Reg W64 RDX), 3),
    (0x1DE, J CC_BE 0x45, 2),
    (0x1E0, Inc (Reg W64 RSI), 3),
    (0x1E3, Cmp (Reg W64 RAX) (Reg W64 RSI), 3),
    (0x1E6, J CC_BE 0x2D, 2),
    (0x1E8, Jmp 0x95, 5),
    (0x1ED, Mov (At W64 0x48 RAX) (Reg W64 R14), 4),
    (0x1F1, Cmp (Imm 1) (Reg W64 R14), 4),
    (0x1F5, J CC_A 0xB, 2),
    (0x1F7, Mov (Reg W64 RAX) (Reg W64 RDI), 3),
    (0x1FA, Call (Trap 9), 5),
    (0x1FF, Mov (Reg W64 RAX) (Reg W64 R14), 3),
    (0x202, Test (Reg W64 R14) (Reg W64 R14), 3),
    (0x205, J CC_NE (- 0x1DE), 6),
    (0x20B, Jmp (- 0x133), 5),
    (0x210, Cmp (Reg W64 RDX) (Reg W64 RAX), 3),
    (0x213, J CC_BE 0x6D, 2),
    (0x215, Shr 3 (Reg W64 RCX), 4),
    (0x219, Alu Add_op (Imm 0x7FFF7FFF) (Reg W64 RCX), 7),
    (0x220, Cmp (Reg W64 RAX) (Reg W64 RCX), 3),
    (0x223, J CC_B 0x5D, 2),
    (0x225, Mov (Reg W64 RAX) (Reg W64 RCX), 3),
    (0x228, Shr 3 (Reg W64 RCX), 4),
    (0x22C, Mov (Imm 0) (At W64 0x7FFF8000 RCX), 11),
    (0x237, Alu Xor_op (Reg W32 RDX) (Reg W32 RDX), 2),
    (0x239, Mov (Imm 0) (At W64 0x7FFF8008 RCX), 11),
    (0x244, Mov (Imm 0) (At W64 0x7FFF8010 RCX), 11),
    (0x24F, Mov (Imm 0) (At W64 0x7FFF8018 RCX), 11),
    (0x25A, Mov (Imm 0x100) (Reg W32 RSI), 5),
    (0x25F, Alu Sub_op (Reg W64 RBX) (Reg W64 RSI), 3),
    (0x262, Mov (Imm 0xF3) (Reg W32 RDX), 5),
    (0x267, Mov (Reg W64 RAX) (Reg W64 RBX), 3),
    (0x26A, Call (Fn 3), 5),
    (0x26F, Mov (Reg W64 RBX) (Reg W64 RAX), 3),
    (0x272, Alu Add_op (Imm 8) (Reg W64 RSP), 4),
    (0x276, Pop RBX, 1),
    (0x277, Pop R14, 2),
    (0x279, Pop R15, 2),
    (0x27B, Pop RBP, 1),
    (0x27C, Ret, 1),
    (0x27D, Cmp (Reg W64 RDX) (Reg W64 RAX), 3),
    (0x280, J CC_A (- 0x5D), 2),
    (0x282, Lea (Rip W64 D_Dummy 0) (Reg W64 RDI), 7),
    (0x289, Lea (Rip W64 D_Dummy 0) (Reg W64 RDX), 7),
    (0x290, Mov (Imm 0x177) (Reg W32 RSI), 5),
    (0x295, Alu Xor_op (Reg W32 RCX) (Reg W32 RCX), 2),
    (0x297, Alu Xor_op (Reg W32 R8) (Reg W32 R8), 3),
    (0x29A, Call (Trap 13), 5),
    (0x29F, Lea (Rip W64 D_Dummy 0) (Reg W64 RDI), 7),
    (0x2A6, Lea (Rip W64 D_Dummy 0) (Reg W64 RDX), 7),
    (0x2AD, Mov (Imm 0x1E) (Reg W32 RSI), 5),
    (0x2B2, Alu Xor_op (Reg W32 RCX) (Reg W32 RCX), 2),
    (0x2B4, Alu Xor_op (Reg W32 R8) (Reg W32 R8), 3),
    (0x2B7, Call (Trap 13), 5)]"

section \<open>The fake stack\<close>

definition fake_stack :: u64 where "fake_stack = 0x600000000000"

definition flag_at :: "nat \<Rightarrow> u64 \<Rightarrow> u64" where
  \<comment> \<open>the flag of frame \<open>i\<close> of class \<open>k\<close>\<close>
  "flag_at k i = [0x600000001000, 0x600000005000, 0x600000007000] ! k + i"

definition frame_at :: "nat \<Rightarrow> u64 \<Rightarrow> u64" where
  "frame_at k i = push_bit (6 + k) i + [0x600000009000, 0x600000109000, 0x600000209000] ! k"

definition arena_blocks :: extents where
  \<comment> \<open>numbers of the frames to try, the header's two fields, flags, frames and data, and the shadow of the frames and the data\<close>
  "arena_blocks = [(0x600000000000, 0x58), (0x600000000058, 9), (0x600000001000, 0x4000), (0x600000005000, 0x2000), (0x600000007000, 0x1000),
     (0x600000009000, 0x100000), (0x600000109000, 0x100000), (0x600000209000, 0x100000), (0x600000C00000, 0x100000),
     (0xC007FFF9200, 0x20000), (0xC0080019200, 0x20000), (0xC0080039200, 0x20000), (0xC0080178000, 0x20000)]"

definition world :: "u64 \<Rightarrow> u64 \<Rightarrow> u64 \<Rightarrow> u64 \<Rightarrow> u64 \<Rightarrow> extents" where
  \<comment> \<open>\<open>d\<close> bytes of stack below a return address at \<open>sp\<close>, data, thread pointer, arena\<close>
  "world data g tp sp d = [(sp - d, d + 8), (data, 0x140), (g + 0x28, 8), (tp - 0x48, 8)] @ arena_blocks"

definition runtime :: "(symbol \<Rightarrow> u64) \<Rightarrow> u64 \<Rightarrow> u64 \<Rightarrow> u64 \<Rightarrow> (u64 \<Rightarrow> u8) \<Rightarrow> bool" where
  \<comment> \<open>what the runtime's code reads: the data block, the thread pointer, the header of the fake stack\<close>
  "runtime lay data g tp m \<longleftrightarrow>
     data_block lay data \<and> data_values lay m \<and> ld 8 (lay D_Real_Memset) m = lay Memset \<and> lay Memset \<noteq> 0
     \<and> ld 8 (g + 0x28) m = tp \<and> ld 8 (tp - 0x48) m = fake_stack
     \<and> ld 8 (fake_stack + 0x58) m = 20 \<and> ld 1 (fake_stack + 0x60) m = 0"

section \<open>Frames, flags and their shadow\<close>

lemma unat_pow: "n < 64 \<Longrightarrow> unat (2 ^ n :: u64) = 2 ^ n"
proof -
  assume "n < 64"
  then have "(2 :: nat) ^ n < 2 ^ 64" by (intro power_strict_increasing) simp_all
  then show ?thesis using unat_of_nat [of "2 ^ n", where ?'a = 64] by (simp add: take_bit_nat_eq_self)
qed

lemma and_mask_less: "n < 64 \<Longrightarrow> (h :: u64) AND mask n < 2 ^ n"
  using take_bit_nat_less_exp [of n "unat h"]
  by (simp add: word_less_nat_alt unsigned_take_bit_eq unat_pow flip: take_bit_eq_mask)

lemma push_bit_room:
  assumes "i < 2 ^ n" and "n + k < 64"
  shows "push_bit k (i :: u64) \<le> 2 ^ (n + k) - 2 ^ k"
proof -
  have i: "unat i < 2 ^ n" using assms unat_pow [of n] by (simp add: word_less_nat_alt)
  have less: "unat i * 2 ^ k < 2 ^ (n + k)" using i by (simp add: power_add)
  also have "\<dots> < 2 ^ 64" using assms(2) by (intro power_strict_increasing) simp_all
  finally have "unat (push_bit k i) = unat i * 2 ^ k"
    using unat_pow [of k] assms(2) by (simp add: push_bit_eq_mult unat_word_ariths)
  moreover have "(2 :: u64) ^ k \<le> 2 ^ (n + k)"
    using unat_pow assms(2) by (simp add: word_le_nat_alt)
  then have "unat (2 ^ (n + k) - 2 ^ k :: u64) = 2 ^ (n + k) - 2 ^ k"
    using unat_pow assms(2) by (simp add: unat_sub)
  moreover have "unat i * 2 ^ k \<le> 2 ^ (n + k) - 2 ^ k"
  proof -
    have "Suc (unat i) * 2 ^ k \<le> 2 ^ n * 2 ^ k" using i by (intro mult_le_mono1) simp
    then show ?thesis by (simp add: power_add)
  qed
  ultimately show ?thesis by (simp add: word_le_nat_alt)
qed

lemma drop_bit_3_add:
  assumes "x AND 7 = 0" and "x < 2 ^ 62" and "c < 2 ^ 58"
  shows "drop_bit 3 (x + 8 * c) = drop_bit 3 x + (c :: u64)"
proof -
  have x: "unat x < 2 ^ 62" and c: "unat c < 2 ^ 58" using assms(2,3) by (simp_all add: word_less_nat_alt)
  have "(7 :: u64) = mask 3" by (simp add: mask_eq_exp_minus_1)
  then have "take_bit 3 x = 0" using assms(1) by (simp add: take_bit_eq_mask)
  then have "take_bit 3 (unat x) = 0" by (simp flip: unsigned_take_bit_eq)
  then have 8: "unat x mod 8 = 0" by (simp add: take_bit_eq_mod)
  have "unat (x + 8 * c) = unat x + 8 * unat c" using x c by (simp add: unat_word_ariths)
  then have "unat (drop_bit 3 (x + 8 * c)) = unat (drop_bit 3 x) + unat c"
    using 8 by (simp add: drop_bit_eq_div unat_div flip: unsigned_drop_bit_eq)
  also have "\<dots> = unat (drop_bit 3 x + c)"
    using x c by (simp add: unat_word_ariths drop_bit_eq_div unat_div)
  finally show ?thesis by (simp add: word_unat_eq_iff)
qed

lemma inside_room:
  assumes "x \<le> l - n" and "n \<le> l"
  shows "inside (x + a) n a (l :: u64)" and "inside (a + x) n a l"
proof -
  have "unat x \<le> unat l - unat n" using assms by (simp add: word_le_nat_alt unat_sub)
  moreover have "unat n \<le> unat l" using assms(2) by (simp add: word_le_nat_alt)
  ultimately have "x \<le> l" "unat n \<le> unat l - unat x" by (simp_all add: word_le_nat_alt)
  then show "inside (x + a) n a l" by (simp add: inside_def word_le_nat_alt unat_sub)
  then show "inside (a + x) n a l" by (simp add: add.commute)
qed

definition frame_blocks :: "nat \<Rightarrow> u64 \<Rightarrow> bool" where
  \<comment> \<open>where frame \<open>i\<close> of class \<open>k\<close>, its flag and its shadow lie; the frame is aligned and in the high memory\<close>
  "frame_blocks k i \<longleftrightarrow>
     inside (flag_at k i) 1 ([0x600000001000, 0x600000005000, 0x600000007000] ! k) (2 ^ (14 - k))
     \<and> inside (frame_at k i) (2 ^ (6 + k)) ([0x600000009000, 0x600000109000, 0x600000209000] ! k) 0x100000
     \<and> inside (shadow (frame_at k i)) (2 ^ (3 + k)) ([0xC007FFF9200, 0xC0080019200, 0xC0080039200] ! k) 0x20000
     \<and> frame_at k i AND 7 = 0 \<and> 0x600000009000 \<le> frame_at k i \<and> frame_at k i < 0x600000309000"

lemma frame_blocks:
  assumes "k < 3" and "i < 2 ^ (14 - k)"
  shows "frame_blocks k i"
proof -
  let ?x = "push_bit (6 + k) i" and ?y = "push_bit (3 + k) i"
  have room: "?x \<le> 2 ^ 20 - 2 ^ (6 + k)" "?y \<le> 2 ^ 17 - 2 ^ (3 + k)"
    using push_bit_room [of i "14 - k" "6 + k"] push_bit_room [of i "14 - k" "3 + k"] assms by simp_all
  have k: "k = 0 \<or> k = 1 \<or> k = 2" using assms(1) by linarith
  have "?x < 0x100000" "?y < 2 ^ 58" using room k by (auto elim!: le_less_trans)
  have x: "?x = 8 * ?y" by (simp add: push_bit_eq_mult power_add)
  have seven: "(7 :: u64) = mask 3" by (simp add: mask_eq_exp_minus_1)
  have low: "take_bit 3 ?x = 0" by (auto simp: bit_eq_iff bit_simps)
  have sh: "shadow (?x + a) = ?y + shadow a" if "a AND 7 = 0" "a < 2 ^ 61" for a
  proof -
    have "a < 2 ^ 62" using that(2) by (rule less_trans) simp
    with drop_bit_3_add [OF that(1) this \<open>?y < 2 ^ 58\<close>] show ?thesis
      unfolding x by (simp add: shadow_def ac_simps)
  qed
  have al: "(?x + a) AND 7 = 0" if "a AND 7 = 0" "a < 2 ^ 61" for a
  proof -
    have "take_bit 3 (unat ?x) = 0" "take_bit 3 (unat a) = 0"
      using that(1) low by (simp_all add: seven flip: take_bit_eq_mask unsigned_take_bit_eq)
    then have "(unat ?x + unat a) mod 8 = 0" by (simp add: take_bit_eq_mod mod_add_eq [symmetric, of "unat ?x"])
    moreover have "unat (?x + a) = unat ?x + unat a"
    proof -
      have "unat ?x < 0x100000" "unat a < 2 ^ 61" using \<open>?x < 0x100000\<close> that(2) by (simp_all add: word_less_nat_alt)
      then show ?thesis by (simp add: unat_word_ariths)
    qed
    ultimately have "take_bit 3 (unat (?x + a)) = 0" by (simp add: take_bit_eq_mod)
    then have "take_bit 3 (?x + a) = 0" by (simp add: unat_eq_0 flip: unsigned_take_bit_eq)
    then show ?thesis by (simp add: seven flip: take_bit_eq_mask)
  qed
  have hi: "a \<le> ?x + a" "?x + a < a + 0x100000" if "a < 2 ^ 61" for a
  proof -
    have "unat ?x < 0x100000" "unat a < 2 ^ 61" using \<open>?x < 0x100000\<close> that by (simp_all add: word_less_nat_alt)
    then show "a \<le> ?x + a" "?x + a < a + 0x100000"
      by (simp_all add: unat_word_ariths word_less_nat_alt word_le_nat_alt)
  qed
  have flag: "i \<le> 2 ^ (14 - k) - 1" using assms(2) by (rule less_imp_less_eq_dec)
  consider "k = 0" | "k = 1" | "k = 2" using assms(1) by linarith
  then show ?thesis 
  proof cases
    case 1
    then show ?thesis using room al [where a = "0x600000009000"] sh [where a = "0x600000009000"]
        order_trans [OF _ hi(1) [where a = "0x600000009000"], where x = "0x600000009000"] less_le_trans [OF hi(2) [where a = "0x600000009000"], where z = "0x600000309000"] flag
      by (simp add: frame_blocks_def flag_at_def frame_at_def shadow_def inside_room)
  next
    case 2
    then show ?thesis using room al [where a = "0x600000109000"] sh [where a = "0x600000109000"]
        order_trans [OF _ hi(1) [where a = "0x600000109000"], where x = "0x600000009000"] less_le_trans [OF hi(2) [where a = "0x600000109000"], where z = "0x600000309000"] flag
      by (simp add: frame_blocks_def flag_at_def frame_at_def shadow_def inside_room)
  next
    case 3
    then show ?thesis using room al [where a = "0x600000209000"] sh [where a = "0x600000209000"]
        order_trans [OF _ hi(1) [where a = "0x600000209000"], where x = "0x600000009000"] less_le_trans [OF hi(2) [where a = "0x600000209000"], where z = "0x600000309000"] flag
      by (simp add: frame_blocks_def flag_at_def frame_at_def shadow_def inside_room)
  qed
qed

section \<open>The runtime's data stays\<close>

lemma keeps_byte: "keeps W m m' \<Longrightarrow> clear W a 1 \<Longrightarrow> m' a = m a"
  using keeps_ld [of W m m' a 1] by (simp add: ld_1)

lemma inside_byte: "i < n \<Longrightarrow> inside (a + i) 1 a n"
proof -
  have *: "i < n \<Longrightarrow> i \<le> n \<and> 1 \<le> n - i" for i n :: u64 by unat_arith
  show "i < n \<Longrightarrow> inside (a + i) 1 a n" using * by (simp add: inside_def)
qed

lemma runtime_reads:
  assumes "runtime lay data g tp m"
  shows "lay D_Real_Memset = data + 0x10" "lay D_Mid_Beg = data + 0x18" "lay D_Mid_End = data + 0x20" "lay D_High_End = data + 0x28"
    "lay D_Detect_Uar = data + 0x30" "lay D_Can_Poison = data + 0x34" "lay D_Dummy = data + 0x40"
    "ld 8 (data + 0x10) m = lay Memset" "ld 8 (data + 0x18) m = 0" "ld 8 (data + 0x20) m = 0"
    "ld 8 (data + 0x28) m = 0x00007FFFFFFFFFFF" "ld 4 (data + 0x30) m = 1" "ld 1 (data + 0x34) m = 1"
    "ld (Suc 0) (data + 0x34) m = 1"
    "ld 8 (g + 0x28) m = tp" "ld 8 (tp - 0x48) m = fake_stack" "ld 8 (fake_stack + 0x58) m = 20"
    "ld 1 (fake_stack + 0x60) m = 0" "ld (Suc 0) (fake_stack + 0x60) m = 0" "lay Memset \<noteq> 0"
  using assms unfolding runtime_def data_block_def data_values_def by (elim conjE; simp)+

lemma runtime_keeps:
  assumes "runtime lay data g tp m" and k: "keeps W m m'"
    and c: "clear W data 0x140" "clear W (g + 0x28) 8" "clear W (tp - 0x48) 8" "clear W (fake_stack + 0x58) 9"
  shows "runtime lay data g tp m'"
proof -
  have l: "ld n a m' = ld n a m" if "inside a (of_nat n) b j" "clear W b j" "n \<le> 8" for n a b j
    by (rule keeps_ld [OF k clear_within [OF that(2,1)] that(3)])
  have "m' (data + 0x40 + i) = m (data + 0x40 + i)" if "i < 256" for i
  proof -
    have "inside (data + 0x40 + i) 1 data 0x140"
      by (rule inside_trans [OF inside_byte [OF that]]) (simp add: inside_offsets)
    with c(1) show ?thesis by (intro keeps_byte [OF k]) (rule clear_within)
  qed
  then show ?thesis
    using assms(1) runtime_reads [OF assms(1)] l [OF _ c(1)] l [OF _ c(2)] l [OF _ c(3)] l [OF _ c(4)]
    unfolding runtime_def data_values_def by (simp add: inside_offsets)
qed

section \<open>Poisoning\<close>

text \<open>\<open>PoisonShadow\<close> writes only the shadow of its range.\<close>

definition machine :: "(symbol \<Rightarrow> u64) \<Rightarrow> symbol program \<Rightarrow> bool" where
  "machine lay code \<longleftrightarrow> placed code (lay Memset) sdc_rbx_memset_code \<and> placed code (lay (Fn 3)) poison_shadow_code
     \<and> placed code (lay (Fn 0)) asan_stack_malloc_0_code \<and> placed code (lay (Fn 1)) asan_stack_malloc_1_code
     \<and> placed code (lay (Fn 2)) asan_stack_malloc_2_code"

lemma poison_shadow_keeps:
  assumes "machine lay code" and "rip s = lay (Fn 3)" and run: "runtime lay data (gs s) tp (mm s)" and "\<not> df s"
    and w: "scattered (world data (gs s) tp (rsp s) 0x38)"
    and range: "high_memory (rdi s)" "high_memory (rdi s + rsi s - 8)" "rdi s AND 7 = 0" "rsi s AND 7 = 0"
    and byte: "take_bit 8 (rdx s) \<noteq> 0"
    and sep: "apart (rsp s - 0x38) 0x40 (shadow (rdi s)) (drop_bit 3 (rdi s + rsi s - 8) + 1 - drop_bit 3 (rdi s))"
  shows "\<exists>t. returns lay code s t
    \<and> keeps [(rsp s - 0x38, 0x38), (shadow (rdi s), drop_bit 3 (rdi s + rsi s - 8) + 1 - drop_bit 3 (rdi s))] (mm s) (mm t)"
proof -
  let ?n = "drop_bit 3 (rdi s + rsi s - 8) + 1 - drop_bit 3 (rdi s)"
  have code: "placed code (lay (Fn 3)) poison_shadow_code" "placed code (lay Memset) sdc_rbx_memset_code"
    using assms(1) by (simp_all add: machine_def)
  have "apart data 0x140 (rsp s - 0x38) 0x38"
    using scattered_of [OF w, of "[0,1]" "[(rsp s - 0x38, 0x38), (data, 0x140)]"]
    by (simp add: world_def inside_offsets clear_def apart_sym)
  then obtain t where t: "reaches lay code s t" "rip t = lay Memset" "rsp t = rsp s" "saved t = saved s"
      "rdi t = shadow (rdi s)" "rdx t = ?n" "keeps [(rsp s - 0x38, 0x38)] (mm s) (mm t)"
    using poison_shadow_jumps [OF code(1) assms(2) _ _ _ range byte, where data = data and lay = lay] run by (auto simp: runtime_def)
  have "apart (rsp t) 8 (rdi t) (rdx t)"
    using apart_within(1) [OF sep] by (simp add: t inside_offsets)
  moreover have "\<not> df t" using t(4) assms(4) by (simp add: saved_simps)
  ultimately obtain u where u: "returns lay code t u" "mm u = fill (rdi t) (rdx t) (ucast (rsi t)) (mm t)"
    using memset_fills [OF code(2) t(2)] by auto
  have "ld 8 (rsp s) (mm t) = ld 8 (rsp s) (mm s)"
    using t(7) by (rule keeps_ld) (simp_all add: clear_def apart_offsets)
  then have "returns lay code s u" using t u(1) by (auto simp: returns_def intro: reaches_trans)
  moreover have "keeps [(rsp s - 0x38, 0x38), (shadow (rdi s), ?n)] (mm s) (mm u)"
    using t(7) by (simp add: keeps_def u(2) t(5,6) fill_def)
  ultimately show ?thesis by blast
qed

lemma and_7_add:
  assumes "x AND 7 = 0" and "y AND 7 = 0"
  shows "(x + y) AND 7 = (0 :: u64)"
proof -
  have seven: "(7 :: u64) = mask 3" by (simp add: mask_eq_exp_minus_1)
  have iff: "z AND 7 = 0 \<longleftrightarrow> unat z mod 8 = 0" for z :: u64
  proof -
    have "z AND 7 = 0 \<longleftrightarrow> unat (take_bit 3 z) = 0" by (simp only: seven take_bit_eq_mask unat_eq_0)
    then show ?thesis unfolding unsigned_take_bit_eq by (simp add: take_bit_eq_mod)
  qed
  have "unat (x + y) mod 8 = (unat x + unat y) mod 8"
    by (simp add: unat_word_ariths mod_mod_cancel)
  then show ?thesis using assms unfolding iff by (simp add: mod_add_eq [symmetric, of "unat x"])
qed

lemma aligned_8:
  assumes "n AND 7 = 0"
  shows "n = 8 * drop_bit 3 (n :: u64)"
proof -
  have "(7 :: u64) = mask 3" by (simp add: mask_eq_exp_minus_1)
  then have "take_bit 3 n = 0" using assms by (simp add: take_bit_eq_mask)
  then have "n = push_bit 3 (drop_bit 3 n)" using bits_ident [of 3 n] by simp
  also have "\<dots> = 8 * drop_bit 3 n" by (simp add: push_bit_eq_mult mult.commute)
  finally show ?thesis .
qed

lemma frame_high:
  fixes a :: u64
  assumes "0x600000009000 \<le> a" and "a < 0x600000309000"
  shows "0x10007FFF8000 < a" "\<not> 0x00007FFFFFFFFFFF < a" "\<not> a < 0x7FFF8000"
proof -
  show "0x10007FFF8000 < a" by (rule less_le_trans [OF _ assms(1)]) simp
  have "a < 0x00007FFFFFFFFFFF" by (rule less_trans [OF assms(2)]) simp
  then show "\<not> 0x00007FFFFFFFFFFF < a" by simp
  have "0x7FFF8000 < a" by (rule less_le_trans [OF _ assms(1)]) simp
  then show "\<not> a < 0x7FFF8000" by simp
qed

text \<open>The upper part of a frame, from offset \<open>n\<close>.\<close>

lemma frame_rest:
  assumes "frame_blocks k i" and "k < 3" and n: "n AND 7 = 0" "n \<le> 2 ^ (6 + k)"
  defines "fr \<equiv> frame_at k i"
  shows "high_memory (n + fr)" and "high_memory (fr + 2 ^ (6 + k) - 8)" and "(n + fr) AND 7 = 0"
    and "shadow (n + fr) = shadow fr + drop_bit 3 n"
    and "drop_bit 3 (fr + 2 ^ (6 + k) - 8) + 1 - drop_bit 3 (n + fr) = 2 ^ (3 + k) - drop_bit 3 n"
    and "drop_bit 3 n \<le> 2 ^ (3 + k)"
proof -
  have fr: "fr AND 7 = 0" "0x600000009000 \<le> fr" "fr < 0x600000309000"
    using assms(1) by (simp_all add: frame_blocks_def fr_def)
  have k: "k = 0 \<or> k = 1 \<or> k = 2" using assms(2) by linarith
  have small: "fr < 2 ^ 62" using fr(3) by (rule less_trans) simp
  have n8: "n = 8 * drop_bit 3 n" using n(1) by (rule aligned_8)
  have c: "drop_bit 3 n \<le> 2 ^ (3 + k)"
  proof -
    have "unat (2 ^ (6 + k) :: u64) = 2 ^ (6 + k)" "unat (2 ^ (3 + k) :: u64) = 2 ^ (3 + k)" using k by (intro unat_pow; auto)+
    moreover have "unat n div 8 \<le> 2 ^ (6 + k) div 8" using n(2) calculation by (intro div_le_mono) (simp add: word_le_nat_alt)
    ultimately show ?thesis by (simp add: word_le_nat_alt drop_bit_eq_div unat_div power_add)
  qed
  have near: "high_memory (fr + d)" if "d \<le> 0x100" for d
  proof -
    have u: "unat d \<le> 0x100" "0x600000009000 \<le> unat fr" "unat fr < 0x600000309000"
      using that fr by (simp_all add: word_le_nat_alt word_less_nat_alt)
    then have "unat (fr + d) = unat fr + unat d" by (simp add: unat_word_ariths)
    with u show ?thesis by (simp add: high_memory_def word_le_nat_alt word_less_nat_alt)
  qed
  have "n \<le> 0x100" using n(2) k by (auto elim: order_trans)
  then show "high_memory (n + fr)" using near [of n] by (simp add: add.commute)
  show "(n + fr) AND 7 = 0" by (rule and_7_add [OF n(1) fr(1)])
  have c58: "drop_bit 3 n < 2 ^ 58" using c k by (auto elim!: le_less_trans)
  have add: "drop_bit 3 (fr + 8 * d) = drop_bit 3 fr + d" if "d < 2 ^ 58" for d
    by (rule drop_bit_3_add [OF fr(1) small that])
  have dn: "drop_bit 3 (n + fr) = drop_bit 3 fr + drop_bit 3 n"
    using add [OF c58] n8 by (simp add: add.commute)
  then show "shadow (n + fr) = shadow fr + drop_bit 3 n" by (simp add: shadow_def)
  have top: "fr + 2 ^ (6 + k) - 8 = fr + 8 * (2 ^ (3 + k) - 1)" using k by auto
  have less: "(2 ^ (3 + k) - 1 :: u64) < 2 ^ 58" "8 * (2 ^ (3 + k) - 1 :: u64) \<le> 0x100" using k by auto
  show "high_memory (fr + 2 ^ (6 + k) - 8)" unfolding top by (rule near [OF less(2)])
  show "drop_bit 3 (fr + 2 ^ (6 + k) - 8) + 1 - drop_bit 3 (n + fr) = 2 ^ (3 + k) - drop_bit 3 n"
    unfolding top add [OF less(1)] dn by simp
  show "drop_bit 3 n \<le> 2 ^ (3 + k)" by (rule c)
qed

lemma world_below:
  assumes "scattered (world data g tp sp d)" and "inside (sp' - d') (d' + 8) (sp - d) (d + 8)"
  shows "scattered (world data g tp sp' d')"
  by (rule scattered_parts [OF assms(1)]) (simp add: world_def list_all2_same split_beta assms(2))

lemma and_7_mult: "(8 * x) AND 7 = (0 :: u64)"
proof -
  have "(7 :: u64) = mask 3" "8 * x = push_bit 3 x" by (simp_all add: mask_eq_exp_minus_1 push_bit_eq_mult mult.commute)
  then show ?thesis by (auto simp: bit_eq_iff bit_simps)
qed

lemma world_frame:
  assumes "scattered (world data g tp sp d)" and "frame_blocks k i" and "k < 3"
  shows "scattered [(sp - d, d + 8), (data, 0x140), (g + 0x28, 8), (tp - 0x48, 8), (fake_stack + 8 * of_nat k, 8),
    (fake_stack + 0x58, 9), (flag_at k i, 1), (frame_at k i, 2 ^ (6 + k)), (shadow (frame_at k i), 2 ^ (3 + k))]"
proof -
  have "k = 0 \<or> k = 1 \<or> k = 2" using assms(3) by linarith
  then show ?thesis
    by (intro scattered_of [OF assms(1), of "[0, 1, 2, 3, 4, 5, 6 + k, 9 + k, 13 + k]"])
      (use assms(2) in \<open>auto simp: world_def arena_blocks_def frame_blocks_def fake_stack_def numeral_blocks\<close>)
qed

section \<open>Three parts of a call\<close>

definition malloc_finds :: "nat \<Rightarrow> u64 \<Rightarrow> xstate \<Rightarrow> xstate \<Rightarrow> bool" where
  \<comment> \<open>\<open>t\<close>: frame \<open>i\<close> of class \<open>k\<close> found, its flag set\<close>
  "malloc_finds k i s t \<longleftrightarrow>
     rax t = frame_at k i \<and> rsi t = flag_at k i \<and> rbx t = rdi s \<and> rsp t = rsp s - 0x28
     \<and> saved t = saved (s\<lparr>rbx := rbx t, rbp := rbp t, r14 := r14 t, r15 := r15 t\<rparr>)
     \<and> ld 8 (rsp s - 8) (mm t) = rbp s \<and> ld 8 (rsp s - 0x10) (mm t) = r15 s \<and> ld 8 (rsp s - 0x18) (mm t) = r14 s
     \<and> ld 8 (rsp s - 0x20) (mm t) = rbx s
     \<and> keeps [(rsp s - 0x28, 0x28), (fake_stack + 8 * of_nat k, 8), (flag_at k i, 1)] (mm s) (mm t)"

definition malloc_marks :: "(symbol \<Rightarrow> u64) \<Rightarrow> nat \<Rightarrow> u64 \<Rightarrow> u64 \<Rightarrow> xstate \<Rightarrow> xstate \<Rightarrow> bool" where
  \<comment> \<open>\<open>t\<close>: at the call of \<open>PoisonShadow\<close>, the address of the flag stored in the frame, its shadow cleared\<close>
  "malloc_marks lay k i ret s t \<longleftrightarrow>
     rip t = lay (Fn 3) \<and> rdi t = rbx s + frame_at k i \<and> rsi t = 2 ^ (6 + k) - rbx s \<and> rdx t = 0xF3
     \<and> rbx t = frame_at k i \<and> rsp t = rsp s - 8 \<and> saved t = saved (s\<lparr>rbx := rbx t\<rparr>) \<and> ld 8 (rsp s - 8) (mm t) = ret
     \<and> ld 8 (frame_at k i + (2 ^ (6 + k) - 8)) (mm t) = flag_at k i
     \<and> keeps [(rsp s - 8, 8), (frame_at k i, 2 ^ (6 + k)), (shadow (frame_at k i), 2 ^ (3 + k))] (mm s) (mm t)"

definition malloc_calls :: "(symbol \<Rightarrow> u64) \<Rightarrow> nat \<Rightarrow> u64 \<Rightarrow> u64 \<Rightarrow> xstate \<Rightarrow> xstate \<Rightarrow> bool" where
  \<comment> \<open>\<open>t\<close>: at the call of \<open>PoisonShadow\<close>, with the frame taken and the caller's registers on the stack\<close>
  "malloc_calls lay k i ret s t \<longleftrightarrow>
     rip t = lay (Fn 3) \<and> rdi t = rdi s + frame_at k i \<and> rsi t = 2 ^ (6 + k) - rdi s \<and> rdx t = 0xF3
     \<and> rbx t = frame_at k i \<and> rsp t = rsp s - 0x30 \<and> saved t = saved (s\<lparr>rbx := rbx t, rbp := rbp t, r14 := r14 t, r15 := r15 t\<rparr>)
     \<and> ld 8 (rsp s - 0x30) (mm t) = ret
     \<and> ld 8 (rsp s - 8) (mm t) = rbp s \<and> ld 8 (rsp s - 0x10) (mm t) = r15 s \<and> ld 8 (rsp s - 0x18) (mm t) = r14 s
     \<and> ld 8 (rsp s - 0x20) (mm t) = rbx s \<and> ld 8 (frame_at k i + (2 ^ (6 + k) - 8)) (mm t) = flag_at k i
     \<and> keeps [(rsp s - 0x30, 0x30), (fake_stack + 8 * of_nat k, 8), (flag_at k i, 1), (frame_at k i, 2 ^ (6 + k)),
         (shadow (frame_at k i), 2 ^ (3 + k))] (mm s) (mm t)"

definition malloc_end :: "xstate \<Rightarrow> xstate \<Rightarrow> bool" where
  "malloc_end t u \<longleftrightarrow> (let sp = rsp t + 0x28 in
     rip u = ld 8 sp (mm t) \<and> rsp u = sp + 8 \<and> rax u = rbx t \<and> mm u = mm t
     \<and> saved u = saved (t\<lparr>rbp := ld 8 (sp - 8) (mm t), r15 := ld 8 (sp - 0x10) (mm t), r14 := ld 8 (sp - 0x18) (mm t),
         rbx := ld 8 (sp - 0x20) (mm t)\<rparr>))"

definition malloc_ends :: "(symbol \<Rightarrow> u64) \<Rightarrow> symbol program \<Rightarrow> u64 \<Rightarrow> bool" where
  "malloc_ends lay code ret \<longleftrightarrow> (\<forall>t. rip t = ret \<longrightarrow> (\<exists>u. reaches lay code t u \<and> malloc_end t u))"

lemma malloc_calls_of:
  assumes w: "scattered (world data (gs s) tp (rsp s) 0x68)" and fb: "frame_blocks k i" and "k < 3"
    and t: "malloc_finds k i s t" and u: "malloc_marks lay k i ret t u"
  shows "malloc_calls lay k i ret s u"
proof -
  note sep = scattered_spread [OF world_frame [OF w fb \<open>k < 3\<close>], unfolded spread.simps list.pred_inject split_conv]
  note t = t [unfolded malloc_finds_def] and u = u [unfolded malloc_marks_def]
  have tk: "keeps [(rsp s - 0x28, 0x28), (fake_stack + 8 * of_nat k, 8), (flag_at k i, 1)] (mm s) (mm t)"
    and uk: "keeps [(rsp s - 0x30, 8), (frame_at k i, 2 ^ (6 + k)), (shadow (frame_at k i), 2 ^ (3 + k))] (mm t) (mm u)"
    using t u by simp_all
  have slots: "ld 8 a (mm u) = ld 8 a (mm t)" if "inside a 8 (rsp s - 0x20) 0x20" for a
  proof (rule keeps_ld [OF uk])
    have "inside a 8 (rsp s - 0x68) 0x70" "inside a 8 (rsp s - 0x28) 0x28"
      using that by (rule inside_trans, simp add: inside_offsets)+
    moreover have "apart (rsp s - 0x28) 0x28 (rsp s - 0x30) 8" by (simp add: apart_offsets)
    ultimately show "clear [(rsp s - 0x30, 8), (frame_at k i, 2 ^ (6 + k)), (shadow (frame_at k i), 2 ^ (3 + k))] a (of_nat 8)"
      using apart_within(1) by (simp add: clear_def sep)
  qed simp
  have "keeps [(rsp s - 0x30, 0x30), (fake_stack + 8 * of_nat k, 8), (flag_at k i, 1), (frame_at k i, 2 ^ (6 + k)),
      (shadow (frame_at k i), 2 ^ (3 + k))] (mm s) (mm u)" (is "keeps ?W _ _")
  proof (rule keeps_trans)
    show "keeps ?W (mm s) (mm t)" by (rule keeps_mono [OF tk]) (simp add: covers_def inside_offsets)
    show "keeps ?W (mm t) (mm u)" by (rule keeps_mono [OF uk]) (simp add: covers_def inside_offsets)
  qed
  then show ?thesis
    using t u by (auto simp: malloc_calls_def slots inside_offsets saved_simps)
qed

lemma malloc_assembly:
  assumes m: "machine lay code" and run: "runtime lay data (gs s) tp (mm s)" and "\<not> df s"
    and w: "scattered (world data (gs s) tp (rsp s) 0x68)"
    and "k < 3" and i: "i < 2 ^ (14 - k)" and n: "rdi s AND 7 = 0" "rdi s \<le> 2 ^ (6 + k)"
    and st: "reaches lay code s t" and t: "malloc_calls lay k i ret s t" and e: "malloc_ends lay code ret"
  shows "\<exists>u. returns lay code s u \<and> rax u = frame_at k i \<and> ld 8 (frame_at k i + (2 ^ (6 + k) - 8)) (mm u) = flag_at k i
     \<and> keeps [(rsp s - 0x68, 0x68), (fake_stack + 8 * of_nat k, 8), (flag_at k i, 1), (frame_at k i, 2 ^ (6 + k)),
         (shadow (frame_at k i), 2 ^ (3 + k))] (mm s) (mm u)"
proof -
  define fr c where "fr = frame_at k i" and "c = drop_bit 3 (rdi s)"
  have fb: "frame_blocks k i" using \<open>k < 3\<close> i by (rule frame_blocks)
  note rest = frame_rest [OF fb \<open>k < 3\<close> n, folded fr_def c_def]
  note t = t [unfolded malloc_calls_def, folded fr_def]
  have "scattered [(rsp s - 0x68, 0x70), (data, 0x140), (gs s + 0x28, 8), (tp - 0x48, 8), (fake_stack + 8 * of_nat k, 8),
      (fake_stack + 0x58, 9), (flag_at k i, 1), (fr, 2 ^ (6 + k)), (shadow fr, 2 ^ (3 + k))]"
    using world_frame [OF w fb \<open>k < 3\<close>] by (simp add: fr_def)
  note sep = scattered_spread [OF this, unfolded spread.simps list.pred_inject split_conv]
  have k: "k = 0 \<or> k = 1 \<or> k = 2" using \<open>k < 3\<close> by linarith
  have regs: "gs t = gs s" "df t = df s" "rdi t = rdi s + fr" "rsi t = 2 ^ (6 + k) - rdi s" "rdx t = 0xF3" "rsp t = rsp s - 0x30"
    using t by (simp_all add: saved_simps)
  have tk: "keeps [(rsp s - 0x30, 0x30), (fake_stack + 8 * of_nat k, 8), (flag_at k i, 1), (fr, 2 ^ (6 + k)), (shadow fr, 2 ^ (3 + k))]
      (mm s) (mm t)" using t by blast
  have runt: "runtime lay data (gs t) tp (mm t)"
    using runtime_keeps [OF run tk] t by (simp add: clear_def sep inside_offsets saved_simps)
  obtain u where u: "returns lay code t u" "keeps [(rsp s - 0x68, 0x38), (shadow fr, 2 ^ (3 + k))] (mm t) (mm u)"
  proof -
    have "(2 :: u64) ^ (6 + k) = 8 * 2 ^ (3 + k)" by (simp add: power_add)
    then have "(2 ^ (6 + k) - rdi s) AND 7 = 0"
      using and_7_mult [of "2 ^ (3 + k) - c"] aligned_8 [OF n(1)] by (simp add: c_def right_diff_distrib)
    moreover have e: "rdi s + fr + (2 ^ (6 + k) - rdi s) - 8 = fr + 2 ^ (6 + k) - 8" by simp
    moreover have "scattered (world data (gs t) tp (rsp t) 0x38)"
      unfolding regs by (rule world_below [OF w]) (simp add: inside_offsets)
    moreover have in': "inside (shadow fr + c) (2 ^ (3 + k) - c) (shadow fr) (2 ^ (3 + k))"
      using rest(6) by (simp add: inside_def)
    ultimately have "\<exists>u. returns lay code t u \<and> keeps [(rsp t - 0x38, 0x38), (shadow fr + c, 2 ^ (3 + k) - c)] (mm t) (mm u)"
      using poison_shadow_keeps [OF m _ runt] t rest \<open>\<not> df s\<close>
      by (simp add: regs word_offsets inside_offsets sep)
    then show ?thesis
    proof (elim exE conjE)
      fix u assume u: "returns lay code t u" "keeps [(rsp t - 0x38, 0x38), (shadow fr + c, 2 ^ (3 + k) - c)] (mm t) (mm u)"
      have "keeps [(rsp s - 0x68, 0x38), (shadow fr, 2 ^ (3 + k))] (mm t) (mm u)"
        by (rule keeps_mono [OF u(2)]) (simp add: regs covers_def inside_offsets word_offsets rest(6))
      with u(1) show ?thesis by (rule that)
    qed
  qed
  have "rip u = ret" "rsp u = rsp s - 0x28" using u(1) t by (simp_all add: returns_def)
  then obtain v where "reaches lay code u v" "malloc_end u v" using e by (auto simp: malloc_ends_def)
  then have v: "reaches lay code u v \<and> rip v = ld 8 (rsp s) (mm u) \<and> rsp v = rsp s + 8 \<and> rax v = rbx u \<and> mm v = mm u
       \<and> saved v = saved (u\<lparr>rbp := ld 8 (rsp s - 8) (mm u), r15 := ld 8 (rsp s - 0x10) (mm u), r14 := ld 8 (rsp s - 0x18) (mm u),
           rbx := ld 8 (rsp s - 0x20) (mm u)\<rparr>)"
    using \<open>rsp u = rsp s - 0x28\<close> by (simp add: malloc_end_def Let_def)
  have "k = 0 \<or> k = 1 \<or> k = 2" using \<open>k < 3\<close> by linarith
  then have top: "inside (fr + (2 ^ (6 + k) - 8)) 8 fr (2 ^ (6 + k))" by (auto simp: inside_offsets)
  have same: "ld 8 a (mm u) = ld 8 a (mm t)"
    if "clear [(rsp s - 0x68, 0x38), (shadow fr, 2 ^ (3 + k))] a 8" for a
    using that by (intro keeps_ld [OF u(2)]) simp_all
  have slots: "ld 8 (rsp s) (mm u) = ld 8 (rsp s) (mm t)" "ld 8 (rsp s - 8) (mm u) = rbp s" "ld 8 (rsp s - 0x10) (mm u) = r15 s"
      "ld 8 (rsp s - 0x18) (mm u) = r14 s" "ld 8 (rsp s - 0x20) (mm u) = rbx s"
    using t by (simp_all add: same clear_def apart_offsets inside_offsets sep)
  have own: "ld 8 (fr + (2 ^ (6 + k) - 8)) (mm u) = flag_at k i"
  proof -
    have "inside (rsp s - 0x68) 0x38 (rsp s - 0x68) 0x70" by (simp add: inside_offsets)
    with top have "ld 8 (fr + (2 ^ (6 + k) - 8)) (mm u) = ld 8 (fr + (2 ^ (6 + k) - 8)) (mm t)"
      by (intro same) (simp add: clear_def sep)
    with t show ?thesis by simp
  qed
  have ret: "ld 8 (rsp s) (mm t) = ld 8 (rsp s) (mm s)"
    by (rule keeps_ld [OF tk]) (simp_all add: clear_def apart_offsets inside_offsets sep)
  have "returns lay code s v"
    using st t v u(1) slots ret by (auto simp: returns_def saved_simps intro: reaches_trans)
  moreover have "keeps [(rsp s - 0x68, 0x68), (fake_stack + 8 * of_nat k, 8), (flag_at k i, 1), (fr, 2 ^ (6 + k)),
         (shadow fr, 2 ^ (3 + k))] (mm s) (mm v)" (is "keeps ?W _ _")
  proof (rule keeps_trans)
    show "keeps ?W (mm s) (mm t)" by (rule keeps_mono [OF tk]) (simp add: covers_def inside_offsets)
    show "keeps ?W (mm t) (mm v)" using v u(2) by (auto elim!: keeps_mono simp: covers_def inside_offsets)
  qed
  moreover have "rax v = fr" using v u(1) t by (simp add: returns_def saved_simps)
  ultimately show ?thesis using v own by (auto simp: fr_def)
qed

text \<open>What the callers use.\<close>

definition mallocs :: "(symbol \<Rightarrow> u64) \<Rightarrow> symbol program \<Rightarrow> u64 \<Rightarrow> nat \<Rightarrow> bool" where
  "mallocs lay code entry k \<longleftrightarrow> (\<forall>s data tp i. rip s = entry \<and> runtime lay data (gs s) tp (mm s) \<and> \<not> df s
     \<and> scattered (world data (gs s) tp (rsp s) 0x68) \<and> ld 8 (fake_stack + 8 * of_nat k) (mm s) AND mask (14 - k) = i
     \<and> mm s (flag_at k i) = 0 \<and> rdi s AND 7 = 0 \<and> rdi s \<le> 2 ^ (6 + k) \<longrightarrow>
    (\<exists>t. returns lay code s t \<and> rax t = frame_at k i \<and> ld 8 (frame_at k i + (2 ^ (6 + k) - 8)) (mm t) = flag_at k i
     \<and> keeps [(rsp s - 0x68, 0x68), (fake_stack + 8 * of_nat k, 8), (flag_at k i, 1), (frame_at k i, 2 ^ (6 + k)),
         (shadow (frame_at k i), 2 ^ (3 + k))] (mm s) (mm t)))"

lemma mallocs_of:
  assumes m: "machine lay code" and "k < 3"
    and finds: "\<And>s data tp i. rip s = entry \<Longrightarrow> runtime lay data (gs s) tp (mm s) \<Longrightarrow> scattered (world data (gs s) tp (rsp s) 0x28)
      \<Longrightarrow> frame_blocks k i \<Longrightarrow> ld 8 (fake_stack + 8 * of_nat k) (mm s) AND mask (14 - k) = i \<Longrightarrow> mm s (flag_at k i) = 0
      \<Longrightarrow> \<exists>t. reaches lay code s t \<and> malloc_finds k i s t \<and> found t (frame_at k i)"
    and marks: "\<And>s data tp i sp. found s (frame_at k i) \<Longrightarrow> runtime lay data (gs s) tp (mm s) \<Longrightarrow> rsp s = sp - 0x28
      \<Longrightarrow> scattered (world data (gs s) tp sp 0x68) \<Longrightarrow> frame_blocks k i \<Longrightarrow> rax s = frame_at k i \<Longrightarrow> rsi s = flag_at k i
      \<Longrightarrow> (rbx s + frame_at k i) AND 7 = 0 \<Longrightarrow> \<exists>t. reaches lay code s t \<and> malloc_marks lay k i ret s t"
    and ends: "malloc_ends lay code ret"
  shows "mallocs lay code entry k"
  unfolding mallocs_def
proof (intro allI impI, elim conjE)
  fix s :: xstate and data tp i
  assume a: "rip s = entry" and run: "runtime lay data (gs s) tp (mm s)" and "\<not> df s" and w: "scattered (world data (gs s) tp (rsp s) 0x68)"
    and i: "ld 8 (fake_stack + 8 * of_nat k) (mm s) AND mask (14 - k) = i" and free: "mm s (flag_at k i) = 0"
    and n: "rdi s AND 7 = 0" "rdi s \<le> 2 ^ (6 + k)"
  have less: "i < 2 ^ (14 - k)" using i and_mask_less [of "14 - k" "ld 8 (fake_stack + 8 * of_nat k) (mm s)"] by simp
  have fb: "frame_blocks k i" by (rule frame_blocks [OF \<open>k < 3\<close> less])
  have w28: "scattered (world data (gs s) tp (rsp s) 0x28)" by (rule world_below [OF w]) (simp add: inside_offsets)
  obtain t where st: "reaches lay code s t" and t: "malloc_finds k i s t" "found t (frame_at k i)"
    using finds [OF a run w28 fb i free] by blast
  note t' = t(1) [unfolded malloc_finds_def]
  note sep = scattered_spread [OF world_frame [OF w fb \<open>k < 3\<close>], unfolded spread.simps list.pred_inject split_conv]
  have tk: "keeps [(rsp s - 0x28, 0x28), (fake_stack + 8 * of_nat k, 8), (flag_at k i, 1)] (mm s) (mm t)" using t' by simp
  have "runtime lay data (gs s) tp (mm t)"
    by (rule runtime_keeps [OF run tk]) (simp_all add: clear_def sep inside_offsets)
  moreover have "(rbx t + frame_at k i) AND 7 = 0"
    using t' and_7_add [OF n(1)] fb by (simp add: frame_blocks_def)
  ultimately obtain u where tu: "reaches lay code t u" and u: "malloc_marks lay k i ret t u"
    using marks [OF t(2), of data tp "rsp s"] t' w fb by (auto simp: saved_simps)
  show "\<exists>t. returns lay code s t \<and> rax t = frame_at k i \<and> ld 8 (frame_at k i + (2 ^ (6 + k) - 8)) (mm t) = flag_at k i
     \<and> keeps [(rsp s - 0x68, 0x68), (fake_stack + 8 * of_nat k, 8), (flag_at k i, 1), (frame_at k i, 2 ^ (6 + k)),
         (shadow (frame_at k i), 2 ^ (3 + k))] (mm s) (mm t)"
    by (rule malloc_assembly [OF m run \<open>\<not> df s\<close> w \<open>k < 3\<close> less n reaches_trans [OF st tu] malloc_calls_of [OF w fb \<open>k < 3\<close> t(1) u] ends])
qed

section \<open>Class 0\<close>

lemma malloc_0_finds:
  assumes p: "placed code base asan_stack_malloc_0_code" and "rip (s :: xstate) = base" and run: "runtime lay data (gs s) tp (mm s)"
    and w: "scattered (world data (gs s) tp (rsp s) 0x28)" and fb: "frame_blocks 0 i"
    and "ld 8 (fake_stack + 8 * of_nat 0) (mm s) AND mask (14 - 0) = i" and "mm s (flag_at 0 i) = 0"
  shows "\<exists>t. reaches lay code s t \<and> malloc_finds 0 i s t \<and> rip t = 0xEF + base \<and> r8 t + rdi t = frame_at 0 i"
proof -
  note fetch = p [unfolded placed_def asan_stack_malloc_0_code_def list.pred_inject split_conv add_0_left]
  note fb = fb [unfolded frame_blocks_def flag_at_def, simplified]
  have "scattered [(rsp s - 0x28, 0x30), (data, 0x140), (gs s + 0x28, 8), (tp - 0x48, 8), (0x600000000000, 0x58),
      (0x600000000058, 9), (0x600000001000 + i, 1)]"
    by (rule scattered_of [OF w, of "[0, 1, 2, 3, 4, 5, 6]"]) (simp_all add: world_def arena_blocks_def fb)
  note sep = scattered_spread [OF this, unfolded spread.simps list.pred_inject split_conv]
  have "ld (Suc 0) (0x600000001000 + i) (mm s) = 0" using assms(7) by (simp add: flag_at_def ld_1)
  moreover have "merge 8 20 0x10F = 0xF" by (simp add: merge_def mask_eq_exp_minus_1)
  ultimately have "\<exists>t. run lay code 46 s = Some t \<and> malloc_finds 0 i s t \<and> rip t = 0xEF + base \<and> r8 t + rdi t = frame_at 0 i"
    using assms(2,6) runtime_reads [OF run]
    by (simp add: malloc_finds_def x86 fetch saved_simps fake_stack_def sep flag_at_def frame_at_def keeps_refl keeps_st covers_def)
  then show ?thesis by (blast intro: reaches_run)
qed

lemma malloc_0_marks:
  assumes p: "placed code base asan_stack_malloc_0_code" and at: "rip (s :: xstate) = 0xEF + base" "r8 s + rdi s = frame_at 0 i"
    and run: "runtime lay data (gs s) tp (mm s)" and sp: "rsp s = sp - 0x28"
    and w: "scattered (world data (gs s) tp sp 0x68)" and fb: "frame_blocks 0 i"
    and fr: "rax s = frame_at 0 i" "rsi s = flag_at 0 i" and al: "(rbx s + frame_at 0 i) AND 7 = 0"
  shows "\<exists>t. reaches lay code s t \<and> malloc_marks lay 0 i (0x21E + base) s t"
proof -
  note fetch = p [unfolded placed_def asan_stack_malloc_0_code_def list.pred_inject split_conv add_0_left]
  define fr where "fr = frame_at 0 i"
  have "scattered [(sp - 0x68, 0x70), (data, 0x140), (gs s + 0x28, 8), (tp - 0x48, 8), (flag_at 0 i, 1), (fr, 0x40), (shadow fr, 8)]"
    using world_frame [OF w fb] by (simp add: fr_def clear_def)
  note sep = scattered_spread [OF this, unfolded spread.simps list.pred_inject split_conv]
  have high: "0x10007FFF8000 < fr" "\<not> 0x00007FFFFFFFFFFF < fr" "\<not> fr < 0x7FFF8000"
    using fb frame_high [of fr] by (simp_all add: frame_blocks_def fr_def)
  have "\<exists>t. run lay code 38 s = Some t \<and> malloc_marks lay 0 i (0x21E + base) s t"
    using at fr al sp unfolding malloc_marks_def fr_def [symmetric]
    by (simp add: x86 fetch saved_simps runtime_reads [OF run] sep high take_bit_8_and_7 keeps_refl keeps_st covers_def shadow_def)
  then show ?thesis by (blast intro: reaches_run)
qed

lemma malloc_0_ends: "placed code base asan_stack_malloc_0_code \<Longrightarrow> malloc_ends lay code (0x21E + base)"
proof -
  assume p: "placed code base asan_stack_malloc_0_code"
  note fetch = p [unfolded placed_def asan_stack_malloc_0_code_def list.pred_inject split_conv add_0_left]
  have "\<exists>u. run lay code 7 t = Some u \<and> malloc_end t u" if "rip t = 0x21E + base" for t
    using that by (simp add: malloc_end_def x86 fetch saved_simps)
  then show ?thesis unfolding malloc_ends_def by (blast intro: reaches_run)
qed

lemma mallocs_0:
  assumes m: "machine lay code"
  shows "mallocs lay code (lay (Fn 0)) 0"
proof -
  have p: "placed code (lay (Fn 0)) asan_stack_malloc_0_code" using m by (simp add: machine_def)
  show ?thesis
  proof (rule mallocs_of [OF m, where found = "\<lambda>t fr. rip t = 0xEF + lay (Fn 0) \<and> r8 t + rdi t = fr"])
    show "0 < (3 :: nat)" by simp
  qed (rule malloc_0_finds [OF p] malloc_0_marks [OF p] malloc_0_ends [OF p]; (elim conjE)?; assumption)+
qed

section \<open>Class 1\<close>

lemma malloc_1_finds:
  assumes p: "placed code base asan_stack_malloc_1_code" and "rip (s :: xstate) = base" and run: "runtime lay data (gs s) tp (mm s)"
    and w: "scattered (world data (gs s) tp (rsp s) 0x28)" and fb: "frame_blocks 1 i"
    and "ld 8 (fake_stack + 8 * of_nat 1) (mm s) AND mask (14 - 1) = i" and "mm s (flag_at 1 i) = 0"
  shows "\<exists>t. reaches lay code s t \<and> malloc_finds 1 i s t \<and> rip t = 0x119 + base \<and> r9 t + r8 t = frame_at 1 i"
proof -
  note fetch = p [unfolded placed_def asan_stack_malloc_1_code_def list.pred_inject split_conv add_0_left]
  note fb = fb [unfolded frame_blocks_def flag_at_def, simplified]
  have "scattered [(rsp s - 0x28, 0x30), (data, 0x140), (gs s + 0x28, 8), (tp - 0x48, 8), (0x600000000000, 0x58),
      (0x600000000058, 9), (0x600000005000 + i, 1)]"
    by (rule scattered_of [OF w, of "[0, 1, 2, 3, 4, 5, 7]"]) (simp_all add: world_def arena_blocks_def fb)
  note sep = scattered_spread [OF this, unfolded spread.simps list.pred_inject split_conv]
  have "ld (Suc 0) (0x600000005000 + i) (mm s) = 0" using assms(7) by (simp add: flag_at_def ld_1)
  moreover have "merge 8 20 0x10F = 0xF" by (simp add: merge_def mask_eq_exp_minus_1)
  ultimately have "\<exists>t. run lay code 56 s = Some t \<and> malloc_finds 1 i s t \<and> rip t = 0x119 + base \<and> r9 t + r8 t = frame_at 1 i"
    using assms(2,6) runtime_reads [OF run]
    by (simp add: malloc_finds_def x86 fetch saved_simps fake_stack_def sep flag_at_def frame_at_def keeps_refl keeps_st covers_def)
  then show ?thesis by (blast intro: reaches_run)
qed

lemma malloc_1_marks:
  assumes p: "placed code base asan_stack_malloc_1_code" and at: "rip (s :: xstate) = 0x119 + base" "r9 s + r8 s = frame_at 1 i"
    and run: "runtime lay data (gs s) tp (mm s)" and sp: "rsp s = sp - 0x28"
    and w: "scattered (world data (gs s) tp sp 0x68)" and fb: "frame_blocks 1 i"
    and fr: "rax s = frame_at 1 i" "rsi s = flag_at 1 i" and al: "(rbx s + frame_at 1 i) AND 7 = 0"
  shows "\<exists>t. reaches lay code s t \<and> malloc_marks lay 1 i (0x253 + base) s t"
proof -
  note fetch = p [unfolded placed_def asan_stack_malloc_1_code_def list.pred_inject split_conv add_0_left]
  define fr where "fr = frame_at 1 i"
  have "scattered [(sp - 0x68, 0x70), (data, 0x140), (gs s + 0x28, 8), (tp - 0x48, 8), (flag_at 1 i, 1), (fr, 0x80), (shadow fr, 0x10)]"
    using world_frame [OF w fb] by (simp add: fr_def clear_def)
  note sep = scattered_spread [OF this, unfolded spread.simps list.pred_inject split_conv]
  have high: "0x10007FFF8000 < fr" "\<not> 0x00007FFFFFFFFFFF < fr" "\<not> fr < 0x7FFF8000"
    using fb frame_high [of fr] by (simp_all add: frame_blocks_def fr_def)
  have "\<exists>t. run lay code 39 s = Some t \<and> malloc_marks lay 1 i (0x253 + base) s t"
    using at fr al sp unfolding malloc_marks_def fr_def [symmetric]
    by (simp add: x86 fetch saved_simps runtime_reads [OF run] sep high take_bit_8_and_7 keeps_refl keeps_st covers_def shadow_def)
  then show ?thesis by (blast intro: reaches_run)
qed

lemma malloc_1_ends: "placed code base asan_stack_malloc_1_code \<Longrightarrow> malloc_ends lay code (0x253 + base)"
proof -
  assume p: "placed code base asan_stack_malloc_1_code"
  note fetch = p [unfolded placed_def asan_stack_malloc_1_code_def list.pred_inject split_conv add_0_left]
  have "\<exists>u. run lay code 7 t = Some u \<and> malloc_end t u" if "rip t = 0x253 + base" for t
    using that by (simp add: malloc_end_def x86 fetch saved_simps)
  then show ?thesis unfolding malloc_ends_def by (blast intro: reaches_run)
qed

lemma mallocs_1:
  assumes m: "machine lay code"
  shows "mallocs lay code (lay (Fn 1)) 1"
proof -
  have p: "placed code (lay (Fn 1)) asan_stack_malloc_1_code" using m by (simp add: machine_def)
  show ?thesis
  proof (rule mallocs_of [OF m, where found = "\<lambda>t fr. rip t = 0x119 + lay (Fn 1) \<and> r9 t + r8 t = fr"])
    show "1 < (3 :: nat)" by simp
  qed (rule malloc_1_finds [OF p] malloc_1_marks [OF p] malloc_1_ends [OF p]; (elim conjE)?; assumption)+
qed

section \<open>Class 2\<close>

lemma malloc_2_finds:
  assumes p: "placed code base asan_stack_malloc_2_code" and "rip (s :: xstate) = base" and run: "runtime lay data (gs s) tp (mm s)"
    and w: "scattered (world data (gs s) tp (rsp s) 0x28)" and fb: "frame_blocks 2 i"
    and "ld 8 (fake_stack + 8 * of_nat 2) (mm s) AND mask (14 - 2) = i" and "mm s (flag_at 2 i) = 0"
  shows "\<exists>t. reaches lay code s t \<and> malloc_finds 2 i s t \<and> rip t = 0x119 + base \<and> r9 t + r8 t = frame_at 2 i"
proof -
  note fetch = p [unfolded placed_def asan_stack_malloc_2_code_def list.pred_inject split_conv add_0_left]
  note fb = fb [unfolded frame_blocks_def flag_at_def, simplified]
  have "scattered [(rsp s - 0x28, 0x30), (data, 0x140), (gs s + 0x28, 8), (tp - 0x48, 8), (0x600000000000, 0x58),
      (0x600000000058, 9), (0x600000007000 + i, 1)]"
    by (rule scattered_of [OF w, of "[0, 1, 2, 3, 4, 5, 8]"]) (simp_all add: world_def arena_blocks_def fb)
  note sep = scattered_spread [OF this, unfolded spread.simps list.pred_inject split_conv]
  have "ld (Suc 0) (0x600000007000 + i) (mm s) = 0" using assms(7) by (simp add: flag_at_def ld_1)
  moreover have "merge 8 20 0x10F = 0xF" by (simp add: merge_def mask_eq_exp_minus_1)
  ultimately have "\<exists>t. run lay code 56 s = Some t \<and> malloc_finds 2 i s t \<and> rip t = 0x119 + base \<and> r9 t + r8 t = frame_at 2 i"
    using assms(2,6) runtime_reads [OF run]
    by (simp add: malloc_finds_def x86 fetch saved_simps fake_stack_def sep flag_at_def frame_at_def keeps_refl keeps_st covers_def)
  then show ?thesis by (blast intro: reaches_run)
qed

lemma malloc_2_marks:
  assumes p: "placed code base asan_stack_malloc_2_code" and at: "rip (s :: xstate) = 0x119 + base" "r9 s + r8 s = frame_at 2 i"
    and run: "runtime lay data (gs s) tp (mm s)" and sp: "rsp s = sp - 0x28"
    and w: "scattered (world data (gs s) tp sp 0x68)" and fb: "frame_blocks 2 i"
    and fr: "rax s = frame_at 2 i" "rsi s = flag_at 2 i" and al: "(rbx s + frame_at 2 i) AND 7 = 0"
  shows "\<exists>t. reaches lay code s t \<and> malloc_marks lay 2 i (0x26F + base) s t"
proof -
  note fetch = p [unfolded placed_def asan_stack_malloc_2_code_def list.pred_inject split_conv add_0_left]
  define fr where "fr = frame_at 2 i"
  have "scattered [(sp - 0x68, 0x70), (data, 0x140), (gs s + 0x28, 8), (tp - 0x48, 8), (flag_at 2 i, 1), (fr, 0x100), (shadow fr, 0x20)]"
    using world_frame [OF w fb] by (simp add: fr_def clear_def)
  note sep = scattered_spread [OF this, unfolded spread.simps list.pred_inject split_conv]
  have high: "0x10007FFF8000 < fr" "\<not> 0x00007FFFFFFFFFFF < fr" "\<not> fr < 0x7FFF8000"
    using fb frame_high [of fr] by (simp_all add: frame_blocks_def fr_def)
  have "\<exists>t. run lay code 41 s = Some t \<and> malloc_marks lay 2 i (0x26F + base) s t"
    using at fr al sp unfolding malloc_marks_def fr_def [symmetric]
    by (simp add: x86 fetch saved_simps runtime_reads [OF run] sep high take_bit_8_and_7 keeps_refl keeps_st covers_def shadow_def)
  then show ?thesis by (blast intro: reaches_run)
qed

lemma malloc_2_ends: "placed code base asan_stack_malloc_2_code \<Longrightarrow> malloc_ends lay code (0x26F + base)"
proof -
  assume p: "placed code base asan_stack_malloc_2_code"
  note fetch = p [unfolded placed_def asan_stack_malloc_2_code_def list.pred_inject split_conv add_0_left]
  have "\<exists>u. run lay code 7 t = Some u \<and> malloc_end t u" if "rip t = 0x26F + base" for t
    using that by (simp add: malloc_end_def x86 fetch saved_simps)
  then show ?thesis unfolding malloc_ends_def by (blast intro: reaches_run)
qed

lemma mallocs_2:
  assumes m: "machine lay code"
  shows "mallocs lay code (lay (Fn 2)) 2"
proof -
  have p: "placed code (lay (Fn 2)) asan_stack_malloc_2_code" using m by (simp add: machine_def)
  show ?thesis
  proof (rule mallocs_of [OF m, where found = "\<lambda>t fr. rip t = 0x119 + lay (Fn 2) \<and> r9 t + r8 t = fr"])
    show "2 < (3 :: nat)" by simp
  qed (rule malloc_2_finds [OF p] malloc_2_marks [OF p] malloc_2_ends [OF p]; (elim conjE)?; assumption)+
qed

end
