(* ===== verification/Payload_Lambda.thy ===== *)
theory Payload_Lambda
  imports Payload
begin

text \<open>
  The lambda that absorbs bytes into the hash (\<open>sdc_rbx_fn_11\<close>): at \<open>-O0\<close>, with a check of the
  shadow byte before each access. Its loop is followed round by round.
\<close>

section \<open>The listing\<close>

definition hash_lambda_code :: "symbol listing" where
  "hash_lambda_code = [
    (0, Push RBP, 1),
    (1, Mov (Reg W64 RSP) (Reg W64 RBP), 3),
    (4, Alu Sub_op (Imm 0x60) (Reg W64 RSP), 4),
    (8, Mov (Reg W64 RDI) (At W64 (- 0x8) RBP), 4),
    (0xC, Mov (Reg W64 RSI) (At W64 (- 0x10) RBP), 4),
    (0x10, Mov (Reg W64 RDX) (At W64 (- 0x18) RBP), 4),
    (0x14, Mov (At W64 (- 0x8) RBP) (Reg W64 RCX), 4),
    (0x18, Mov (Reg W64 RCX) (At W64 (- 0x28) RBP), 4),
    (0x1C, Cmp (Imm 0) (Reg W64 RCX), 4),
    (0x20, Set CC_NE (Reg W8 RAX), 3),
    (0x23, Alu And_op (Imm 7) (Reg W64 RCX), 4),
    (0x27, Cmp (Imm 0) (Reg W64 RCX), 4),
    (0x2B, Set CC_E (Reg W8 RCX), 3),
    (0x2E, Alu And_op (Reg W8 RCX) (Reg W8 RAX), 2),
    (0x30, Test (Imm 1) (Reg W8 RAX), 2),
    (0x32, J CC_NE 0x10, 2),
    (0x34, Mov (At W64 (- 0x28) RBP) (Reg W64 RSI), 4),
    (0x38, Lea (Rip W64 D_Dummy 0) (Reg W64 RDI), 7),
    (0x3F, Call (Trap 15), 5),
    (0x44, Mov (Imm 0) (At W64 (- 0x20) RBP), 8),
    (0x4C, Mov (At W64 (- 0x20) RBP) (Reg W64 RAX), 4),
    (0x50, Cmp (At W64 (- 0x18) RBP) (Reg W64 RAX), 4),
    (0x54, J CC_B 5, 2),
    (0x56, Jmp 0x14C, 5),
    (0x5B, Mov (At W64 (- 0x10) RBP) (Reg W64 RSI), 4),
    (0x5F, Mov (Reg W64 RSI) (At W64 (- 0x40) RBP), 4),
    (0x63, Mov (At W64 (- 0x20) RBP) (Reg W64 RDI), 4),
    (0x67, Test (Reg W64 RSI) (Reg W64 RSI), 3),
    (0x6A, Set CC_NE (Reg W8 RAX), 3),
    (0x6D, Alu Xor_op (Reg W32 RDX) (Reg W32 RDX), 2),
    (0x6F, Mov (Reg W64 RSI) (Reg W64 RCX), 3),
    (0x72, Alu Add_op (Reg W64 RDI) (Reg W64 RCX), 3),
    (0x75, Mov (Reg W64 RCX) (At W64 (- 0x38) RBP), 4),
    (0x79, Mov (Reg W64 RCX) (At W64 (- 0x30) RBP), 4),
    (0x7D, Set CC_NE (Reg W8 RDI), 4),
    (0x81, Alu Xor_op (Reg W8 RDI) (Reg W8 RAX), 3),
    (0x84, Alu Xor_op (Imm 1) (Reg W8 RAX), 2),
    (0x86, Alu Xor_op (Imm 0xFF) (Reg W8 RDX), 3),
    (0x89, Cmp (Reg W64 RSI) (Reg W64 RCX), 3),
    (0x8C, Set CC_AE (Reg W8 RCX), 3),
    (0x8F, Alu And_op (Reg W8 RDX) (Reg W8 RCX), 2),
    (0x91, Alu And_op (Reg W8 RCX) (Reg W8 RAX), 2),
    (0x93, Test (Imm 1) (Reg W8 RAX), 2),
    (0x95, J CC_NE 0x14, 2),
    (0x97, Mov (At W64 (- 0x30) RBP) (Reg W64 RDX), 4),
    (0x9B, Mov (At W64 (- 0x40) RBP) (Reg W64 RSI), 4),
    (0x9F, Lea (Rip W64 D_Dummy 0) (Reg W64 RDI), 7),
    (0xA6, Call (Trap 21), 5),
    (0xAB, Mov (At W64 (- 0x38) RBP) (Reg W64 RAX), 4),
    (0xAF, Cmp (Imm 0) (Reg W64 RAX), 4),
    (0xB3, J CC_NE 0x10, 2),
    (0xB5, Mov (At W64 (- 0x38) RBP) (Reg W64 RSI), 4),
    (0xB9, Lea (Rip W64 D_Dummy 0) (Reg W64 RDI), 7),
    (0xC0, Call (Trap 15), 5),
    (0xC5, Mov (At W64 (- 0x38) RBP) (Reg W64 RAX), 4),
    (0xC9, Shr 3 (Reg W64 RAX), 4),
    (0xCD, Mov (At W8 0x7FFF8000 RAX) (Reg W8 RAX), 6),
    (0xD3, Mov (Reg W8 RAX) (At W8 (- 0x41) RBP), 3),
    (0xD6, Cmp (Imm 0) (Reg W8 RAX), 2),
    (0xD8, J CC_E 0x18, 2),
    (0xDA, Mov (At W8 (- 0x41) RBP) (Reg W8 RCX), 3),
    (0xDD, Mov (At W64 (- 0x38) RBP) (Reg W64 RAX), 4),
    (0xE1, Alu And_op (Imm 7) (Reg W64 RAX), 4),
    (0xE5, Cmp (Reg W8 RCX) (Reg W8 RAX), 2),
    (0xE7, J CC_L 9, 2),
    (0xE9, Mov (At W64 (- 0x38) RBP) (Reg W64 RDI), 4),
    (0xED, Call (Trap 3), 5),
    (0xF2, Mov (At W64 (- 0x28) RBP) (Reg W64 RAX), 4),
    (0xF6, Mov (At W64 (- 0x38) RBP) (Reg W64 RCX), 4),
    (0xFA, Mov (At W8 0 RCX) (Reg W32 RCX), 3),
    (0xFD, Mov (Reg W64 RCX) (At W64 (- 0x50) RBP), 4),
    (0x101, Shr 3 (Reg W64 RAX), 4),
    (0x105, Cmp (Imm 0) (At W8 0x7FFF8000 RAX), 7),
    (0x10C, J CC_E 9, 2),
    (0x10E, Mov (At W64 (- 0x28) RBP) (Reg W64 RDI), 4),
    (0x112, Call (Trap 5), 5),
    (0x117, Mov (At W64 (- 0x28) RBP) (Reg W64 RAX), 4),
    (0x11B, Mov (At W64 0 RAX) (Reg W64 RAX), 3),
    (0x11E, Mov (Reg W64 RAX) (At W64 (- 0x58) RBP), 4),
    (0x122, Shr 3 (Reg W64 RAX), 4),
    (0x126, Cmp (Imm 0) (At W8 0x7FFF8000 RAX), 7),
    (0x12D, J CC_E 9, 2),
    (0x12F, Mov (At W64 (- 0x58) RBP) (Reg W64 RDI), 4),
    (0x133, Call (Trap 5), 5),
    (0x138, Mov (At W64 (- 0x28) RBP) (Reg W64 RAX), 4),
    (0x13C, Mov (At W64 (- 0x58) RBP) (Reg W64 RCX), 4),
    (0x140, Mov (At W64 (- 0x50) RBP) (Reg W64 RDX), 4),
    (0x144, Alu Xor_op (At W64 0 RCX) (Reg W64 RDX), 3),
    (0x147, Mov (Reg W64 RDX) (At W64 0 RCX), 3),
    (0x14A, Shr 3 (Reg W64 RAX), 4),
    (0x14E, Cmp (Imm 0) (At W8 0x7FFF8000 RAX), 7),
    (0x155, J CC_E 9, 2),
    (0x157, Mov (At W64 (- 0x28) RBP) (Reg W64 RDI), 4),
    (0x15B, Call (Trap 5), 5),
    (0x160, Mov (At W64 (- 0x28) RBP) (Reg W64 RAX), 4),
    (0x164, Mov (At W64 0 RAX) (Reg W64 RAX), 3),
    (0x167, Mov (Reg W64 RAX) (At W64 (- 0x60) RBP), 4),
    (0x16B, Shr 3 (Reg W64 RAX), 4),
    (0x16F, Cmp (Imm 0) (At W8 0x7FFF8000 RAX), 7),
    (0x176, J CC_E 9, 2),
    (0x178, Mov (At W64 (- 0x60) RBP) (Reg W64 RDI), 4),
    (0x17C, Call (Trap 5), 5),
    (0x181, Mov (At W64 (- 0x60) RBP) (Reg W64 RAX), 4),
    (0x185, Mov (Imm 0x100000001B3) (Reg W64 RCX), 10),
    (0x18F, Imul (At W64 0 RAX) (Reg W64 RCX), 4),
    (0x193, Mov (Reg W64 RCX) (At W64 0 RAX), 3),
    (0x196, Mov (At W64 (- 0x20) RBP) (Reg W64 RAX), 4),
    (0x19A, Alu Add_op (Imm 1) (Reg W64 RAX), 4),
    (0x19E, Mov (Reg W64 RAX) (At W64 (- 0x20) RBP), 4),
    (0x1A2, Jmp (- 0x15B), 5),
    (0x1A7, Alu Add_op (Imm 0x60) (Reg W64 RSP), 4),
    (0x1AB, Pop RBP, 1),
    (0x1AC, Ret, 1)
  ]"

section \<open>The loop\<close>

text \<open>The arguments of a call and its return address; \<open>fp\<close> is its frame pointer.\<close>

definition lambda_frame :: "u64 \<Rightarrow> u64 \<Rightarrow> extents" where
  "lambda_frame fp cell = [(fp - 0x60, 0x70), (cell, 8)]"

definition lambda_args :: "u64 \<Rightarrow> u64 \<Rightarrow> u64 \<Rightarrow> u64 \<Rightarrow> u64 \<Rightarrow> (u64 \<Rightarrow> u8) \<Rightarrow> bool" where
  "lambda_args fp this cell buf n m \<longleftrightarrow> this \<noteq> 0 \<and> this AND 7 = 0
     \<and> apart cell 8 (fp - 0x60) 0x70
     \<and> clear (lambda_frame fp cell) this 8
     \<and> clear (lambda_frame fp cell) (shadow this) 1 \<and> m (shadow this) = 0
     \<and> clear (lambda_frame fp cell) (shadow cell) 1 \<and> m (shadow cell) = 0
     \<and> (n \<noteq> 0 \<longrightarrow> buf \<noteq> 0 \<and> n \<le> - buf)
     \<and> (\<forall>i<n. clear (lambda_frame fp cell) (buf + i) 1 \<and> clear (lambda_frame fp cell) (shadow (buf + i)) 1
          \<and> addressable m (buf + i))"

definition lambda_head :: "u64 \<Rightarrow> u64 \<Rightarrow> u64 \<Rightarrow> u64 \<Rightarrow> u64 \<Rightarrow> u64 \<Rightarrow> u64 \<Rightarrow> xstate \<Rightarrow> bool" where
  \<comment> \<open>at the test of the loop, before round \<open>i\<close>\<close>
  "lambda_head base fp this cell buf n i s \<longleftrightarrow>
     rip s = 0x4C + base \<and> rbp s = fp \<and> ld 8 this (mm s) = cell
     \<and> ld 8 (fp - 0x28) (mm s) = this \<and> ld 8 (fp - 0x10) (mm s) = buf
     \<and> ld 8 (fp - 0x18) (mm s) = n \<and> ld 8 (fp - 0x20) (mm s) = i"

lemma lambda_check:
  assumes p: "placed code base hash_lambda_code" and args: "lambda_args fp this cell buf n (mm s)"
    and "lambda_head base fp this cell buf n i s" and "i < n"
  shows "\<exists>k t. run lay code k s = Some t \<and> rip t = 0xF2 + base \<and> rbp t = fp \<and> rsp t = rsp s \<and> saved t = saved s
    \<and> ld 8 (fp - 0x38) (mm t) = buf + i \<and> keeps [(fp - 0x60, 0x38)] (mm s) (mm t)"
proof -
  note fetch = p [unfolded placed_def hash_lambda_code_def list.pred_inject split_conv add_0_left]
  have ok: "buf \<noteq> 0" "n \<le> - buf" and "apart (buf + i) 1 (fp - 0x60) 0x70"
    and "apart (shadow (buf + i)) 1 (fp - 0x60) 0x70" and addr: "addressable (mm s) (buf + i)"
    using args \<open>i < n\<close> by (auto simp: lambda_args_def clear_def lambda_frame_def)
  note sep = this(3,4)
  note sep = sep [THEN apart_within(1)] sep [THEN apart_within(2)]
  note ex = x86 fetch add_no_wrap [OF \<open>i < n\<close> ok(2,1)] saved_simps keeps_refl keeps_st covers_def take_bit_8_and_7
  show ?thesis
  proof (cases "mm s (shadow (buf + i)) = 0")
    case True
    then have "ld (Suc 0) (shadow (buf + i)) (mm s) = 0" by (simp add: ld_1)
    with assms(3,4) ok show ?thesis
      by (intro exI [of _ 32]) (simp add: ex sep [unfolded shadow_def] lambda_head_def shadow_def)
  next
    case False
    let ?s = "ld (Suc 0) (shadow (buf + i)) (mm s)"
    have "(buf + i) AND 7 < ?s" "?s < 0x80" "?s \<noteq> 0"
      using False addr by (auto simp: addressable_def ld_1 Let_def)
    with assms(3,4) ok show ?thesis
      by (intro exI [of _ 37]) (simp add: ex sep [unfolded shadow_def] lambda_head_def shadow_def less_signed_small)
  qed
qed

lemma fnv_step_ld: "1099511628211 * (ld (Suc 0) a m XOR h) = fnv_step h (m a)"
  by (simp add: fnv_step_def k_fnv_prime_def ld_1 ac_simps)

lemma lambda_absorb:
  assumes p: "placed code base hash_lambda_code" and args: "lambda_args fp this cell buf n m"
    and "rip s = 0xF2 + base" "rbp s = fp" "ld 8 this (mm s) = cell" "ld 8 (fp - 0x28) (mm s) = this"
    and "ld 8 (fp - 0x38) (mm s) = buf + i" "ld 8 (fp - 0x20) (mm s) = i"
    and "mm s (shadow this) = 0" "mm s (shadow cell) = 0" and "i < n"
  shows "\<exists>k t. run lay code k s = Some t \<and> rip t = 0x4C + base \<and> rbp t = fp \<and> rsp t = rsp s \<and> saved t = saved s
    \<and> ld 8 (fp - 0x20) (mm t) = i + 1 \<and> ld 8 cell (mm t) = fnv_step (ld 8 cell (mm s)) (mm s (buf + i))
    \<and> keeps [(fp - 0x60, 0x38), (fp - 0x20, 8), (cell, 8)] (mm s) (mm t)"
proof -
  note fetch = p [unfolded placed_def hash_lambda_code_def list.pred_inject split_conv add_0_left]
  have "apart (buf + i) 1 (fp - 0x60) 0x70" "apart this 8 (fp - 0x60) 0x70" "apart cell 8 (fp - 0x60) 0x70"
    "apart (shadow this) 1 (fp - 0x60) 0x70" "apart (shadow cell) 1 (fp - 0x60) 0x70"
    and "apart this 8 cell 8" "apart (shadow this) 1 cell 8" "apart (shadow cell) 1 cell 8"
    using args \<open>i < n\<close> by (auto simp: lambda_args_def clear_def lambda_frame_def)
  note sep = this(1-5) [THEN apart_within(1)] this(1-5) [THEN apart_within(2)] this(6-8)
  have "ld (Suc 0) (shadow this) (mm s) = 0" "ld (Suc 0) (shadow cell) (mm s) = 0"
    using assms by (simp_all add: ld_1)
  with assms(3-8) show ?thesis
    by (intro exI [of _ 35]) (simp add: x86 fetch saved_simps keeps_refl keeps_st covers_def sep [unfolded shadow_def]
        shadow_def fnv_step_ld)
qed

text \<open>What the rounds keep, and what they have done after \<open>i\<close> of them.\<close>

definition hashed :: "(u64 \<Rightarrow> u8) \<Rightarrow> u64 \<Rightarrow> u64 \<Rightarrow> u64 \<Rightarrow> u64" where
  "hashed m buf h i = foldl fnv_step h (map (\<lambda>j. m (buf + of_nat j)) [0..<unat i])"

lemma hashed_Suc: "i < n \<Longrightarrow> hashed m buf h (i + 1) = fnv_step (hashed m buf h i) (m (buf + i))"
proof -
  assume "i < n"
  have "1 + i \<noteq> 0"
  proof
    assume "1 + i = 0"
    then have "i = - 1" by (simp add: add_eq_0_iff)
    with \<open>i < n\<close> show False using word_n1_ge [of n] by simp
  qed
  then have "unat (i + 1) = Suc (unat i)" by (simp add: unatSuc add.commute)
  then show ?thesis by (simp add: hashed_def)
qed

lemma hashed_cong:
  assumes "\<And>i. i < n \<Longrightarrow> m (buf + i) = m' (buf + i)"
  shows "hashed m buf h n = hashed m' buf h n"
proof -
  have "of_nat i < n" if "i < unat n" for i
    using that by (simp add: word_less_nat_alt unat_of_nat)
  with assms have "map (\<lambda>j. m (buf + of_nat j)) [0..<unat n] = map (\<lambda>j. m' (buf + of_nat j)) [0..<unat n]" by simp
  then show ?thesis by (simp only: hashed_def)
qed

definition lambda_done :: "u64 \<Rightarrow> u64 \<Rightarrow> u64 \<Rightarrow> u64 \<Rightarrow> u64 \<Rightarrow> u64 \<Rightarrow> u64 \<Rightarrow> xstate \<Rightarrow> xstate \<Rightarrow> bool" where
  "lambda_done base fp this cell buf n i s t \<longleftrightarrow>
     lambda_head base fp this cell buf n i t \<and> rsp t = rsp s \<and> saved t = saved s
     \<and> ld 8 cell (mm t) = hashed (mm s) buf (ld 8 cell (mm s)) i
     \<and> keeps [(fp - 0x60, 0x38), (fp - 0x20, 8), (cell, 8)] (mm s) (mm t)"

lemma clear_frame:
  assumes "clear (lambda_frame fp cell) a k"
  shows "clear [(fp - 0x60, 0x38), (fp - 0x20, 8), (cell, 8)] a k"
proof -
  have "apart a k (fp - 0x60) 0x70" "apart a k cell 8" using assms(1) by (simp_all add: clear_def lambda_frame_def)
  with apart_within(1) [OF this(1)] show ?thesis by (simp add: clear_def inside_offsets)
qed

lemma lambda_args_keeps:
  assumes "lambda_args fp this cell buf n m" and "keeps [(fp - 0x60, 0x38), (fp - 0x20, 8), (cell, 8)] m m'"
  shows "lambda_args fp this cell buf n m'"
proof -
  have *: "m' a = m a" if "clear (lambda_frame fp cell) a 1" for a
    using keeps_ld [OF assms(2), of a 1] clear_frame [OF that] by (simp add: ld_1)
  with assms(1) show ?thesis by (auto simp: lambda_args_def addressable_def)
qed

lemma lambda_round:
  assumes p: "placed code base hash_lambda_code" and args: "lambda_args fp this cell buf n (mm s)"
    and inv: "lambda_done base fp this cell buf n i s t" and "i < n"
  shows "\<exists>u. reaches lay code t u \<and> lambda_done base fp this cell buf n (i + 1) s u"
proof -
  let ?W = "[(fp - 0x60, 0x38), (fp - 0x20, 8), (cell, 8)]"
  have kt: "keeps ?W (mm s) (mm t)" and head: "lambda_head base fp this cell buf n i t"
    using inv by (simp_all add: lambda_done_def)
  have args_t: "lambda_args fp this cell buf n (mm t)" by (rule lambda_args_keeps [OF args kt])
  from lambda_check [OF p args_t head \<open>i < n\<close>, of lay] obtain k v where
    v: "run lay code k t = Some v" "rip v = 0xF2 + base" "rbp v = fp" "rsp v = rsp t" "saved v = saved t"
      "ld 8 (fp - 0x38) (mm v) = buf + i" "keeps [(fp - 0x60, 0x38)] (mm t) (mm v)" by blast
  have kv: "keeps ?W (mm t) (mm v)" by (rule keeps_mono [OF v(7)]) (simp add: covers_def inside_offsets)
  have args_v: "lambda_args fp this cell buf n (mm v)" by (rule lambda_args_keeps [OF args_t kv])
  have other: "mm v a = mm s a" if "clear (lambda_frame fp cell) a 1" for a
    using keeps_ld [OF keeps_trans [OF kt kv], of a 1] clear_frame [OF that] by (simp add: ld_1)
  have sep: "clear [(fp - 0x60, 0x38)] a l" if "clear (lambda_frame fp cell) a l" for a l
    using clear_frame [OF that] by (simp add: clear_def)
  have c: "clear (lambda_frame fp cell) this 8" "apart cell 8 (fp - 0x60) 0x70" "clear (lambda_frame fp cell) (buf + i) 1"
    using args \<open>i < n\<close> by (simp_all add: lambda_args_def)
  have slots: "ld 8 (fp - 0x28) (mm v) = this" "ld 8 (fp - 0x20) (mm v) = i" "ld 8 this (mm v) = cell"
    "ld 8 cell (mm v) = ld 8 cell (mm t)"
    using head keeps_ld [OF v(7)] sep [OF c(1)] c(2) apart_within(1) [OF c(2)]
    by (simp_all add: lambda_head_def clear_def apart_offsets inside_offsets)
  from lambda_absorb [OF p args_v v(2,3) slots(3,1) v(6) slots(2) _ _ \<open>i < n\<close>, of lay] obtain k' u where
    u: "run lay code k' v = Some u" "rip u = 0x4C + base" "rbp u = fp" "rsp u = rsp v" "saved u = saved v"
      "ld 8 (fp - 0x20) (mm u) = i + 1" "ld 8 cell (mm u) = fnv_step (ld 8 cell (mm v)) (mm v (buf + i))"
      "keeps ?W (mm v) (mm u)"
    using args_v by (auto simp: lambda_args_def)
  have "lambda_head base fp this cell buf n (i + 1) u"
    using head u(2,3,6) keeps_ld [OF keeps_trans [OF kv u(8)]] clear_frame [OF c(1)] c(2) apart_within(2) [OF c(2)]
    by (simp add: lambda_head_def clear_def apart_offsets inside_offsets)
  moreover have "ld 8 cell (mm u) = hashed (mm s) buf (ld 8 cell (mm s)) (i + 1)"
    using u(7) slots(4) other [OF c(3)] inv by (simp add: lambda_done_def hashed_Suc [OF \<open>i < n\<close>])
  ultimately have "lambda_done base fp this cell buf n (i + 1) s u"
    using inv v u keeps_trans [OF kt keeps_trans [OF kv u(8)]] by (simp add: lambda_done_def)
  moreover have "reaches lay code t u" by (rule reaches_trans [OF reaches_run [OF v(1)] reaches_run [OF u(1)]])
  ultimately show ?thesis by blast
qed

lemma lambda_loop:
  assumes p: "placed code base hash_lambda_code" and args: "lambda_args fp this cell buf n (mm s)"
    and start: "lambda_done base fp this cell buf n 0 s t"
  shows "i \<le> n \<Longrightarrow> \<exists>u. reaches lay code t u \<and> lambda_done base fp this cell buf n i s u"
proof (induction "unat i" arbitrary: i)
  case 0
  then have "i = 0" by (simp add: unat_eq_0)
  with start reaches_refl show ?case by blast
next
  case (Suc k)
  have "i \<noteq> 0" using Suc.hyps(2) by auto
  then have k: "k = unat (i - 1)" using Suc.hyps(2) by (simp add: unat_minus_one)
  have less: "i - 1 < n" using \<open>i \<noteq> 0\<close> Suc.prems by unat_arith
  obtain u where "reaches lay code t u" "lambda_done base fp this cell buf n (i - 1) s u"
    using Suc.hyps(1) [OF k] less by (blast intro: less_imp_le)
  with lambda_round [OF p args this(2) less] show ?case by (auto intro: reaches_trans)
qed

lemma lambda_entry:
  assumes p: "placed code base hash_lambda_code" and args: "lambda_args fp this cell buf n (mm s)"
    and "rip s = base" "rsp s = fp + 8" "rdi s = this" "rsi s = buf" "rdx s = n" "ld 8 this (mm s) = cell"
  shows "\<exists>k t. run lay code k s = Some t \<and> lambda_head base fp this cell buf n 0 t \<and> rsp t = fp - 0x60
    \<and> saved t = saved (s\<lparr>rbp := fp\<rparr>) \<and> ld 8 fp (mm t) = rbp s \<and> keeps [(fp - 0x60, 0x68)] (mm s) (mm t)"
proof -
  note fetch = p [unfolded placed_def hash_lambda_code_def list.pred_inject split_conv add_0_left]
  have "apart this 8 (fp - 0x60) 0x70" "this \<noteq> 0" "this AND 7 = 0"
    using args by (simp_all add: lambda_args_def clear_def lambda_frame_def)
  note sep = apart_within [OF this(1)] and this(2,3)
  with assms(3-) show ?thesis
    by (intro exI [of _ 17]) (simp add: x86 fetch saved_simps keeps_refl keeps_st covers_def sep lambda_head_def)
qed

lemma lambda_exit:
  assumes p: "placed code base hash_lambda_code" and "lambda_head base fp this cell buf n n t" "rsp t = fp - 0x60"
  shows "\<exists>k u. run lay code k t = Some u \<and> rip u = ld 8 (fp + 8) (mm t) \<and> rsp u = fp + 0x10
    \<and> saved u = saved (t\<lparr>rbp := ld 8 fp (mm t)\<rparr>) \<and> mm u = mm t"
proof -
  note fetch = p [unfolded placed_def hash_lambda_code_def list.pred_inject split_conv add_0_left]
  show ?thesis
    using assms(2,3) by (intro exI [of _ 7]) (simp add: x86 fetch saved_simps lambda_head_def)
qed

section \<open>The call\<close>

lemma lambda_returns:
  assumes "placed code base hash_lambda_code" and "rip s = base"
    and "lambda_args (rsp s - 8) (rdi s) (ld 8 (rdi s) (mm s)) (rsi s) (rdx s) (mm s)"
  shows "\<exists>t. returns lay code s t
    \<and> ld 8 (ld 8 (rdi s) (mm s)) (mm t)
        = foldl fnv_step (ld 8 (ld 8 (rdi s) (mm s)) (mm s)) (map (\<lambda>i. mm s (rsi s + of_nat i)) [0..<unat (rdx s)])
    \<and> keeps [(rsp s - 0x68, 0x68), (ld 8 (rdi s) (mm s), 8)] (mm s) (mm t)"
proof -
  define fp where "fp = rsp s - 8"
  let ?obj = "rdi s" and ?buf = "rsi s" and ?n = "rdx s"
  let ?cell = "ld 8 ?obj (mm s)" and ?W = "[(fp - 0x60, 0x68), (ld 8 (rdi s) (mm s), 8)]"
  have sp: "rsp s = fp + 8" by (simp add: fp_def)
  have args: "lambda_args fp ?obj ?cell ?buf ?n (mm s)" using assms(3) by (simp add: fp_def)
  from lambda_entry [OF assms(1) args assms(2) sp refl refl refl refl, of lay] obtain k t where
    t: "run lay code k s = Some t" "lambda_head base fp ?obj ?cell ?buf ?n 0 t" "rsp t = fp - 0x60"
      "saved t = saved (s\<lparr>rbp := fp\<rparr>)" "ld 8 fp (mm t) = rbp s" "keeps [(fp - 0x60, 0x68)] (mm s) (mm t)" by blast
  have sep: "apart a l (fp - 0x60) 0x68" if "clear (lambda_frame fp ?cell) a l" for a l
    using that by (auto simp: clear_def lambda_frame_def inside_offsets intro: apart_within(1))
  have same: "mm t a = mm s a" if "clear (lambda_frame fp ?cell) a 1" for a
    using keeps_ld [OF t(6), of a 1] sep [OF that] by (simp add: clear_def ld_1)
  have args_t: "lambda_args fp ?obj ?cell ?buf ?n (mm t)"
    using args same by (auto simp: lambda_args_def addressable_def)
  have "lambda_done base fp ?obj ?cell ?buf ?n 0 t t" using t(2) by (simp add: lambda_done_def hashed_def keeps_refl)
  from lambda_loop [OF assms(1) args_t this order.refl, of lay] obtain u where
    u: "reaches lay code t u" "lambda_done base fp ?obj ?cell ?buf ?n ?n t u" by blast
  from u(2) have head: "lambda_head base fp ?obj ?cell ?buf ?n ?n u" and uk: "keeps ?W (mm t) (mm u)"
    by (auto simp: lambda_done_def covers_def inside_offsets elim!: keeps_mono)
  from lambda_exit [OF assms(1) head, of lay] u(2) t(3) obtain k' v where
    v: "run lay code k' u = Some v" "rip v = ld 8 (fp + 8) (mm u)" "rsp v = fp + 0x10"
      "saved v = saved (u\<lparr>rbp := ld 8 fp (mm u)\<rparr>)" "mm v = mm u" by (auto simp: lambda_done_def)
  have cell: "apart ?cell 8 (fp - 0x60) 0x70" and data: "\<forall>i<?n. clear (lambda_frame fp ?cell) (?buf + i) 1"
    using args by (simp_all add: lambda_args_def)
  note cell' = apart_within(1) [OF cell] apart_within(2) [OF cell]
  have "saved v = saved s" using v(4) u(2) t(4,5) keeps_ld [of _ "mm t" "mm u" fp 8] cell'
    by (auto simp: lambda_done_def saved_simps clear_def apart_offsets inside_offsets)
  moreover have "rip v = ld 8 (rsp s) (mm s)"
    using v(2) keeps_ld [OF t(6), of "fp + 8" 8] keeps_ld [OF uk, of "fp + 8" 8] cell'
    by (simp add: sp clear_def apart_offsets inside_offsets)
  moreover have "reaches lay code s v" by (intro reaches_trans [OF reaches_run [OF t(1)] reaches_trans [OF u(1) reaches_run [OF v(1)]]])
  ultimately have "returns lay code s v" using v(3) by (simp add: returns_def sp)
  moreover have "ld 8 ?cell (mm v) = hashed (mm s) ?buf (ld 8 ?cell (mm s)) ?n"
  proof -
    have "ld 8 ?cell (mm t) = ld 8 ?cell (mm s)"
    using keeps_ld [OF t(6), of ?cell 8] cell' by (simp add: clear_def inside_offsets)
    moreover have "hashed (mm t) ?buf h ?n = hashed (mm s) ?buf h ?n" for h
      using same data by (intro hashed_cong) simp
    ultimately show ?thesis using u(2) v(5) by (simp add: lambda_done_def)
  qed
  moreover have "keeps ?W (mm s) (mm v)"
    unfolding v(5) by (rule keeps_trans [OF _ uk], rule keeps_mono [OF t(6)]) (simp add: covers_def inside_offsets)
  ultimately show ?thesis by (auto simp: hashed_def fp_def)
qed

text \<open>
  Property C27: the machine code of the lambda is the FNV-1a hash. Called with the object that holds the
  address of the accumulator, a pointer and a count, it returns, the accumulator holds the hash
  continued with the bytes, and only its frame and the accumulator have changed.
\<close>

theorem hash_lambda_is_fnv:
  assumes "placed code base hash_lambda_code" and "rip s = base"
    and "lambda_args (rsp s - 8) (rdi s) (ld 8 (rdi s) (mm s)) (rsi s) (rdx s) (mm s)"
  shows "\<exists>t. returns lay code s t
    \<and> ld 8 (ld 8 (rdi s) (mm s)) (mm t)
        = foldl fnv_step (ld 8 (ld 8 (rdi s) (mm s)) (mm s)) (map (\<lambda>i. mm s (rsi s + of_nat i)) [0..<unat (rdx s)])
    \<and> keeps [(rsp s - 0x68, 0x68), (ld 8 (rdi s) (mm s), 8)] (mm s) (mm t)"
  by (rule lambda_returns [OF assms])

section \<open>Witness\<close>

definition lambda_memory :: "u64 \<Rightarrow> u8" where
  \<comment> \<open>the object at \<open>0x1000\<close>, the accumulator at \<open>0x2000\<close>, two bytes at \<open>0x3000\<close>\<close>
  "lambda_memory = (\<lambda>_. 0)(0x1001 := 0x20, 0x2000 := 5, 0x3000 := 7, 0x3001 := 9)"

lemma all_less_two: "(\<forall>i<2. P i) \<longleftrightarrow> P 0 \<and> P (1 :: u64)"
proof -
  have "i < 2 \<longleftrightarrow> i = 0 \<or> i = 1" for i :: u64 by unat_arith
  then show ?thesis by auto
qed

lemma hash_lambda_is_fnv_witness:
  "\<exists>t. returns (\<lambda>_. 0) (load_at 0 hash_lambda_code)
         ((at_rest lambda_memory)\<lparr>rsp := 0x8068, rdi := 0x1000, rsi := 0x3000, rdx := 2\<rparr>) t
    \<and> ld 8 0x2000 (mm t) = fnv_step (fnv_step 5 7) 9"
proof -
  let ?s = "(at_rest lambda_memory)\<lparr>rsp := 0x8068, rdi := 0x1000, rsi := 0x3000, rdx := 2\<rparr>"
  have m: "ld 8 0x1000 lambda_memory = 0x2000" "ld 8 0x2000 lambda_memory = 5"
    by (simp_all add: ld_def lambda_memory_def upt_rec)
  have "placed (load_at 0 hash_lambda_code) 0 hash_lambda_code"
    by (rule placed_load_at) (simp add: hash_lambda_code_def)
  moreover have "lambda_args (rsp ?s - 8) (rdi ?s) (ld 8 (rdi ?s) (mm ?s)) (rsi ?s) (rdx ?s) (mm ?s)"
    by (simp add: at_rest_def m lambda_args_def lambda_frame_def clear_def apart_def addressable_def shadow_def
        all_less_two one_le_word) (simp add: lambda_memory_def)
  ultimately obtain t where "returns (\<lambda>_. 0) (load_at 0 hash_lambda_code) ?s t"
    and "ld 8 (ld 8 (rdi ?s) (mm ?s)) (mm t)
        = foldl fnv_step (ld 8 (ld 8 (rdi ?s) (mm ?s)) (mm ?s)) (map (\<lambda>i. mm ?s (rsi ?s + of_nat i)) [0..<unat (rdx ?s)])"
    using hash_lambda_is_fnv [of "load_at 0 hash_lambda_code" 0 ?s "\<lambda>_. 0"] by (auto simp: at_rest_def)
  moreover have "map (\<lambda>i. lambda_memory (0x3000 + of_nat i)) [0..<2] = [7, 9]"
    by (simp add: upt_rec lambda_memory_def)
  ultimately show ?thesis by (intro exI [of _ t]) (simp add: at_rest_def m)
qed

end
