(* ===== verification/Payload_Emit.thy ===== *)
theory Payload_Emit
  imports Payload_Frames Payload_Lambda
begin

text \<open>
  \<open>emit_i16\<close> and \<open>emit_u64\<close> of the reproducer as machine code.
\<close>

section \<open>Listings\<close>

definition emit_i16_code :: "symbol listing" where
  "emit_i16_code = [
    (0, Push RBP, 1),
    (1, Mov (Reg W64 RSP) (Reg W64 RBP), 3),
    (4, Push RBX, 1),
    (5, Alu And_op (Imm (- 0x20)) (Reg W64 RSP), 4),
    (9, Alu Sub_op (Imm 0xA0) (Reg W64 RSP), 7),
    (0x10, Mov (Reg W64 RSP) (Reg W64 RBX), 3),
    (0x13, Mov (Reg W16 RSI) (Reg W16 RAX), 3),
    (0x16, Mov (Reg W64 RDI) (At W64 0x80 RBX), 7),
    (0x1D, Mov (Reg W16 RAX) (At W16 0x7E RBX), 4),
    (0x21, Alu Xor_op (Reg W32 RAX) (Reg W32 RAX), 2),
    (0x23, Lea (Rip W64 D_Detect_Uar 0) (Reg W64 RCX), 7),
    (0x2A, Cmp (Imm 0) (At W32 0 RCX), 3),
    (0x2D, Mov (Reg W64 RAX) (At W64 0x58 RBX), 4),
    (0x31, J CC_E 0xE, 2),
    (0x33, Mov (Imm 0x40) (Reg W32 RDI), 5),
    (0x38, Call (Fn 0), 5),
    (0x3D, Mov (Reg W64 RAX) (At W64 0x58 RBX), 4),
    (0x41, Mov (At W64 0x58 RBX) (Reg W64 RAX), 4),
    (0x45, Mov (Reg W64 RAX) (At W64 0x48 RBX), 4),
    (0x49, Cmp (Imm 0) (Reg W64 RAX), 4),
    (0x4D, Mov (Reg W64 RAX) (At W64 0x50 RBX), 4),
    (0x51, J CC_NE 0x12, 2),
    (0x53, Mov (Reg W64 RSP) (Reg W64 RAX), 3),
    (0x56, Alu Add_op (Imm (- 0x40)) (Reg W64 RAX), 4),
    (0x5A, Alu And_op (Imm (- 0x20)) (Reg W64 RAX), 4),
    (0x5E, Mov (Reg W64 RAX) (Reg W64 RSP), 3),
    (0x61, Mov (Reg W64 RAX) (At W64 0x50 RBX), 4),
    (0x65, Mov (At W64 0x50 RBX) (Reg W64 RAX), 4),
    (0x69, Mov (Reg W64 RAX) (At W64 0x28 RBX), 4),
    (0x6D, Mov (Reg W64 RAX) (At W64 0x70 RBX), 4),
    (0x71, Mov (Reg W64 RAX) (Reg W64 RCX), 3),
    (0x74, Alu Add_op (Imm 0x20) (Reg W64 RCX), 4),
    (0x78, Mov (Reg W64 RCX) (At W64 0x30 RBX), 4),
    (0x7C, Mov (Imm 0x41B58AB3) (At W64 0 RAX), 7),
    (0x83, Lea (Rip W64 D_Dummy 0) (Reg W64 RCX), 7),
    (0x8A, Mov (Reg W64 RCX) (At W64 8 RAX), 4),
    (0x8E, Lea (Rip W64 (Fn 10) 0) (Reg W64 RCX), 7),
    (0x95, Mov (Reg W64 RCX) (At W64 0x10 RAX), 4),
    (0x99, Shr 3 (Reg W64 RAX), 4),
    (0x9D, Mov (Reg W64 RAX) (Reg W64 RCX), 3),
    (0xA0, Alu Add_op (Imm 0x7FFF8000) (Reg W64 RCX), 7),
    (0xA7, Mov (Reg W64 RCX) (At W64 0x38 RBX), 4),
    (0xAB, Mov (Imm 0xF3F3F3F8F1F1F1F1) (Reg W64 RCX), 10),
    (0xB5, Mov (Reg W64 RCX) (At W64 0x7FFF8000 RAX), 7),
    (0xBC, Mov (At W16 0x7E RBX) (Reg W16 RCX), 4),
    (0xC0, Mov (Reg W16 RCX) (At W16 0x7C RBX), 4),
    (0xC4, Mov (Imm 2) (At W8 0x7FFF8004 RAX), 7),
    (0xCB, Mov (At W16 0x7C RBX) (Reg W32 RAX), 4),
    (0xCF, Alu And_op (Imm 0xFF) (Reg W32 RAX), 5),
    (0xD4, Mov (Reg W8 RAX) (At W8 0x47 RBX), 3),
    (0xD7, Mov (Imm 1) (Reg W8 RAX), 2),
    (0xD9, Test (Imm 1) (Reg W8 RAX), 2),
    (0xDB, J CC_NE 0x10, 2),
    (0xDD, Lea (Rip W64 D_Dummy 0) (Reg W64 RDI), 7),
    (0xE4, Alu Xor_op (Reg W32 RAX) (Reg W32 RAX), 2),
    (0xE6, Mov (Reg W32 RAX) (Reg W32 RSI), 2),
    (0xE8, Call (Trap 19), 5),
    (0xED, Mov (At W64 0x30 RBX) (Reg W64 RAX), 4),
    (0xF1, Mov (At W8 0x47 RBX) (Reg W8 RCX), 3),
    (0xF4, Mov (Reg W8 RCX) (At W8 0 RAX), 2),
    (0xF6, Mov (At W16 0x7C RBX) (Reg W32 RAX), 4),
    (0xFA, Mov (Reg W32 RAX) (At W32 0x24 RBX), 3),
    (0xFD, Mov (Imm 1) (Reg W8 RAX), 2),
    (0xFF, Test (Imm 1) (Reg W8 RAX), 2),
    (0x101, J CC_NE 0x18, 2),
    (0x103, Mov (At W32 0x24 RBX) (Reg W32 RAX), 3),
    (0x106, Mov (Reg W32 RAX) (Reg W32 RAX), 2),
    (0x108, Mov (Reg W32 RAX) (Reg W32 RSI), 2),
    (0x10A, Lea (Rip W64 D_Dummy 0) (Reg W64 RDI), 7),
    (0x111, Mov (Imm 8) (Reg W32 RDX), 5),
    (0x116, Call (Trap 18), 5),
    (0x11B, Mov (At W32 0x24 RBX) (Reg W32 RAX), 3),
    (0x11E, Sar 8 (Reg W32 RAX), 3),
    (0x121, Alu And_op (Imm 0xFF) (Reg W32 RAX), 5),
    (0x126, Mov (Reg W8 RAX) (At W8 0x23 RBX), 3),
    (0x129, Mov (Imm 1) (Reg W8 RAX), 2),
    (0x12B, Test (Imm 1) (Reg W8 RAX), 2),
    (0x12D, J CC_NE 0x11, 2),
    (0x12F, Lea (Rip W64 D_Dummy 0) (Reg W64 RDI), 7),
    (0x136, Mov (Imm 1) (Reg W32 RSI), 5),
    (0x13B, Call (Trap 19), 5),
    (0x140, Mov (At W64 0x30 RBX) (Reg W64 RDX), 4),
    (0x144, Test (Reg W64 RDX) (Reg W64 RDX), 3),
    (0x147, Set CC_NE (Reg W8 RAX), 3),
    (0x14A, Mov (Reg W64 RDX) (Reg W64 RCX), 3),
    (0x14D, Inc (Reg W64 RCX), 3),
    (0x150, Mov (Reg W64 RCX) (At W64 8 RBX), 4),
    (0x154, Mov (Reg W64 RDX) (Reg W64 RSI), 3),
    (0x157, Mov (Reg W64 RSI) (At W64 0x10 RBX), 4),
    (0x15B, Mov (Reg W64 RCX) (Reg W64 RSI), 3),
    (0x15E, Mov (Reg W64 RSI) (At W64 0x18 RBX), 4),
    (0x162, Set CC_NE (Reg W8 RSI), 4),
    (0x166, Alu Xor_op (Reg W8 RSI) (Reg W8 RAX), 3),
    (0x169, Alu Xor_op (Imm 1) (Reg W8 RAX), 2),
    (0x16B, Alu Sub_op (Reg W64 RDX) (Reg W64 RCX), 3),
    (0x16E, Set CC_AE (Reg W8 RCX), 3),
    (0x171, Alu And_op (Imm 0xFF) (Reg W8 RCX), 3),
    (0x174, Alu And_op (Reg W8 RCX) (Reg W8 RAX), 2),
    (0x176, Test (Imm 1) (Reg W8 RAX), 2),
    (0x178, J CC_NE 0x14, 2),
    (0x17A, Mov (At W64 0x18 RBX) (Reg W64 RDX), 4),
    (0x17E, Mov (At W64 0x10 RBX) (Reg W64 RSI), 4),
    (0x182, Lea (Rip W64 D_Dummy 0) (Reg W64 RDI), 7),
    (0x189, Call (Trap 21), 5),
    (0x18E, Mov (At W64 8 RBX) (Reg W64 RAX), 4),
    (0x192, Cmp (Imm 0) (Reg W64 RAX), 4),
    (0x196, J CC_NE 0x10, 2),
    (0x198, Mov (At W64 8 RBX) (Reg W64 RSI), 4),
    (0x19C, Lea (Rip W64 D_Dummy 0) (Reg W64 RDI), 7),
    (0x1A3, Call (Trap 15), 5),
    (0x1A8, Mov (At W64 8 RBX) (Reg W64 RAX), 4),
    (0x1AC, Mov (At W8 0x23 RBX) (Reg W8 RCX), 3),
    (0x1AF, Mov (Reg W8 RCX) (At W8 0 RAX), 2),
    (0x1B1, Mov (At W64 0x80 RBX) (Reg W64 RCX), 7),
    (0x1B8, Mov (Reg W64 RCX) (At W64 0 RBX), 3),
    (0x1BB, Cmp (Imm 0) (Reg W64 RCX), 4),
    (0x1BF, Set CC_NE (Reg W8 RAX), 3),
    (0x1C2, Alu And_op (Imm 7) (Reg W64 RCX), 4),
    (0x1C6, Cmp (Imm 0) (Reg W64 RCX), 4),
    (0x1CA, Set CC_E (Reg W8 RCX), 3),
    (0x1CD, Alu And_op (Reg W8 RCX) (Reg W8 RAX), 2),
    (0x1CF, Test (Imm 1) (Reg W8 RAX), 2),
    (0x1D1, J CC_NE 0xF, 2),
    (0x1D3, Mov (At W64 0 RBX) (Reg W64 RSI), 3),
    (0x1D6, Lea (Rip W64 D_Dummy 0) (Reg W64 RDI), 7),
    (0x1DD, Call (Trap 15), 5),
    (0x1E2, Mov (At W64 0x30 RBX) (Reg W64 RSI), 4),
    (0x1E6, Mov (At W64 0 RBX) (Reg W64 RDI), 3),
    (0x1E9, Mov (Imm 2) (Reg W32 RDX), 5),
    (0x1EE, Call (Fn 11), 5),
    (0x1F3, Mov (At W64 0x38 RBX) (Reg W64 RDX), 4),
    (0x1F7, Mov (At W64 0x28 RBX) (Reg W64 RCX), 4),
    (0x1FB, Mov (At W64 0x48 RBX) (Reg W64 RAX), 4),
    (0x1FF, Mov (Imm 0xF8) (At W8 4 RDX), 4),
    (0x203, Mov (Imm 0x45E0360E) (At W64 0 RCX), 7),
    (0x20A, Cmp (Imm 0) (Reg W64 RAX), 4),
    (0x20E, J CC_E 0x1E, 2),
    (0x210, Mov (At W64 0x48 RBX) (Reg W64 RAX), 4),
    (0x214, Mov (At W64 0x38 RBX) (Reg W64 RCX), 4),
    (0x218, Mov (Imm 0xF5F5F5F5F5F5F5F5) (Reg W64 RDX), 10),
    (0x222, Mov (Reg W64 RDX) (At W64 0 RCX), 3),
    (0x225, Mov (At W64 0x38 RAX) (Reg W64 RAX), 4),
    (0x229, Mov (Imm 0) (At W8 0 RAX), 3),
    (0x22C, Jmp 0xB, 2),
    (0x22E, Mov (At W64 0x38 RBX) (Reg W64 RAX), 4),
    (0x232, Mov (Imm 0) (At W64 0 RAX), 7),
    (0x239, Lea (At W64 (- 0x8) RBP) (Reg W64 RSP), 4),
    (0x23D, Pop RBX, 1),
    (0x23E, Pop RBP, 1),
    (0x23F, Ret, 1)]"

section \<open>Over-aligned frames\<close>

text \<open>
  The prologue of a function with an over-aligned frame of \<open>n\<close> bytes: the frame starts at \<open>q\<close>, at a
  distance from the caller's stack pointer that depends on it.
\<close>

definition enter_code :: "u64 \<Rightarrow> symbol listing" where
  "enter_code n = [(0, Push RBP, 1), (1, Mov (Reg W64 RSP) (Reg W64 RBP), 3), (4, Push RBX, 1),
     (5, Alu And_op (Imm (- 0x20)) (Reg W64 RSP), 4), (9, Alu Sub_op (Imm n) (Reg W64 RSP), 7),
     (0x10, Mov (Reg W64 RSP) (Reg W64 RBX), 3)]"

definition frame_base :: "u64 \<Rightarrow> u64 \<Rightarrow> u64" where
  "frame_base sp n = ((sp - 0x10) AND - 0x20) - n"

definition entered :: "u64 \<Rightarrow> u64 \<Rightarrow> flags \<Rightarrow> xstate \<Rightarrow> xstate" where
  "entered n base f s = s\<lparr>rbp := rsp s - 8, rbx := frame_base (rsp s) n, rsp := frame_base (rsp s) n,
     mm := st 8 (rsp s - 0x10) (rbx s) (st 8 (rsp s - 8) (rbp s) (mm s)), fl := f, rip := 0x13 + base\<rparr>"

lemma enters:
  assumes "placed code base (enter_code n)" and "rip s = base"
  shows "\<exists>f. run lay code 6 s = Some (entered n base f s)"
proof -
  note fetch = assms(1) [unfolded placed_def enter_code_def list.pred_inject split_conv add_0_left]
  show ?thesis
    by (intro exI [of _ "sub_flags 64 ((rsp s - 0x10) AND - 0x20) n"]) (simp add: x86 fetch entered_def assms(2) frame_base_def)
qed

lemma frame_base_room:
  assumes "n < 0x10000" and "d < 0x10000"
  shows "inside (frame_base sp n - d) (d + n) (sp - (0x2F + n + d)) (0x1F + n + d)"
    and "apart (sp - 0x10) 0x18 (frame_base sp n - d) (d + n)"
proof -
  define x p where "x = sp - 0x10" and "p = x AND 0x1F"
  have "(x AND - 0x20) + (x AND 0x1F) = (x AND - 0x20) OR (x AND 0x1F)"
  proof (rule disjunctive_add)
    have "(0x1F :: u64) = mask 5" "(- 0x20 :: u64) = NOT (mask 5)" by (simp_all add: mask_eq_exp_minus_1 not_eq_complement)
    then show "\<not> bit (x AND - 0x20) i \<or> \<not> bit (x AND 0x1F) i" for i by (simp add: bit_simps)
  qed
  also have "\<dots> = x AND (- 0x20 OR 0x1F)" by (simp only: bit.conj_disj_distrib)
  also have "(- 0x20 OR 0x1F :: u64) = - 1" by simp
  finally have "frame_base sp n = sp - 0x10 - p - n" by (simp add: frame_base_def x_def p_def algebra_simps)
  moreover have "p < 0x20" using and_mask_less [of 5 x] by (simp add: p_def mask_eq_exp_minus_1)
  then have p: "unat p < 0x20" by (simp add: word_less_nat_alt)
  have n: "unat n < 0x10000" "unat d < 0x10000" using assms by (simp_all add: word_less_nat_alt)
  have "inside (sp - 0x10 - p - n - d) (d + n) (sp - (0x2F + n + d)) (0x1F + n + d)"
  proof -
    have "sp - 0x10 - p - n - d - (sp - (0x2F + n + d)) = 0x1F - p" by simp
    moreover have "unat (0x1F - p) = 0x1F - unat p" using p by (simp add: unat_sub word_le_nat_alt)
    moreover have "unat (0x1F + n + d) = 0x1F + unat n + unat d" "unat (d + n) = unat d + unat n"
      using n by (simp_all add: unat_word_ariths)
    moreover have "unat (n + (d + p)) = unat n + unat d + unat p" using n p by (simp add: unat_word_ariths)
    ultimately show ?thesis using p n by (simp add: inside_def word_le_nat_alt)
  qed
  moreover have "apart (sp - 0x10) 0x18 (sp - 0x10 - p - n - d) (d + n)"
  proof -
    define y where "y = p + n + d"
    have y: "unat y = unat p + unat n + unat d" using n p by (simp add: y_def unat_word_ariths)
    have "unat (d + n) \<le> unat y" using n by (simp add: y unat_word_ariths)
    moreover have "y = 0 \<or> 0x18 \<le> - y"
      using y n p unat_sub_if' [of 0 y] by (auto simp: word_le_nat_alt unat_eq_0)
    moreover have "sp - 0x10 - (sp - 0x10 - p - n - d) = y" "sp - 0x10 - p - n - d - (sp - 0x10) = - y"
      by (simp_all add: y_def)
    ultimately show ?thesis by (auto simp: apart_def word_le_nat_alt unat_eq_0)
  qed
  ultimately show "inside (frame_base sp n - d) (d + n) (sp - (0x2F + n + d)) (0x1F + n + d)"
    and "apart (sp - 0x10) 0x18 (frame_base sp n - d) (d + n)" by simp_all
qed

section \<open>Hashing the buffer\<close>

lemma aligned_offset:
  assumes "x AND mask k = 0" and "d < 2 ^ k" and "k < 64"
  shows "(x + d) AND mask k = d" and "(x + d) AND NOT (mask k) = x" and "drop_bit k (x + d) = drop_bit k (x :: u64)"
proof -
  have "take_bit k d = d" using assms(2,3) unat_pow [of k] by (intro take_bit_less) (simp_all add: word_less_nat_alt)
  moreover from assms(1) have x: "take_bit k x = 0" by (simp add: take_bit_eq_mask)
  ultimately have bits: "\<not> bit d n" if "n \<ge> k" for n using that by (metis bit_take_bit_iff not_le)
  have low: "\<not> bit x n" if "n < k" for n using x that by (metis bit_take_bit_iff bit_0_eq bot_apply bot_bool_def)
  have or: "x + d = x OR d" using bits low by (intro disjunctive_add) (metis not_le)
  have "drop_bit k d = 0" using bits by (auto simp: bit_eq_iff bit_simps)
  then show "drop_bit k (x + d) = drop_bit k x" unfolding or by simp
  show "(x + d) AND mask k = d" "(x + d) AND NOT (mask k) = x"
    unfolding or using bits low by (auto simp: bit_eq_iff bit_simps intro: leI ccontr)
qed

lemma shadow_near:
  assumes "x AND 7 = 0" and "d < 8"
  shows "shadow (x + d) = shadow x" and "(x + d) AND 7 = d"
proof -
  have seven: "(7 :: u64) = mask 3" by (simp add: mask_eq_exp_minus_1)
  show "shadow (x + d) = shadow x" "(x + d) AND 7 = d"
    using aligned_offset [of x 3 d] assms by (simp_all add: shadow_def seven)
qed

lemma in_frame:
  assumes "frame_blocks k i" and "k < 3" and "n AND 7 = 0" "n < 2 ^ (6 + k)" and "d < 8"
  shows "shadow (frame_at k i + n + d) = shadow (frame_at k i) + drop_bit 3 n" and "(frame_at k i + n + d) AND 7 = d"
proof -
  have "(frame_at k i + n) AND 7 = 0" and "shadow (frame_at k i + n) = shadow (frame_at k i) + drop_bit 3 n"
    using frame_rest [OF assms(1-3)] assms(4) by (simp_all add: add.commute)
  with shadow_near [OF this(1) assms(5)] show "shadow (frame_at k i + n + d) = shadow (frame_at k i) + drop_bit 3 n"
    and "(frame_at k i + n + d) AND 7 = d" by simp_all
qed

definition hash_object :: "u64 \<Rightarrow> (u64 \<Rightarrow> u8) \<Rightarrow> bool" where
  \<comment> \<open>the lambda's object and the hash it refers to, in the frame of the function \<open>hash\<close>\<close>
  "hash_object fh m \<longleftrightarrow> ld 8 (fh + 0x40) m = fh + 0x20 \<and> m (shadow fh + 4) = 0 \<and> m (shadow fh + 8) = 0"

lemma lambda_hashes:
  assumes "placed code base hash_lambda_code" and "rip s = base"
    and fb: "frame_blocks 0 i" "frame_blocks 1 j" and obj: "hash_object (frame_at 1 j) (mm s)"
    and regs: "rdi s = frame_at 1 j + 0x40" "rsi s = frame_at 0 i + 0x20" "rdx s \<le> 8"
    and ok: "\<And>d. d < rdx s \<Longrightarrow> addressable (mm s) (frame_at 0 i + 0x20 + d)"
    and w: "scattered [(rsp s - 0x68, 0x70), (frame_at 0 i, 0x40), (frame_at 1 j, 0x80), (shadow (frame_at 0 i), 8),
        (shadow (frame_at 1 j), 0x10)]"
  shows "\<exists>t. returns lay code s t
    \<and> ld 8 (frame_at 1 j + 0x20) (mm t)
        = foldl fnv_step (ld 8 (frame_at 1 j + 0x20) (mm s)) (map (\<lambda>d. mm s (frame_at 0 i + 0x20 + of_nat d)) [0..<unat (rdx s)])
    \<and> keeps [(rsp s - 0x68, 0x68), (frame_at 1 j + 0x20, 8)] (mm s) (mm t)"
proof -
  define fr fh where "fr = frame_at 0 i" and "fh = frame_at 1 j"
  note sep = scattered_spread [OF w, folded fr_def fh_def, unfolded spread.simps list.pred_inject split_conv]
  have cell: "ld 8 (rdi s) (mm s) = fh + 0x20" using obj by (simp add: hash_object_def regs fh_def)
  have sh: "shadow (fh + 0x20) = shadow fh + 4" "shadow (fh + 0x40) = shadow fh + 8" "(fh + 0x40) AND 7 = 0"
    using in_frame [OF fb(2), of "0x20" 0] in_frame [OF fb(2), of "0x40" 0] by (simp_all add: fh_def)
  have high: "fh + 0x40 \<noteq> 0" "fr + 0x20 \<noteq> 0" "8 \<le> - (fr + 0x20)"
  proof -
    have "unat fr < 0x600000309000" "unat fh < 0x600000309000"
      using fb by (simp_all add: frame_blocks_def fr_def fh_def word_less_nat_alt)
    then have "unat (fr + 0x20) = unat fr + 0x20" "unat (fh + 0x40) = unat fh + 0x40" "unat fr < 0x600000309000"
      by (simp_all add: unat_word_ariths)
    then show "fh + 0x40 \<noteq> 0" "fr + 0x20 \<noteq> 0" "8 \<le> - (fr + 0x20)"
      using unat_sub_if' [of 0 "fr + 0x20"] by (auto simp: word_le_nat_alt)
  qed
  have byte: "inside (fr + 0x20 + d) 1 fr 0x40" "shadow (fr + 0x20 + d) = shadow fr + 4" if "d < rdx s" for d
  proof -
    have d: "d < 8" using that regs(3) by (rule less_le_trans)
    then show "shadow (fr + 0x20 + d) = shadow fr + 4" using in_frame(1) [OF fb(1), of "0x20" d] by (simp add: fr_def)
    show "inside (fr + 0x20 + d) 1 fr 0x40"
      by (rule inside_trans [OF inside_byte [OF d]]) (simp add: inside_offsets)
  qed
  have "lambda_args (rsp s - 8) (rdi s) (ld 8 (rdi s) (mm s)) (rsi s) (rdx s) (mm s)"
    unfolding cell unfolding lambda_args_def regs(1,2) [folded fr_def fh_def]
  proof (intro conjI allI impI)
    show "rdx s \<le> - (fr + 0x20)" using regs(3) high(3) by (rule order_trans)
  next
    fix d assume d: "d < rdx s"
    show "addressable (mm s) (fr + 0x20 + d)" using ok [OF d] by (simp add: fr_def)
    show "clear (lambda_frame (rsp s - 8) (fh + 0x20)) (fr + 0x20 + d) 1"
      "clear (lambda_frame (rsp s - 8) (fh + 0x20)) (shadow (fr + 0x20 + d)) 1"
      using byte [OF d] by (simp_all add: clear_def lambda_frame_def sep inside_offsets word_offsets)
  qed (use obj [folded fh_def] high(1,2) in \<open>simp_all add: sh hash_object_def clear_def lambda_frame_def sep apart_offsets
        inside_offsets word_offsets\<close>)
  from lambda_returns [OF assms(1,2) this, of lay] show ?thesis
    unfolding cell regs(2) unfolding fh_def .
qed

lemma ucast_byte: "ucast (ucast (b :: u8) :: u64) = b"
  by (auto simp: bit_eq_iff bit_simps dest: bit_imp_le_length)

lemma returns_reaches: "returns lay code s t \<Longrightarrow> reaches lay code s t"
  by (simp add: returns_def)

section \<open>Calls of emit\_i16 and emit\_u64\<close>

text \<open>
  What a call finds, and what it leaves: frame \<open>i\<close> of class 0 is free and is the one to try next; the
  object is in frame \<open>j\<close> of class 1, that of \<open>hash\<close>. The bytes \<open>bs\<close> are hashed, and the frame is free again.
\<close>

definition emit_ready :: "(symbol \<Rightarrow> u64) \<Rightarrow> u64 \<Rightarrow> u64 \<Rightarrow> u64 \<Rightarrow> u64 \<Rightarrow> xstate \<Rightarrow> bool" where
  "emit_ready lay data tp i j s \<longleftrightarrow> runtime lay data (gs s) tp (mm s) \<and> \<not> df s
     \<and> scattered (world data (gs s) tp (rsp s) 0x160)
     \<and> ld 8 fake_stack (mm s) AND mask 14 = i \<and> mm s (flag_at 0 i) = 0
     \<and> j < 2 ^ 13 \<and> hash_object (frame_at 1 j) (mm s) \<and> rdi s = frame_at 1 j + 0x40"

definition emitted :: "(symbol \<Rightarrow> u64) \<Rightarrow> symbol program \<Rightarrow> u64 \<Rightarrow> u64 \<Rightarrow> u8 list \<Rightarrow> xstate \<Rightarrow> xstate \<Rightarrow> bool" where
  "emitted lay code i j bs s t \<longleftrightarrow> returns lay code s t
     \<and> ld 8 (frame_at 1 j + 0x20) (mm t) = foldl fnv_step (ld 8 (frame_at 1 j + 0x20) (mm s)) bs
     \<and> mm t (flag_at 0 i) = 0
     \<and> keeps [(rsp s - 0x160, 0x160), (fake_stack, 8), (flag_at 0 i, 1), (frame_at 0 i, 0x40), (shadow (frame_at 0 i), 8),
         (frame_at 1 j + 0x20, 8)] (mm s) (mm t)"

definition emit_blocks :: "u64 \<Rightarrow> u64 \<Rightarrow> u64 \<Rightarrow> u64 \<Rightarrow> u64 \<Rightarrow> u64 \<Rightarrow> u64 \<Rightarrow> u64 \<Rightarrow> extents" where
  "emit_blocks data g tp sp q n i j = [(sp - 0x10, 0x18), (q - 0x70, 0x70 + n), (data, 0x140), (g + 0x28, 8), (tp - 0x48, 8),
    (fake_stack, 8), (fake_stack + 0x58, 9), (flag_at 0 i, 1), (frame_at 0 i, 0x40), (frame_at 1 j, 0x80),
    (shadow (frame_at 0 i), 8), (shadow (frame_at 1 j), 0x10)]"

text \<open>The frames of the two functions have \<open>0xA0\<close> and \<open>0xC0\<close> bytes.\<close>

lemma emit_room:
  assumes "n = 0xA0 \<or> n = 0xC0"
  shows "inside (frame_base sp n - 0x70) (0x70 + n) (sp - 0x160) 0x150" and "inside (frame_base sp n - 0x70) 0x70 (sp - 0x160) 0x168"
proof -
  have n: "n < 0x10000" using assms by auto
  show *: "inside (frame_base sp n - 0x70) (0x70 + n) (sp - 0x160) 0x150"
    by (rule inside_trans [OF frame_base_room(1) [OF n]]) (use assms in \<open>auto simp: inside_offsets\<close>)
  have "inside (frame_base sp n - 0x70) 0x70 (frame_base sp n - 0x70) (0x70 + n)" using assms by (auto simp: inside_offsets)
  from inside_trans [OF inside_trans [OF this *]] show "inside (frame_base sp n - 0x70) 0x70 (sp - 0x160) 0x168"
    by (simp add: inside_offsets)
qed

lemma emit_world:
  assumes w: "scattered (world data g tp sp 0x160)" and fb: "frame_blocks 0 i" "frame_blocks 1 j" and n: "n = 0xA0 \<or> n = 0xC0"
  shows "scattered (emit_blocks data g tp sp (frame_base sp n) n i j)"
proof -
  have W: "scattered [(sp - 0x160, 0x168), (data, 0x140), (g + 0x28, 8), (tp - 0x48, 8),
    (fake_stack, 8), (fake_stack + 0x58, 9), (flag_at 0 i, 1), (frame_at 0 i, 0x40), (frame_at 1 j, 0x80),
    (shadow (frame_at 0 i), 8), (shadow (frame_at 1 j), 0x10)]"
    by (rule scattered_of [OF w, of "[0, 1, 2, 3, 4, 5, 6, 9, 10, 13, 14]"])
      (use fb in \<open>simp_all add: world_def arena_blocks_def frame_blocks_def fake_stack_def numeral_blocks\<close>)
  have "apart (sp - 0x10) 0x18 (frame_base sp n - 0x70) (0x70 + n)"
    by (rule frame_base_room(2)) (use n in auto)
  moreover have "inside (frame_base sp n - 0x70) (0x70 + n) (sp - 0x160) 0x168"
    using inside_trans [OF emit_room(1) [OF n]] by (simp add: inside_offsets)
  ultimately show ?thesis
    using scattered_refine [OF W, of "[[(sp - 0x10, 0x18), (frame_base sp n - 0x70, 0x70 + n)], [(data, 0x140)], [(g + 0x28, 8)], [(tp - 0x48, 8)],
      [(fake_stack, 8)], [(fake_stack + 0x58, 9)], [(flag_at 0 i, 1)], [(frame_at 0 i, 0x40)], [(frame_at 1 j, 0x80)],
      [(shadow (frame_at 0 i), 8)], [(shadow (frame_at 1 j), 0x10)]]"]
    by (simp add: emit_blocks_def clear_def inside_offsets)
qed

text \<open>The three stretches of code between the calls.\<close>

definition emit_opened :: "(symbol \<Rightarrow> u64) \<Rightarrow> u64 \<Rightarrow> u64 \<Rightarrow> u64 \<Rightarrow> xstate \<Rightarrow> xstate \<Rightarrow> bool" where
  \<comment> \<open>\<open>t\<close>: at the call of \<open>__asan_stack_malloc_0\<close>\<close>
  "emit_opened lay q n ret s t \<longleftrightarrow> rip t = lay (Fn 0) \<and> rdi t = 0x40 \<and> rsp t = q - 8 \<and> rbx t = q
    \<and> saved t = saved (s\<lparr>rbx := q, rbp := rsp s - 8\<rparr>)
    \<and> ld 8 (q - 8) (mm t) = ret \<and> ld 8 (rsp s - 8) (mm t) = rbp s \<and> ld 8 (rsp s - 0x10) (mm t) = rbx s
    \<and> keeps [(rsp s - 0x10, 0x10), (q - 0x70, 0x70 + n)] (mm s) (mm t)"

definition emit_allocated :: "(symbol \<Rightarrow> u64) \<Rightarrow> u64 \<Rightarrow> u64 \<Rightarrow> u64 \<Rightarrow> u64 \<Rightarrow> xstate \<Rightarrow> xstate \<Rightarrow> bool" where
  \<comment> \<open>\<open>t\<close>: that call, made in \<open>s\<close>, is over\<close>
  "emit_allocated lay data tp q i s t \<longleftrightarrow> rsp t = q \<and> rbx t = q \<and> rax t = frame_at 0 i
    \<and> ld 8 (frame_at 0 i + 0x38) (mm t) = flag_at 0 i \<and> runtime lay data (gs t) tp (mm t)
    \<and> keeps [(q - 0x70, 0x68), (fake_stack, 8), (flag_at 0 i, 1), (frame_at 0 i, 0x40), (shadow (frame_at 0 i), 8)] (mm s) (mm t)"

definition emit_filled :: "(symbol \<Rightarrow> u64) \<Rightarrow> u64 \<Rightarrow> u64 \<Rightarrow> u64 \<Rightarrow> u64 \<Rightarrow> u64 \<Rightarrow> u8 list \<Rightarrow> xstate \<Rightarrow> xstate \<Rightarrow> bool" where
  \<comment> \<open>\<open>t\<close>: at the call of the lambda, the bytes in the buffer\<close>
  "emit_filled lay q n ret i j bs s t \<longleftrightarrow> rip t = lay (Fn 11) \<and> rdi t = frame_at 1 j + 0x40 \<and> rsi t = frame_at 0 i + 0x20
    \<and> rdx t = of_nat (length bs) \<and> length bs \<le> 8 \<and> rsp t = q - 8 \<and> rbx t = q \<and> saved t = saved s \<and> ld 8 (q - 8) (mm t) = ret
    \<and> map (\<lambda>d. mm t (frame_at 0 i + 0x20 + of_nat d)) [0..<length bs] = bs
    \<and> mm t (shadow (frame_at 0 i) + 4) = of_nat (length bs mod 8)
    \<and> ld 8 (frame_at 0 i + 0x38) (mm t) = flag_at 0 i
    \<and> keeps [(q - 8, 8 + n), (frame_at 0 i, 0x40), (shadow (frame_at 0 i), 8)] (mm s) (mm t)"

definition emit_closed :: "u64 \<Rightarrow> u64 \<Rightarrow> xstate \<Rightarrow> xstate \<Rightarrow> bool" where
  "emit_closed i sp s t \<longleftrightarrow> rip t = ld 8 sp (mm s) \<and> rsp t = sp + 8
    \<and> saved t = saved (s\<lparr>rbp := ld 8 (sp - 8) (mm s), rbx := ld 8 (sp - 0x10) (mm s)\<rparr>)
    \<and> ld 1 (flag_at 0 i) (mm t) = 0 \<and> keeps [(flag_at 0 i, 1), (frame_at 0 i, 0x40), (shadow (frame_at 0 i), 8)] (mm s) (mm t)"

lemma emit_ready_frames:
  assumes "emit_ready lay data tp i j s" and "n = 0xA0 \<or> n = 0xC0"
  shows "frame_blocks 0 i" and "frame_blocks 1 j" and "scattered (emit_blocks data (gs s) tp (rsp s) (frame_base (rsp s) n) n i j)"
proof -
  note E = assms(1) [unfolded emit_ready_def]
  have "i < 2 ^ 14" using E and_mask_less [of 14 "ld 8 fake_stack (mm s)"] by auto
  then show fb: "frame_blocks 0 i" "frame_blocks 1 j" using E by (simp_all add: frame_blocks)
  show "scattered (emit_blocks data (gs s) tp (rsp s) (frame_base (rsp s) n) n i j)"
    using E by (intro emit_world [OF _ fb assms(2)]) simp
qed

lemma emit_allocates:
  assumes m: "machine lay code" and E: "emit_ready lay data tp i j s" and n: "n = 0xA0 \<or> n = 0xC0" and q: "q = frame_base (rsp s) n"
    and t: "emit_opened lay q n ret s t"
  shows "\<exists>u. returns lay code t u \<and> emit_allocated lay data tp q i t u"
proof -
  note t = t [unfolded emit_opened_def]
  note fb = emit_ready_frames(1,2) [OF E n]
  note room = emit_room [OF n, of "rsp s", folded q]
  note W = emit_ready_frames(3) [OF E n, folded q]
  note E = E [unfolded emit_ready_def]
  note sep = scattered_spread [OF W, unfolded emit_blocks_def spread.simps list.pred_inject split_conv]
  have kt: "keeps [(rsp s - 0x10, 0x10), (q - 0x70, 0x70 + n)] (mm s) (mm t)" using t by simp
  have gs: "gs t = gs s" "\<not> df t" using t E by (auto simp: saved_simps)
  have size: "0x68 \<le> 0x70 + n" using n by auto
  have run: "runtime lay data (gs t) tp (mm t)"
    unfolding gs by (rule runtime_keeps [OF _ kt]) (use E in \<open>simp_all add: clear_def sep inside_offsets\<close>)
  have w: "scattered (world data (gs t) tp (rsp t) 0x68)"
    using t E world_below [of data "gs s" tp "rsp s" "0x160" "rsp t" "0x68"] room(2) by (simp add: gs word_offsets)
  have "ld 8 fake_stack (mm t) = ld 8 fake_stack (mm s)" "mm t (flag_at 0 i) = mm s (flag_at 0 i)"
    by (rule keeps_ld [OF kt] keeps_byte [OF kt]; simp add: clear_def sep inside_offsets)+
  with mallocs_0 [OF m, unfolded mallocs_def, rule_format, of t data tp i] run w t E gs obtain u where
    u: "returns lay code t u" "rax u = frame_at 0 i" "ld 8 (frame_at 0 i + 0x38) (mm u) = flag_at 0 i"
      "keeps [(q - 0x70, 0x68), (fake_stack, 8), (flag_at 0 i, 1), (frame_at 0 i, 0x40), (shadow (frame_at 0 i), 8)] (mm t) (mm u)"
    by (auto simp: word_offsets)
  moreover have "runtime lay data (gs u) tp (mm u)"
    using runtime_keeps [OF run u(4)] u(1) gs by (simp add: clear_def sep inside_offsets size returns_def saved_simps)
  ultimately show ?thesis using t by (auto simp: emit_allocated_def returns_def saved_simps)
qed

text \<open>The lambda on the bytes in the buffer.\<close>

lemma emit_hashes:
  assumes p: "placed code (lay (Fn 11)) hash_lambda_code"
    and fb: "frame_blocks 0 i" "frame_blocks 1 j" and W: "scattered (emit_blocks data g tp sp q n i j)" and n: "n = 0xA0 \<or> n = 0xC0"
    and obj: "hash_object (frame_at 1 j) (mm v)" and v: "emit_filled lay q n ret i j bs u v"
  shows "\<exists>w. returns lay code v w
    \<and> ld 8 (frame_at 1 j + 0x20) (mm w) = foldl fnv_step (ld 8 (frame_at 1 j + 0x20) (mm v)) bs
    \<and> keeps [(q - 0x70, 0x68), (frame_at 1 j + 0x20, 8)] (mm v) (mm w)"
proof -
  note v = v [unfolded emit_filled_def]
  have len: "length bs \<le> 8" "rdx v = of_nat (length bs)" using v by simp_all
  then have rdx: "rdx v \<le> 8" "unat (rdx v) = length bs" by (simp_all add: word_le_nat_alt unat_of_nat)
  have "addressable (mm v) (frame_at 0 i + 0x20 + d)" if d: "d < rdx v" for d
  proof (cases "length bs = 8")
    case True
    moreover have "d < 8" using d rdx(1) by (rule less_le_trans)
    ultimately show ?thesis using v in_frame(1) [OF fb(1), of "0x20" d] by (simp add: addressable_def)
  next
    case False
    then have small: "length bs < 8" using len by simp
    have "ucast (of_nat (length bs) :: u8) = (of_nat (length bs) :: u64)"
      using small by (simp add: word_unat_eq_iff unat_of_nat unsigned_ucast_eq take_bit_nat_eq_self)
    moreover have "d < 8" using d rdx(1) by (rule less_le_trans)
    moreover have "(of_nat (length bs) :: u64) < 0x80" using small by (simp add: word_less_nat_alt unat_of_nat)
    ultimately show ?thesis
      using v small d len in_frame [OF fb(1), of "0x20" d] by (simp add: addressable_def Let_def)
  qed
  moreover have "scattered [(rsp v - 0x68, 0x70), (frame_at 0 i, 0x40), (frame_at 1 j, 0x80), (shadow (frame_at 0 i), 8),
      (shadow (frame_at 1 j), 0x10)]"
    by (rule scattered_of [OF W [unfolded emit_blocks_def], of "[1, 8, 9, 10, 11]"])
      (use v n in \<open>auto simp: word_offsets inside_offsets\<close>)
  moreover have "[0..<unat (rdx v)] = [0..<length bs]" by (simp only: rdx)
  ultimately show ?thesis
    using lambda_hashes [OF p _ fb obj, of lay] v rdx(1) by (auto simp: word_offsets)
qed

lemma emit_assembly:
  assumes m: "machine lay code" and p: "placed code (lay (Fn 11)) hash_lambda_code"
    and E: "emit_ready lay data tp i j s" and n: "n = 0xA0 \<or> n = 0xC0" and q: "q = frame_base (rsp s) n"
    and opens: "reaches lay code s t" "emit_opened lay q n ret s t"
    and fills: "\<And>u :: xstate. rip u = ret \<Longrightarrow> saved u = saved t \<Longrightarrow> emit_allocated lay data tp q i t u \<Longrightarrow>
      \<exists>v. reaches lay code u v \<and> emit_filled lay q n ret' i j bs u v \<and> R (mm v)"
    and closes: "\<And>(v :: xstate) (w :: xstate). R (mm v) \<Longrightarrow> ld 8 (frame_at 0 i + 0x38) (mm v) = flag_at 0 i \<Longrightarrow> rip w = ret' \<Longrightarrow> rsp w = q \<Longrightarrow> rbx w = q
      \<Longrightarrow> rbp w = rsp s - 8 \<Longrightarrow> keeps [(q - 0x70, 0x68), (frame_at 1 j + 0x20, 8)] (mm v) (mm w)
      \<Longrightarrow> \<exists>x. reaches lay code w x \<and> emit_closed i (rsp s) w x"
  shows "\<exists>x. emitted lay code i j bs s x"
proof -
  note fb = emit_ready_frames(1,2) [OF E n]
  note W = emit_ready_frames(3) [OF E n, folded q]
  note sep = scattered_spread [OF W, unfolded emit_blocks_def spread.simps list.pred_inject split_conv]
  have size: "0x68 \<le> 0x70 + n" using n by auto
  note loc = clear_def sep apart_offsets inside_offsets word_offsets size
  note t = opens(2) [unfolded emit_opened_def]
  obtain u where u: "returns lay code t u" "emit_allocated lay data tp q i t u"
    using emit_allocates [OF m E n q opens(2)] by blast
  note ua = u(2) [unfolded emit_allocated_def]
  have ru: "rip u = ret" "saved u = saved t" using u(1) t by (simp_all add: returns_def)
  obtain v where uv: "reaches lay code u v" and v: "emit_filled lay q n ret' i j bs u v" "R (mm v)" using fills [OF ru u(2)] by blast
  note va = v(1) [unfolded emit_filled_def]
  let ?V = "[(rsp s - 0x10, 0x10), (q - 0x70, 0x70 + n), (fake_stack, 8), (flag_at 0 i, 1), (frame_at 0 i, 0x40), (shadow (frame_at 0 i), 8)]"
  have kt: "keeps [(rsp s - 0x10, 0x10), (q - 0x70, 0x70 + n)] (mm s) (mm t)" using t by simp
  have tv: "keeps [(q - 0x70, 0x70 + n), (fake_stack, 8), (flag_at 0 i, 1), (frame_at 0 i, 0x40), (shadow (frame_at 0 i), 8)] (mm t) (mm v)"
    using ua va size by (auto intro!: keeps_trans [of _ "mm t" "mm u"] elim!: keeps_mono simp: covers_def inside_offsets)
  have kv: "keeps ?V (mm s) (mm v)"
    by (rule keeps_trans [OF keeps_mono [OF kt] keeps_mono [OF tv]]) (simp_all add: covers_def)
  have "hash_object (frame_at 1 j) (mm s)" using E by (simp add: emit_ready_def)
  then have obj: "hash_object (frame_at 1 j) (mm v)"
    using keeps_ld [OF kv, of "frame_at 1 j + 0x40" 8] keeps_byte [OF kv, of "shadow (frame_at 1 j) + 4"]
      keeps_byte [OF kv, of "shadow (frame_at 1 j) + 8"] by (simp add: hash_object_def loc)
  obtain w where w: "returns lay code v w"
      "ld 8 (frame_at 1 j + 0x20) (mm w) = foldl fnv_step (ld 8 (frame_at 1 j + 0x20) (mm v)) bs"
      and kw: "keeps [(q - 0x70, 0x68), (frame_at 1 j + 0x20, 8)] (mm v) (mm w)"
    using emit_hashes [OF p fb W n obj v(1)] by blast
  have rw: "rip w = ret'" "rsp w = q" "rbx w = q" "rbp w = rsp s - 8" "saved w = saved t"
    using w(1) va t ru(2) by (simp_all add: returns_def saved_simps)
  obtain x where wx: "reaches lay code w x" "emit_closed i (rsp s) w x"
    using closes [OF v(2), of w] va rw(1-4) kw by blast
  note x = wx(2) [unfolded emit_closed_def]
  have kx: "keeps [(flag_at 0 i, 1), (frame_at 0 i, 0x40), (shadow (frame_at 0 i), 8)] (mm w) (mm x)" using x by simp
  let ?U = "?V @ [(frame_at 1 j + 0x20, 8)]"
  have "keeps ?U (mm s) (mm x)"
    by (rule keeps_trans [OF keeps_mono [OF kv] keeps_trans [OF keeps_mono [OF kw] keeps_mono [OF kx]]])
      (simp_all add: covers_def inside_offsets size)
  then have "keeps [(rsp s - 0x160, 0x160), (fake_stack, 8), (flag_at 0 i, 1), (frame_at 0 i, 0x40), (shadow (frame_at 0 i), 8),
      (frame_at 1 j + 0x20, 8)] (mm s) (mm x)"
    using inside_trans [OF emit_room(1) [OF n, of "rsp s"], folded q]
    by (elim keeps_mono) (simp add: covers_def inside_offsets)
  moreover have "ld 8 (rsp s) (mm w) = ld 8 (rsp s) (mm s)" "ld 8 (rsp s - 8) (mm w) = rbp s" "ld 8 (rsp s - 0x10) (mm w) = rbx s"
    using t keeps_ld [OF kt, of "rsp s" 8] keeps_ld [OF tv, of _ 8] keeps_ld [OF kw, of _ 8] by (simp_all add: loc)
  moreover have "reaches lay code s x"
    using opens(1) u(1) [THEN returns_reaches] uv w(1) [THEN returns_reaches] wx(1) by (meson reaches_trans)
  moreover have "ld 8 (frame_at 1 j + 0x20) (mm x) = ld 8 (frame_at 1 j + 0x20) (mm w)"
    "ld 8 (frame_at 1 j + 0x20) (mm v) = ld 8 (frame_at 1 j + 0x20) (mm s)"
    by (rule keeps_ld [OF kx] keeps_ld [OF kv]; simp add: loc)+
  ultimately have "emitted lay code i j bs s x"
    using x w(2) rw t ucast_byte [of "mm x (flag_at 0 i)"]
    by (simp add: emitted_def returns_def saved_simps ld_1)
  then show ?thesis by blast
qed

section \<open>emit\_i16\<close>

lemma emit_i16_opens:
  assumes p: "placed code base emit_i16_code" and "rip s = base"
    and run: "runtime lay data g tp (mm s)" and q: "q = frame_base (rsp s) 0xA0"
    and w: "scattered [(rsp s - 0x10, 0x18), (q - 0x70, 0x110), (data, 0x140)]"
  shows "\<exists>t. reaches lay code s t \<and> rip t = lay (Fn 0) \<and> rdi t = 0x40 \<and> rsp t = q - 8 \<and> rbx t = q
    \<and> saved t = saved (s\<lparr>rbx := q, rbp := rsp s - 8\<rparr>)
    \<and> ld 8 (q - 8) (mm t) = 0x3D + base \<and> ld 8 (q + 0x80) (mm t) = rdi s \<and> ld 2 (q + 0x7E) (mm t) = take_bit 16 (rsi s)
    \<and> ld 8 (rsp s - 8) (mm t) = rbp s \<and> ld 8 (rsp s - 0x10) (mm t) = rbx s
    \<and> keeps [(rsp s - 0x10, 0x10), (q - 0x70, 0x110)] (mm s) (mm t)"
proof -
  note fetch = p [unfolded placed_def emit_i16_code_def list.pred_inject split_conv add_0_left]
  have "placed code base (enter_code 0xA0)" by (simp add: placed_def enter_code_def fetch)
  then obtain f where f: "run lay code 6 s = Some (entered 0xA0 base f s)" using enters assms(2) by blast
  note sep = scattered_spread [OF w, unfolded spread.simps list.pred_inject split_conv]
  have "\<exists>t. run lay code 10 (entered 0xA0 base f s) = Some t \<and> rip t = lay (Fn 0) \<and> rdi t = 0x40 \<and> rsp t = q - 8 \<and> rbx t = q
    \<and> saved t = saved (s\<lparr>rbx := q, rbp := rsp s - 8\<rparr>)
    \<and> ld 8 (q - 8) (mm t) = 0x3D + base \<and> ld 8 (q + 0x80) (mm t) = rdi s \<and> ld 2 (q + 0x7E) (mm t) = take_bit 16 (rsi s)
    \<and> ld 8 (rsp s - 8) (mm t) = rbp s \<and> ld 8 (rsp s - 0x10) (mm t) = rbx s
    \<and> keeps [(rsp s - 0x10, 0x10), (q - 0x70, 0x110)] (mm s) (mm t)"
    unfolding entered_def q [symmetric]
    by (simp add: x86 fetch saved_simps runtime_reads [OF run] sep keeps_refl keeps_st covers_def)
  with f show ?thesis by (blast intro: reaches_trans reaches_run)
qed

lemma and_0xFF: "(x :: u64) AND 0xFF = take_bit 8 x"
  by (simp add: take_bit_eq_mask mask_eq_exp_minus_1)

lemma sar_8: "take_bit 8 (sign_extend 24 (drop_bit 8 (take_bit 16 x))) = take_bit 8 (drop_bit 8 (x :: u64))"
  by (intro bit_eqI) (auto simp: sign_extend_def bit_simps)

lemma emit_i16_marks:
  assumes p: "placed code base emit_i16_code" and "rip s = 0x3D + base"
    and run: "runtime lay data g tp (mm s)"
    and w: "scattered [(q - 0x70, 0x110), (data, 0x140), (fr, 0x40), (sh, 8)]"
    and regs: "rbx s = q" "rsp s = q" "rax s = fr"
    and fr: "fr \<noteq> 0" "drop_bit 3 fr = sh - 0x7FFF8000"
    and obj: "ld 8 (q + 0x80) (mm s) = obj" and v: "ld 2 (q + 0x7E) (mm s) = take_bit 16 v"
  shows "\<exists>t. run lay code 47 s = Some t \<and> rip t = 0x140 + base \<and> rbx t = q \<and> rsp t = q \<and> saved t = saved s
    \<and> ld 8 (q + 0x28) (mm t) = fr \<and> ld 8 (q + 0x30) (mm t) = fr + 0x20 \<and> ld 8 (q + 0x38) (mm t) = sh
    \<and> ld 8 (q + 0x48) (mm t) = fr \<and> ld 8 (q + 0x80) (mm t) = obj \<and> ld 1 (q + 0x23) (mm t) = take_bit 8 (drop_bit 8 v)
    \<and> ld 1 (fr + 0x20) (mm t) = take_bit 8 v
    \<and> ld 1 (sh + 4) (mm t) = 2 \<and> ld 8 (fr + 0x38) (mm t) = ld 8 (fr + 0x38) (mm s)
    \<and> keeps [(q, 0xA0), (fr, 0x40), (sh, 8)] (mm s) (mm t)"
proof -
  note fetch = p [unfolded placed_def emit_i16_code_def list.pred_inject split_conv add_0_left]
  note sep = scattered_spread [OF w, unfolded spread.simps list.pred_inject split_conv]
  show ?thesis
    using assms(2) regs fr obj v
    by (simp add: x86 fetch saved_simps runtime_reads [OF run] sep keeps_refl keeps_st covers_def and_0xFF sar_8)
qed

lemma emit_i16_passes:
  assumes p: "placed code base emit_i16_code" and "rip s = 0x140 + base"
    and w: "scattered [(q - 0x70, 0x110), (fr, 0x40), (sh, 8)]"
    and regs: "rbx s = q" "rsp s = q"
    and slots: "ld 8 (q + 0x30) (mm s) = fr + 0x20" "ld 1 (q + 0x23) (mm s) = take_bit 8 hi"
    and fr: "fr + 0x20 \<noteq> 0" "fr + 0x21 \<noteq> 0" "\<not> fr + 0x21 < fr + 0x20"
    and obj: "ld 8 (q + 0x80) (mm s) = obj" "obj \<noteq> 0" "obj AND 7 = 0"
  shows "\<exists>t. run lay code 39 s = Some t \<and> rip t = lay (Fn 11) \<and> rdi t = obj \<and> rsi t = fr + 0x20 \<and> rdx t = 2
    \<and> rbx t = q \<and> rsp t = q - 8 \<and> saved t = saved s
    \<and> ld 8 (q - 8) (mm t) = 0x1F3 + base \<and> ld 1 (fr + 0x21) (mm t) = take_bit 8 hi
    \<and> keeps [(q - 8, 0x28), (fr + 0x21, 1)] (mm s) (mm t)"
proof -
  note fetch = p [unfolded placed_def emit_i16_code_def list.pred_inject split_conv add_0_left]
  note sep = scattered_spread [OF w, unfolded spread.simps list.pred_inject split_conv]
  show ?thesis
    using assms(2) regs fr slots obj
    by (simp add: x86 fetch saved_simps sep keeps_refl keeps_st covers_def add.commute [of "0x21" fr])
qed

lemma emit_i16_closes:
  assumes p: "placed code base emit_i16_code" and "rip s = 0x1F3 + base"
    and w: "scattered [(sp - 0x10, 0x18), (q - 0x70, 0x110), (flag, 1), (fr, 0x40), (sh, 8)]"
    and regs: "rbx s = q" "rsp s = q" "rbp s = sp - 8"
    and slots: "ld 8 (q + 0x28) (mm s) = fr" "ld 8 (q + 0x38) (mm s) = sh" "ld 8 (q + 0x48) (mm s) = fr"
      "ld 8 (fr + 0x38) (mm s) = flag" and "fr \<noteq> 0"
  shows "\<exists>t. run lay code 18 s = Some t \<and> rip t = ld 8 sp (mm s) \<and> rsp t = sp + 8
    \<and> saved t = saved (s\<lparr>rbp := ld 8 (sp - 8) (mm s), rbx := ld 8 (sp - 0x10) (mm s)\<rparr>)
    \<and> ld 1 flag (mm t) = 0 \<and> keeps [(flag, 1), (fr, 0x40), (sh, 8)] (mm s) (mm t)"
proof -
  note fetch = p [unfolded placed_def emit_i16_code_def list.pred_inject split_conv add_0_left]
  note sep = scattered_spread [OF w, unfolded spread.simps list.pred_inject split_conv]
  show ?thesis
    using assms(2) regs slots \<open>fr \<noteq> 0\<close>
    apply (simp add: x86 fetch saved_simps sep keeps_refl keeps_st covers_def)
    done
qed
lemma frame_addresses:
  assumes "frame_blocks k i" and "d < 0x1000"
  shows "frame_at k i + d \<noteq> 0" and "e \<le> d \<Longrightarrow> \<not> frame_at k i + d < frame_at k i + e" and "frame_at k i \<noteq> 0"
proof -
  have "unat (frame_at k i) < 0x600000309000" "0x600000009000 \<le> unat (frame_at k i)" "unat d < 0x1000"
    using assms by (simp_all add: frame_blocks_def word_less_nat_alt word_le_nat_alt)
  then have *: "unat (frame_at k i + e) = unat (frame_at k i) + unat e" "unat (frame_at k i) > 0" if "e \<le> d" for e
    using that by (auto simp: unat_word_ariths word_le_nat_alt)
  from * [of d] have "0 < unat (frame_at k i + d)" by simp
  then show "frame_at k i + d \<noteq> 0" by auto
  show "frame_at k i \<noteq> 0" using * [of d] by auto
  show "e \<le> d \<Longrightarrow> \<not> frame_at k i + d < frame_at k i + e" using * by (simp add: word_less_nat_alt word_le_nat_alt)
qed

lemma emit_i16_fills:
  assumes p: "placed code base emit_i16_code" and E: "emit_ready lay data tp i j s" and q: "q = frame_base (rsp s) 0xA0"
    and t: "ld 8 (q + 0x80) (mm t) = rdi s" "ld 2 (q + 0x7E) (mm t) = take_bit 16 (rsi s)" "gs t = gs s"
    and u: "rip (u :: xstate) = 0x3D + base" "saved u = saved t" "emit_allocated lay data tp q i t u"
  shows "\<exists>v. reaches lay code u v \<and> emit_filled lay q 0xA0 (0x1F3 + base) i j [ucast (rsi s), ucast (drop_bit 8 (rsi s))] u v
    \<and> ld 8 (q + 0x28) (mm v) = frame_at 0 i \<and> ld 8 (q + 0x38) (mm v) = shadow (frame_at 0 i) \<and> ld 8 (q + 0x48) (mm v) = frame_at 0 i"
proof -
  note fb = emit_ready_frames(1,2) [OF E disjI1 [OF refl]]
  note W = emit_ready_frames(3) [OF E disjI1 [OF refl], folded q, unfolded emit_blocks_def]
  define fr fh where "fr = frame_at 0 i" and "fh = frame_at 1 j"
  note sep = scattered_spread [OF W, folded fr_def fh_def, unfolded spread.simps list.pred_inject split_conv]
  note loc = clear_def sep apart_offsets inside_offsets word_offsets
  note ua = u(3) [unfolded emit_allocated_def, folded fr_def]
  have "scattered [(q - 0x70, 0x110), (data, 0x140), (fr, 0x40), (shadow fr, 8)]"
    by (rule scattered_of [OF W, of "[1, 2, 8, 10]"]) (simp_all add: fr_def)
  moreover have high: "fr \<noteq> 0" "fr + 0x20 \<noteq> 0" "fr + 0x21 \<noteq> 0" "\<not> fr + 0x21 < fr + 0x20" "fh + 0x40 \<noteq> 0" "(fh + 0x40) AND 7 = 0"
    using frame_addresses [OF fb(1), of "0x21"] frame_addresses [OF fb(1), of "0x20"] frame_addresses [OF fb(2), of "0x40"]
      in_frame(2) [OF fb(2), of "0x40" 0] by (simp_all add: fr_def fh_def)
  moreover have ku: "keeps [(q - 0x70, 0x68), (fake_stack, 8), (flag_at 0 i, 1), (fr, 0x40), (shadow fr, 8)] (mm t) (mm u)" using ua by simp
  moreover have "ld 8 (q + 0x80) (mm u) = fh + 0x40" "ld 2 (q + 0x7E) (mm u) = take_bit 16 (rsi s)"
    using t E keeps_ld [OF ku, of "q + 0x80" 8] keeps_ld [OF ku, of "q + 0x7E" 2] by (simp_all add: loc fh_def emit_ready_def)
  moreover have "drop_bit 3 fr = shadow fr - 0x7FFF8000" by (simp add: shadow_def)
  moreover have "runtime lay data (gs u) tp (mm u)" "rbx u = q" "rsp u = q" "rax u = fr" using ua by simp_all
  ultimately obtain v where r: "run lay code 47 u = Some v"
    and v: "rip v = 0x140 + base" "rbx v = q" "rsp v = q" "saved v = saved u"
      "ld 8 (q + 0x28) (mm v) = fr" "ld 8 (q + 0x30) (mm v) = fr + 0x20" "ld 8 (q + 0x38) (mm v) = shadow fr"
      "ld 8 (q + 0x48) (mm v) = fr" "ld 8 (q + 0x80) (mm v) = fh + 0x40" "ld 1 (q + 0x23) (mm v) = take_bit 8 (drop_bit 8 (rsi s))"
      "ld 1 (fr + 0x20) (mm v) = take_bit 8 (rsi s)" "ld 1 (shadow fr + 4) (mm v) = 2" "ld 8 (fr + 0x38) (mm v) = flag_at 0 i"
    and kv: "keeps [(q, 0xA0), (fr, 0x40), (shadow fr, 8)] (mm u) (mm v)"
    using emit_i16_marks [OF p u(1), of lay data "gs u" tp q fr "shadow fr" "fh + 0x40" "rsi s"] ua by metis
  have "scattered [(q - 0x70, 0x110), (fr, 0x40), (shadow fr, 8)]"
    by (rule scattered_of [OF W, of "[1, 8, 10]"]) (simp_all add: fr_def)
  from emit_i16_passes [OF p v(1) this v(2,3,6,10) high(2,3,4) v(9) high(5,6), of lay] obtain w where
    r': "run lay code 39 v = Some w"
    and w: "rip w = lay (Fn 11)" "rdi w = fh + 0x40" "rsi w = fr + 0x20" "rdx w = 2" "rbx w = q" "rsp w = q - 8"
      "saved w = saved v" "ld 8 (q - 8) (mm w) = 0x1F3 + base" "ld 1 (fr + 0x21) (mm w) = take_bit 8 (drop_bit 8 (rsi s))"
    and kw: "keeps [(q - 8, 0x28), (fr + 0x21, 1)] (mm v) (mm w)" by blast
  have "keeps [(q - 8, 0xA8), (fr, 0x40), (shadow fr, 8)] (mm u) (mm w)"
    by (rule keeps_trans [OF keeps_mono [OF kv] keeps_mono [OF kw]]) (simp_all add: covers_def inside_offsets)
  moreover have "mm w (fr + 0x20) = ucast (rsi s)" "mm w (fr + 0x21) = ucast (drop_bit 8 (rsi s))"
  proof -
    have "ucast (mm w (fr + 0x20)) = take_bit 8 (rsi s)" "ucast (mm w (fr + 0x21)) = take_bit 8 (drop_bit 8 (rsi s))"
      using v(11) w(9) keeps_byte [OF kw, of "fr + 0x20"] by (simp_all add: loc ld_1)
    then show "mm w (fr + 0x20) = ucast (rsi s)" "mm w (fr + 0x21) = ucast (drop_bit 8 (rsi s))"
      by (metis ucast_take_bit_8 ucast_byte)+
  qed
  moreover have "mm w (shadow fr + 4) = 2"
    using v(12) ucast_byte [of "mm v (shadow fr + 4)"] keeps_byte [OF kw, of "shadow fr + 4"] by (simp add: loc ld_1)
  moreover have "ld 8 (fr + 0x38) (mm w) = flag_at 0 i" "ld 8 (q + 0x28) (mm w) = fr" "ld 8 (q + 0x38) (mm w) = shadow fr" "ld 8 (q + 0x48) (mm w) = fr"
    using v keeps_ld [OF kw, of _ 8] by (simp_all add: loc)
  ultimately have "emit_filled lay q 0xA0 (0x1F3 + base) i j [ucast (rsi s), ucast (drop_bit 8 (rsi s))] u w
    \<and> ld 8 (q + 0x28) (mm w) = frame_at 0 i \<and> ld 8 (q + 0x38) (mm w) = shadow (frame_at 0 i) \<and> ld 8 (q + 0x48) (mm w) = frame_at 0 i"
    unfolding emit_filled_def fr_def [symmetric] fh_def [symmetric] using w v(4) by (simp add: upt_rec add.commute [of "0x21" fr])
  then show ?thesis using reaches_trans [OF reaches_run [OF r] reaches_run [OF r']] by blast
qed

lemma emit_i16_runs:
  assumes m: "machine lay code" and p: "placed code base emit_i16_code" "placed code (lay (Fn 11)) hash_lambda_code"
    and "rip s = base" and E: "emit_ready lay data tp i j s"
  shows "\<exists>t. emitted lay code i j [ucast (rsi s), ucast (drop_bit 8 (rsi s))] s t"
proof -
  define q where "q = frame_base (rsp s) 0xA0"
  note n = disjI1 [OF refl, of "0xA0" "0xA0 = 0xC0"]
  note W = emit_ready_frames(3) [OF E disjI1 [OF refl], folded q_def, unfolded emit_blocks_def]
  have run: "runtime lay data (gs s) tp (mm s)" using E by (simp add: emit_ready_def)
  have "scattered [(rsp s - 0x10, 0x18), (q - 0x70, 0x110), (data, 0x140)]"
    by (rule scattered_of [OF W, of "[0, 1, 2]"]) simp_all
  from emit_i16_opens [OF p(1) assms(4) run q_def this] obtain t where
    t: "reaches lay code s t" "emit_opened lay q 0xA0 (0x3D + base) s t"
      "ld 8 (q + 0x80) (mm t) = rdi s" "ld 2 (q + 0x7E) (mm t) = take_bit 16 (rsi s)"
    unfolding emit_opened_def by auto
  have gs: "gs t = gs s" using t(2) by (simp add: emit_opened_def saved_simps)
  show ?thesis
  proof (rule emit_assembly [OF m p(2) E disjI1 [OF refl] q_def t(1,2), where ret' = "0x1F3 + base"
      and R = "\<lambda>m. ld 8 (q + 0x28) m = frame_at 0 i \<and> ld 8 (q + 0x38) m = shadow (frame_at 0 i) \<and> ld 8 (q + 0x48) m = frame_at 0 i"])
    fix u :: xstate
    assume "rip u = 0x3D + base" "saved u = saved t" "emit_allocated lay data tp q i t u"
    then show "\<exists>v. reaches lay code u v \<and> emit_filled lay q 0xA0 (0x1F3 + base) i j [ucast (rsi s), ucast (drop_bit 8 (rsi s))] u v
        \<and> ld 8 (q + 0x28) (mm v) = frame_at 0 i \<and> ld 8 (q + 0x38) (mm v) = shadow (frame_at 0 i) \<and> ld 8 (q + 0x48) (mm v) = frame_at 0 i"
      by (rule emit_i16_fills [OF p(1) E q_def t(3,4) gs])
  next
    fix v w :: xstate
    assume R: "ld 8 (q + 0x28) (mm v) = frame_at 0 i \<and> ld 8 (q + 0x38) (mm v) = shadow (frame_at 0 i) \<and> ld 8 (q + 0x48) (mm v) = frame_at 0 i"
      "ld 8 (frame_at 0 i + 0x38) (mm v) = flag_at 0 i"
      and w: "rip w = 0x1F3 + base" "rsp w = q" "rbx w = q" "rbp w = rsp s - 8"
      and k: "keeps [(q - 0x70, 0x68), (frame_at 1 j + 0x20, 8)] (mm v) (mm w)"
    note sep = scattered_spread [OF W, unfolded spread.simps list.pred_inject split_conv]
    have same: "ld 8 (q + 0x28) (mm w) = frame_at 0 i" "ld 8 (q + 0x38) (mm w) = shadow (frame_at 0 i)" "ld 8 (q + 0x48) (mm w) = frame_at 0 i"
      "ld 8 (frame_at 0 i + 0x38) (mm w) = flag_at 0 i"
      using R keeps_ld [OF k, of _ 8] by (simp_all add: clear_def sep apart_offsets inside_offsets)
    have "scattered [(rsp s - 0x10, 0x18), (q - 0x70, 0x110), (flag_at 0 i, 1), (frame_at 0 i, 0x40), (shadow (frame_at 0 i), 8)]"
      by (rule scattered_of [OF W, of "[0, 1, 7, 8, 10]"]) simp_all
    moreover have "frame_at 0 i \<noteq> 0" by (rule frame_addresses [OF emit_ready_frames(1) [OF E disjI1 [OF refl]], of 0]) simp
    ultimately show "\<exists>x. reaches lay code w x \<and> emit_closed i (rsp s) w x"
      using emit_i16_closes [OF p(1) w(1) _ w(3,2,4) same] unfolding emit_closed_def by (blast intro: reaches_run)
  qed
qed

end
