(* ===== verification/Payload_U64.thy ===== *)
theory Payload_U64
  imports Payload_Emit
begin

text \<open>
  \<open>emit_u64\<close> of the reproducer as machine code: eight bytes, least significant first, into the buffer,
  and one call of the lambda.
\<close>

section \<open>Listing\<close>

definition emit_u64_code :: "symbol listing" where
  "emit_u64_code = [
    (0, Push RBP, 1),
    (1, Mov (Reg W64 RSP) (Reg W64 RBP), 3),
    (4, Push RBX, 1),
    (5, Alu And_op (Imm (- 0x20)) (Reg W64 RSP), 4),
    (9, Alu Sub_op (Imm 0xC0) (Reg W64 RSP), 7),
    (0x10, Mov (Reg W64 RSP) (Reg W64 RBX), 3),
    (0x13, Mov (Reg W64 RDI) (At W64 0xA0 RBX), 7),
    (0x1A, Mov (Reg W64 RSI) (At W64 0x98 RBX), 7),
    (0x21, Alu Xor_op (Reg W32 RAX) (Reg W32 RAX), 2),
    (0x23, Lea (Rip W64 D_Detect_Uar 0) (Reg W64 RCX), 7),
    (0x2A, Cmp (Imm 0) (At W32 0 RCX), 3),
    (0x2D, Mov (Reg W64 RAX) (At W64 0x78 RBX), 4),
    (0x31, J CC_E 0xE, 2),
    (0x33, Mov (Imm 0x40) (Reg W32 RDI), 5),
    (0x38, Call (Fn 0), 5),
    (0x3D, Mov (Reg W64 RAX) (At W64 0x78 RBX), 4),
    (0x41, Mov (At W64 0x78 RBX) (Reg W64 RAX), 4),
    (0x45, Mov (Reg W64 RAX) (At W64 0x68 RBX), 4),
    (0x49, Cmp (Imm 0) (Reg W64 RAX), 4),
    (0x4D, Mov (Reg W64 RAX) (At W64 0x70 RBX), 4),
    (0x51, J CC_NE 0x12, 2),
    (0x53, Mov (Reg W64 RSP) (Reg W64 RAX), 3),
    (0x56, Alu Add_op (Imm (- 0x40)) (Reg W64 RAX), 4),
    (0x5A, Alu And_op (Imm (- 0x20)) (Reg W64 RAX), 4),
    (0x5E, Mov (Reg W64 RAX) (Reg W64 RSP), 3),
    (0x61, Mov (Reg W64 RAX) (At W64 0x70 RBX), 4),
    (0x65, Mov (At W64 0x70 RBX) (Reg W64 RAX), 4),
    (0x69, Mov (Reg W64 RAX) (At W64 0x50 RBX), 4),
    (0x6D, Mov (Reg W64 RAX) (At W64 0x88 RBX), 7),
    (0x74, Mov (Reg W64 RAX) (Reg W64 RCX), 3),
    (0x77, Alu Add_op (Imm 0x20) (Reg W64 RCX), 4),
    (0x7B, Mov (Reg W64 RCX) (At W64 0x58 RBX), 4),
    (0x7F, Mov (Imm 0x41B58AB3) (At W64 0 RAX), 7),
    (0x86, Lea (Rip W64 D_Dummy 0) (Reg W64 RCX), 7),
    (0x8D, Mov (Reg W64 RCX) (At W64 8 RAX), 4),
    (0x91, Lea (Rip W64 (Fn 6) 0) (Reg W64 RCX), 7),
    (0x98, Mov (Reg W64 RCX) (At W64 0x10 RAX), 4),
    (0x9C, Shr 3 (Reg W64 RAX), 4),
    (0xA0, Mov (Reg W64 RAX) (Reg W64 RCX), 3),
    (0xA3, Alu Add_op (Imm 0x7FFF8000) (Reg W64 RCX), 7),
    (0xAA, Mov (Reg W64 RCX) (At W64 0x60 RBX), 4),
    (0xAE, Mov (Imm 0xF3F3F3F8F1F1F1F1) (Reg W64 RCX), 10),
    (0xB8, Mov (Reg W64 RCX) (At W64 0x7FFF8000 RAX), 7),
    (0xBF, Mov (Imm 0) (At W8 0x7FFF8004 RAX), 7),
    (0xC6, Mov (Imm 0) (At W32 0x94 RBX), 10),
    (0xD0, Cmp (Imm 8) (At W32 0x94 RBX), 7),
    (0xD7, J CC_L 5, 2),
    (0xD9, Jmp 0x164, 5),
    (0xDE, Mov (At W64 0x98 RBX) (Reg W64 RAX), 7),
    (0xE5, Mov (Reg W64 RAX) (At W64 0x40 RBX), 4),
    (0xE9, Mov (At W32 0x94 RBX) (Reg W32 RAX), 6),
    (0xEF, Mov (Reg W32 RAX) (At W32 0x48 RBX), 3),
    (0xF2, Mov (Imm 8) (Reg W32 RCX), 5),
    (0xF7, Imul (Reg W32 RCX) (Reg W32 RAX), 3),
    (0xFA, Mov (Reg W32 RAX) (At W32 0x4C RBX), 3),
    (0xFD, Set CC_O (Reg W8 RAX), 3),
    (0x100, Alu Xor_op (Imm 0xFF) (Reg W8 RAX), 2),
    (0x102, Test (Imm 1) (Reg W8 RAX), 2),
    (0x104, J CC_NE 0x18, 2),
    (0x106, Mov (At W32 0x48 RBX) (Reg W32 RAX), 3),
    (0x109, Mov (Reg W32 RAX) (Reg W32 RAX), 2),
    (0x10B, Mov (Reg W32 RAX) (Reg W32 RDX), 2),
    (0x10D, Lea (Rip W64 D_Dummy 0) (Reg W64 RDI), 7),
    (0x114, Mov (Imm 8) (Reg W32 RSI), 5),
    (0x119, Call (Trap 17), 5),
    (0x11E, Mov (At W32 0x4C RBX) (Reg W32 RAX), 3),
    (0x121, Mov (Reg W32 RAX) (Reg W32 RCX), 2),
    (0x123, Mov (Reg W64 RCX) (At W64 0x38 RBX), 4),
    (0x127, Cmp (Imm 0x3F) (Reg W32 RAX), 3),
    (0x12A, J CC_BE 0x17, 2),
    (0x12C, Mov (At W64 0x40 RBX) (Reg W64 RSI), 4),
    (0x130, Mov (At W32 0x4C RBX) (Reg W32 RAX), 3),
    (0x133, Mov (Reg W32 RAX) (Reg W32 RAX), 2),
    (0x135, Mov (Reg W32 RAX) (Reg W32 RDX), 2),
    (0x137, Lea (Rip W64 D_Dummy 0) (Reg W64 RDI), 7),
    (0x13E, Call (Trap 18), 5),
    (0x143, Mov (At W64 0x40 RBX) (Reg W64 RAX), 4),
    (0x147, Mov (At W64 0x38 RBX) (Reg W64 RCX), 4),
    (0x14B, Shr_Cl (Reg W64 RAX), 3),
    (0x14E, Alu And_op (Imm 0xFF) (Reg W64 RAX), 6),
    (0x154, Mov (Reg W8 RAX) (At W8 0x33 RBX), 3),
    (0x157, Mov (At W32 0x94 RBX) (Reg W32 RAX), 6),
    (0x15D, Mov (Reg W32 RAX) (At W32 0x34 RBX), 3),
    (0x160, Movs (Reg W32 RAX) (Reg W64 RAX), 2),
    (0x162, Cmp (Imm 8) (Reg W64 RAX), 4),
    (0x166, J CC_B 0x13, 2),
    (0x168, Mov (At W32 0x34 RBX) (Reg W32 RAX), 3),
    (0x16B, Mov (Reg W32 RAX) (Reg W32 RAX), 2),
    (0x16D, Mov (Reg W32 RAX) (Reg W32 RSI), 2),
    (0x16F, Lea (Rip W64 D_Dummy 0) (Reg W64 RDI), 7),
    (0x176, Call (Trap 19), 5),
    (0x17B, Mov (At W64 0x58 RBX) (Reg W64 RSI), 4),
    (0x17F, Mov (At W32 0x34 RBX) (Reg W32 RAX), 3),
    (0x182, Movs (Reg W32 RAX) (Reg W64 RDI), 3),
    (0x185, Mov (Reg W64 RSI) (Reg W64 RCX), 3),
    (0x188, Alu Add_op (Reg W64 RDI) (Reg W64 RCX), 3),
    (0x18B, Mov (Reg W64 RCX) (At W64 0x18 RBX), 4),
    (0x18F, Mov (Reg W64 RCX) (Reg W64 RAX), 3),
    (0x192, Mov (Reg W64 RAX) (At W64 0x20 RBX), 4),
    (0x196, Mov (Reg W64 RSI) (Reg W64 RAX), 3),
    (0x199, Mov (Reg W64 RAX) (At W64 0x28 RBX), 4),
    (0x19D, Test (Reg W64 RSI) (Reg W64 RSI), 3),
    (0x1A0, Set CC_NE (Reg W8 RAX), 3),
    (0x1A3, Test (Reg W64 RCX) (Reg W64 RCX), 3),
    (0x1A6, Set CC_NE (Reg W8 RDX), 3),
    (0x1A9, Alu Xor_op (Reg W8 RDX) (Reg W8 RAX), 2),
    (0x1AB, Alu Xor_op (Imm 1) (Reg W8 RAX), 2),
    (0x1AD, Mov (Imm 1) (Reg W8 RDX), 2),
    (0x1AF, Alu Sub_op (Reg W64 RSI) (Reg W64 RCX), 3),
    (0x1B2, Set CC_AE (Reg W8 RSI), 4),
    (0x1B6, Set CC_B (Reg W8 RCX), 3),
    (0x1B9, Test (Reg W64 RDI) (Reg W64 RDI), 3),
    (0x1BC, Mov (Reg W8 RSI) (Reg W32 RSI), 4),
    (0x1C0, Mov (Reg W8 RCX) (Reg W32 RCX), 3),
    (0x1C3, Cmov CC_NS (Reg W32 RSI) (Reg W32 RCX), 3),
    (0x1C6, Alu And_op (Reg W8 RDX) (Reg W8 RCX), 2),
    (0x1C8, Alu And_op (Reg W8 RCX) (Reg W8 RAX), 2),
    (0x1CA, Test (Imm 1) (Reg W8 RAX), 2),
    (0x1CC, J CC_NE 0x14, 2),
    (0x1CE, Mov (At W64 0x18 RBX) (Reg W64 RDX), 4),
    (0x1D2, Mov (At W64 0x28 RBX) (Reg W64 RSI), 4),
    (0x1D6, Lea (Rip W64 D_Dummy 0) (Reg W64 RDI), 7),
    (0x1DD, Call (Trap 21), 5),
    (0x1E2, Mov (At W64 0x20 RBX) (Reg W64 RAX), 4),
    (0x1E6, Cmp (Imm 0) (Reg W64 RAX), 4),
    (0x1EA, J CC_NE 0x10, 2),
    (0x1EC, Mov (At W64 0x20 RBX) (Reg W64 RSI), 4),
    (0x1F0, Lea (Rip W64 D_Dummy 0) (Reg W64 RDI), 7),
    (0x1F7, Call (Trap 15), 5),
    (0x1FC, Mov (At W64 0x20 RBX) (Reg W64 RAX), 4),
    (0x200, Mov (At W8 0x33 RBX) (Reg W8 RCX), 3),
    (0x203, Mov (Reg W8 RCX) (At W8 0 RAX), 2),
    (0x205, Mov (At W32 0x94 RBX) (Reg W32 RAX), 6),
    (0x20B, Mov (Reg W32 RAX) (At W32 0x10 RBX), 3),
    (0x20E, Inc (Reg W32 RAX), 2),
    (0x210, Mov (Reg W32 RAX) (At W32 0x14 RBX), 3),
    (0x213, Set CC_O (Reg W8 RAX), 3),
    (0x216, Alu Xor_op (Imm 0xFF) (Reg W8 RAX), 2),
    (0x218, Test (Imm 1) (Reg W8 RAX), 2),
    (0x21A, J CC_NE 0x18, 2),
    (0x21C, Mov (At W32 0x10 RBX) (Reg W32 RAX), 3),
    (0x21F, Mov (Reg W32 RAX) (Reg W32 RAX), 2),
    (0x221, Mov (Reg W32 RAX) (Reg W32 RSI), 2),
    (0x223, Lea (Rip W64 D_Dummy 0) (Reg W64 RDI), 7),
    (0x22A, Mov (Imm 1) (Reg W32 RDX), 5),
    (0x22F, Call (Trap 16), 5),
    (0x234, Mov (At W32 0x14 RBX) (Reg W32 RAX), 3),
    (0x237, Mov (Reg W32 RAX) (At W32 0x94 RBX), 6),
    (0x23D, Jmp (- 0x172), 5),
    (0x242, Mov (At W64 0xA0 RBX) (Reg W64 RCX), 7),
    (0x249, Mov (Reg W64 RCX) (At W64 8 RBX), 4),
    (0x24D, Cmp (Imm 0) (Reg W64 RCX), 4),
    (0x251, Set CC_NE (Reg W8 RAX), 3),
    (0x254, Alu And_op (Imm 7) (Reg W64 RCX), 4),
    (0x258, Cmp (Imm 0) (Reg W64 RCX), 4),
    (0x25C, Set CC_E (Reg W8 RCX), 3),
    (0x25F, Alu And_op (Reg W8 RCX) (Reg W8 RAX), 2),
    (0x261, Test (Imm 1) (Reg W8 RAX), 2),
    (0x263, J CC_NE 0x10, 2),
    (0x265, Mov (At W64 8 RBX) (Reg W64 RSI), 4),
    (0x269, Lea (Rip W64 D_Dummy 0) (Reg W64 RDI), 7),
    (0x270, Call (Trap 15), 5),
    (0x275, Mov (At W64 0x58 RBX) (Reg W64 RSI), 4),
    (0x279, Mov (At W64 8 RBX) (Reg W64 RDI), 4),
    (0x27D, Mov (Imm 8) (Reg W32 RDX), 5),
    (0x282, Call (Fn 11), 5),
    (0x287, Mov (At W64 0x60 RBX) (Reg W64 RDX), 4),
    (0x28B, Mov (At W64 0x50 RBX) (Reg W64 RCX), 4),
    (0x28F, Mov (At W64 0x68 RBX) (Reg W64 RAX), 4),
    (0x293, Mov (Imm 0xF8) (At W8 4 RDX), 4),
    (0x297, Mov (Imm 0x45E0360E) (At W64 0 RCX), 7),
    (0x29E, Cmp (Imm 0) (Reg W64 RAX), 4),
    (0x2A2, J CC_E 0x1E, 2),
    (0x2A4, Mov (At W64 0x68 RBX) (Reg W64 RAX), 4),
    (0x2A8, Mov (At W64 0x60 RBX) (Reg W64 RCX), 4),
    (0x2AC, Mov (Imm 0xF5F5F5F5F5F5F5F5) (Reg W64 RDX), 10),
    (0x2B6, Mov (Reg W64 RDX) (At W64 0 RCX), 3),
    (0x2B9, Mov (At W64 0x38 RAX) (Reg W64 RAX), 4),
    (0x2BD, Mov (Imm 0) (At W8 0 RAX), 3),
    (0x2C0, Jmp 0xB, 2),
    (0x2C2, Mov (At W64 0x60 RBX) (Reg W64 RAX), 4),
    (0x2C6, Mov (Imm 0) (At W64 0 RAX), 7),
    (0x2CD, Lea (At W64 (- 0x8) RBP) (Reg W64 RSP), 4),
    (0x2D1, Pop RBX, 1),
    (0x2D2, Pop RBP, 1),
    (0x2D3, Ret, 1)]"

section \<open>The stretches between the calls\<close>

lemma emit_u64_opens:
  assumes p: "placed code base emit_u64_code" and "rip s = base"
    and run: "runtime lay data g tp (mm s)" and q: "q = frame_base (rsp s) 0xC0"
    and w: "scattered [(rsp s - 0x10, 0x18), (q - 0x70, 0x130), (data, 0x140)]"
  shows "\<exists>t. reaches lay code s t \<and> emit_opened lay q 0xC0 (0x3D + base) s t
    \<and> ld 8 (q + 0xA0) (mm t) = rdi s \<and> ld 8 (q + 0x98) (mm t) = rsi s"
proof -
  note fetch = p [unfolded placed_def emit_u64_code_def list.pred_inject split_conv add_0_left]
  have "placed code base (enter_code 0xC0)" by (simp add: placed_def enter_code_def fetch)
  then obtain f where f: "run lay code 6 s = Some (entered 0xC0 base f s)" using enters assms(2) by blast
  note sep = scattered_spread [OF w, unfolded spread.simps list.pred_inject split_conv]
  have "\<exists>t. run lay code 9 (entered 0xC0 base f s) = Some t \<and> emit_opened lay q 0xC0 (0x3D + base) s t
    \<and> ld 8 (q + 0xA0) (mm t) = rdi s \<and> ld 8 (q + 0x98) (mm t) = rsi s"
    unfolding entered_def q [symmetric] emit_opened_def
    by (simp add: x86 fetch saved_simps runtime_reads [OF run] sep keeps_refl keeps_st covers_def)
  with f show ?thesis by (blast intro: reaches_trans reaches_run)
qed

lemma emit_u64_marks:
  assumes p: "placed code base emit_u64_code" and "rip s = 0x3D + base"
    and run: "runtime lay data g tp (mm s)"
    and w: "scattered [(q - 0x70, 0x130), (data, 0x140), (fr, 0x40), (sh, 8)]"
    and regs: "rbx s = q" "rsp s = q" "rax s = fr"
    and fr: "fr \<noteq> 0" "drop_bit 3 fr = sh - 0x7FFF8000"
  shows "\<exists>t. run lay code 25 s = Some t \<and> rip t = 0xD0 + base \<and> rbx t = q \<and> rsp t = q \<and> saved t = saved s
    \<and> ld 8 (q + 0x50) (mm t) = fr \<and> ld 8 (q + 0x58) (mm t) = fr + 0x20 \<and> ld 8 (q + 0x60) (mm t) = sh
    \<and> ld 8 (q + 0x68) (mm t) = fr \<and> ld 4 (q + 0x94) (mm t) = 0
    \<and> ld 8 (q + 0x98) (mm t) = ld 8 (q + 0x98) (mm s) \<and> ld 8 (q + 0xA0) (mm t) = ld 8 (q + 0xA0) (mm s)
    \<and> ld 1 (sh + 4) (mm t) = 0 \<and> ld 8 (fr + 0x38) (mm t) = ld 8 (fr + 0x38) (mm s)
    \<and> keeps [(q, 0xC0), (fr, 0x40), (sh, 8)] (mm s) (mm t)"
proof -
  note fetch = p [unfolded placed_def emit_u64_code_def list.pred_inject split_conv add_0_left]
  note sep = scattered_spread [OF w, unfolded spread.simps list.pred_inject split_conv]
  show ?thesis
    using assms(2) regs fr
    by (simp add: x86 fetch saved_simps runtime_reads [OF run] sep keeps_refl keeps_st covers_def)
qed

lemma below_8_cases: "i < 8 \<Longrightarrow> i = 0 \<or> i = 1 \<or> i = 2 \<or> i = 3 \<or> i = 4 \<or> i = 5 \<or> i = 6 \<or> i = (7 :: u64)"
  by unat_arith

lemma below_8:
  assumes "i < (8 :: u64)"
  shows "take_bit 32 i = i" "less_signed 32 i 8" "ovf (mul_flags 32 i 8) = Some False" "take_bit 32 (i * 8) = i * 8"
    "i * 8 < 0x3F" "unat (take_bit 6 (i * 8)) = 8 * unat i" "sign_extend 32 i = i" "ovf (add_flags 32 i 1) = Some False"
    "take_bit 32 (i + 1) = i + 1" "\<not> bit i 63" "take_bit 32 (1 + i) = 1 + i"
  using below_8_cases [OF assms]
  by (auto simp: less_signed_def mul_flags_def add_flags_def sign_extend_def signed_take_bit_def)

lemma emit_u64_byte:
  assumes p: "placed code base emit_u64_code" and "rip s = 0xD0 + base" and "rbx s = q"
    and slots: "ld 4 (q + 0x94) (mm s) = i" "ld 8 (q + 0x98) (mm s) = v" and i: "i < 8"
  shows "\<exists>t. run lay code 28 s = Some t \<and> rip t = 0x17B + base \<and> rbx t = q \<and> rsp t = rsp s \<and> saved t = saved s
    \<and> ld 1 (q + 0x33) (mm t) = take_bit 8 (drop_bit (8 * unat i) v) \<and> ld 4 (q + 0x34) (mm t) = i
    \<and> keeps [(q + 0x30, 0x20)] (mm s) (mm t)"
proof -
  note fetch = p [unfolded placed_def emit_u64_code_def list.pred_inject split_conv add_0_left]
  show ?thesis
    using assms(2,3) slots i
    by (simp add: x86 fetch saved_simps keeps_refl keeps_st covers_def below_8 [OF i] and_0xFF)
qed

lemma emit_u64_stores:
  assumes p: "placed code base emit_u64_code" and "rip s = 0x17B + base" and "rbx s = q"
    and slots: "ld 4 (q + 0x94) (mm s) = i" "ld 8 (q + 0x58) (mm s) = buf" "ld 1 (q + 0x33) (mm s) = x" "ld 4 (q + 0x34) (mm s) = i"
    and i: "i < 8" and b: "buf + i = b" "i + buf = b" "b \<noteq> 0" "buf \<noteq> 0" "\<not> b < buf"
    and w: "scattered [(q, 0xC0), (b, 1)]"
  shows "\<exists>t. run lay code 45 s = Some t \<and> rip t = 0xD0 + base \<and> rbx t = q \<and> rsp t = rsp s \<and> saved t = saved s
    \<and> ld 1 b (mm t) = take_bit 8 x \<and> ld 4 (q + 0x94) (mm t) = i + 1
    \<and> keeps [(q + 0x10, 0x20), (q + 0x94, 4), (b, 1)] (mm s) (mm t)"
proof -
  note fetch = p [unfolded placed_def emit_u64_code_def list.pred_inject split_conv add_0_left]
  note sep = scattered_spread [OF w, unfolded spread.simps list.pred_inject split_conv]
  show ?thesis
    using assms(2,3) slots i b
    by (simp add: x86 fetch saved_simps keeps_refl keeps_st covers_def below_8 [OF i] sep)
qed

lemma emit_u64_passes:
  assumes p: "placed code base emit_u64_code" and "rip s = 0xD0 + base"
    and regs: "rbx s = q" "rsp s = q"
    and slots: "ld 4 (q + 0x94) (mm s) = 8" "ld 8 (q + 0x58) (mm s) = buf"
    and obj: "ld 8 (q + 0xA0) (mm s) = obj" "obj \<noteq> 0" "obj AND 7 = 0"
  shows "\<exists>t. run lay code 17 s = Some t \<and> rip t = lay (Fn 11) \<and> rdi t = obj \<and> rsi t = buf \<and> rdx t = 8
    \<and> rbx t = q \<and> rsp t = q - 8 \<and> saved t = saved s
    \<and> ld 8 (q - 8) (mm t) = 0x287 + base \<and> keeps [(q - 8, 0x18)] (mm s) (mm t)"
proof -
  note fetch = p [unfolded placed_def emit_u64_code_def list.pred_inject split_conv add_0_left]
  have "\<not> less_signed 32 8 8" by (simp add: less_signed_def)
  then show ?thesis
    using assms(2) regs slots obj
    by (simp add: x86 fetch saved_simps keeps_refl keeps_st covers_def)
qed

lemma emit_u64_closes:
  assumes p: "placed code base emit_u64_code" and "rip s = 0x287 + base"
    and w: "scattered [(sp - 0x10, 0x18), (q - 0x70, 0x130), (flag, 1), (fr, 0x40), (sh, 8)]"
    and regs: "rbx s = q" "rsp s = q" "rbp s = sp - 8"
    and slots: "ld 8 (q + 0x50) (mm s) = fr" "ld 8 (q + 0x60) (mm s) = sh" "ld 8 (q + 0x68) (mm s) = fr"
      "ld 8 (fr + 0x38) (mm s) = flag" and "fr \<noteq> 0"
  shows "\<exists>t. run lay code 18 s = Some t \<and> rip t = ld 8 sp (mm s) \<and> rsp t = sp + 8
    \<and> saved t = saved (s\<lparr>rbp := ld 8 (sp - 8) (mm s), rbx := ld 8 (sp - 0x10) (mm s)\<rparr>)
    \<and> ld 1 flag (mm t) = 0 \<and> keeps [(flag, 1), (fr, 0x40), (sh, 8)] (mm s) (mm t)"
proof -
  note fetch = p [unfolded placed_def emit_u64_code_def list.pred_inject split_conv add_0_left]
  note sep = scattered_spread [OF w, unfolded spread.simps list.pred_inject split_conv]
  show ?thesis
    using assms(2) regs slots \<open>fr \<noteq> 0\<close>
    by (simp add: x86 fetch saved_simps sep keeps_refl keeps_st covers_def)
qed

section \<open>The loop\<close>

definition emit_u64_inv :: "u64 \<Rightarrow> u64 \<Rightarrow> u64 \<Rightarrow> u64 \<Rightarrow> nat \<Rightarrow> xstate \<Rightarrow> xstate \<Rightarrow> bool" where
  \<comment> \<open>\<open>t\<close>: at the test of the loop, \<open>k\<close> bytes stored\<close>
  "emit_u64_inv base q buf v k s t \<longleftrightarrow> rip t = 0xD0 + base \<and> rbx t = q \<and> rsp t = q \<and> saved t = saved s
     \<and> ld 4 (q + 0x94) (mm t) = of_nat k \<and> (\<forall>d<k. mm t (buf + of_nat d) = ucast (drop_bit (8 * d) v))
     \<and> keeps [(q + 0x10, 0x40), (q + 0x94, 4), (buf, 8)] (mm s) (mm t)"

lemma emit_u64_round:
  assumes p: "placed code base emit_u64_code" and inv: "emit_u64_inv base q buf v k s t" and k: "k < 8"
    and slots: "ld 8 (q + 0x58) (mm s) = buf" "ld 8 (q + 0x98) (mm s) = v" and buf: "buf \<noteq> 0" "8 \<le> - buf"
    and w: "scattered [(q, 0xC0), (buf, 8)]"
  shows "\<exists>u. reaches lay code t u \<and> emit_u64_inv base q buf v (Suc k) s u"
proof -
  let ?i = "of_nat k :: u64" and ?W = "[(q + 0x10, 0x40), (q + 0x94, 4), (buf, 8)]"
  note sep = scattered_spread [OF w, unfolded spread.simps list.pred_inject split_conv]
  note loc = clear_def sep apart_offsets inside_offsets word_offsets
  have i: "?i < 8" using k by (simp add: word_less_nat_alt unat_of_nat)
  then have inb: "inside (buf + ?i) 1 buf 8" by (rule inside_byte)
  note inv = inv [unfolded emit_u64_inv_def]
  have kt: "keeps ?W (mm s) (mm t)" using inv by simp
  have "ld 8 (q + 0x98) (mm t) = v" using slots(2) keeps_ld [OF kt, of "q + 0x98" 8] by (simp add: loc)
  then obtain x where x: "run lay code 28 t = Some x" "rip x = 0x17B + base" "rbx x = q" "rsp x = rsp t" "saved x = saved t"
      "ld 1 (q + 0x33) (mm x) = take_bit 8 (drop_bit (8 * k) v)" "ld 4 (q + 0x34) (mm x) = ?i"
    and kx: "keeps [(q + 0x30, 0x20)] (mm t) (mm x)"
    using emit_u64_byte [OF p _ _ _ _ i, of t q v lay] inv k by (auto simp: unat_of_nat)
  have mid: "ld 4 (q + 0x94) (mm x) = ?i" "ld 8 (q + 0x58) (mm x) = buf"
    using inv slots(1) keeps_ld [OF kt, of "q + 0x58" 8] keeps_ld [OF kx, of "q + 0x58" 8] keeps_ld [OF kx, of "q + 0x94" 4]
    by (simp_all add: loc)
  have nz: "buf + ?i \<noteq> 0" "\<not> buf + ?i < buf" using add_no_wrap [OF i buf(2,1)] by simp_all
  have W': "scattered [(q, 0xC0), (buf + ?i, 1)]"
    by (rule scattered_of [OF w, of "[0, 1]"]) (simp_all add: inb)
  obtain u where u: "run lay code 45 x = Some u" "rip u = 0xD0 + base" "rbx u = q" "rsp u = rsp x" "saved u = saved x"
      "ld 1 (buf + ?i) (mm u) = take_bit 8 (take_bit 8 (drop_bit (8 * k) v))" "ld 4 (q + 0x94) (mm u) = ?i + 1"
    and ku: "keeps [(q + 0x10, 0x20), (q + 0x94, 4), (buf + ?i, 1)] (mm x) (mm u)"
    using emit_u64_stores [OF p x(2,3) mid x(6,7) i refl _ nz(1) buf(1) nz(2) W'] by (auto simp: add.commute)
  have "mm u (buf + of_nat d) = ucast (drop_bit (8 * d) v)" if d: "d < Suc k" for d
  proof (cases "d = k")
    case True
    have "ucast (mm u (buf + ?i)) = take_bit 8 (drop_bit (8 * k) v)" using u(6) by (simp add: ld_1)
    then show ?thesis using True ucast_byte ucast_take_bit_8 by metis
  next
    case False
    with d have "d < k" by simp
    then have "(of_nat d :: u64) < 8" using k by (simp add: word_less_nat_alt unat_of_nat)
    then have ind: "inside (buf + of_nat d) 1 buf 8" by (rule inside_byte)
    have "(of_nat d :: u64) \<noteq> ?i" using \<open>d < k\<close> k by (simp add: word_unat_eq_iff unat_of_nat)
    then have "apart (buf + of_nat d) 1 (buf + ?i) 1" by (simp add: apart_offsets one_le_word)
    moreover have "clear [(q + 0x10, 0x20), (q + 0x94, 4), (q + 0x30, 0x20)] (buf + of_nat d) 1"
      by (rule clear_within [OF _ ind]) (simp add: loc)
    ultimately have c: "clear [(q + 0x10, 0x20), (q + 0x94, 4), (buf + ?i, 1)] (buf + of_nat d) 1" "clear [(q + 0x30, 0x20)] (buf + of_nat d) 1"
      by (simp_all only: clear_def list.pred_inject split_conv simp_thms)
    have "mm u (buf + of_nat d) = mm x (buf + of_nat d)" by (rule keeps_byte [OF ku c(1)])
    also have "\<dots> = mm t (buf + of_nat d)" by (rule keeps_byte [OF kx c(2)])
    finally show ?thesis using inv \<open>d < k\<close> by simp
  qed
  moreover have "keeps ?W (mm s) (mm u)"
    by (rule keeps_trans [OF kt keeps_trans [OF keeps_mono [OF kx] keeps_mono [OF ku]]]) (simp_all add: covers_def inside_offsets inb inb [unfolded inside_offsets])
  ultimately have "emit_u64_inv base q buf v (Suc k) s u"
    using inv x u by (simp add: emit_u64_inv_def add.commute)
  then show ?thesis using reaches_trans [OF reaches_run [OF x(1)] reaches_run [OF u(1)]] by blast
qed

lemma emit_u64_loop:
  assumes p: "placed code base emit_u64_code" and start: "emit_u64_inv base q buf v 0 s s"
    and slots: "ld 8 (q + 0x58) (mm s) = buf" "ld 8 (q + 0x98) (mm s) = v" and buf: "buf \<noteq> 0" "8 \<le> - buf"
    and w: "scattered [(q, 0xC0), (buf, 8)]"
  shows "k \<le> 8 \<Longrightarrow> \<exists>t. reaches lay code s t \<and> emit_u64_inv base q buf v k s t"
proof (induction k)
  case 0
  with start reaches_refl show ?case by blast
next
  case (Suc k)
  then obtain t where "reaches lay code s t" "emit_u64_inv base q buf v k s t" by auto
  with emit_u64_round [OF p this(2) _ slots buf w, of lay] Suc.prems show ?case by (auto intro: reaches_trans)
qed

section \<open>The call\<close>

lemma frame_end:
  assumes "frame_blocks k i"
  shows "8 \<le> - (frame_at k i + 0x20)"
proof -
  have "unat (frame_at k i) < 0x600000309000" using assms by (simp add: frame_blocks_def word_less_nat_alt)
  then have "unat (frame_at k i + 0x20) = unat (frame_at k i) + 0x20" "unat (frame_at k i) < 0x600000309000"
    by (simp_all add: unat_word_ariths)
  then show ?thesis using unat_sub_if' [of 0 "frame_at k i + 0x20"] by (auto simp: word_le_nat_alt)
qed

lemma emit_u64_fills:
  assumes p: "placed code base emit_u64_code" and E: "emit_ready lay data tp i j s" and q: "q = frame_base (rsp s) 0xC0"
    and t: "ld 8 (q + 0xA0) (mm t) = rdi s" "ld 8 (q + 0x98) (mm t) = rsi s" "gs t = gs s"
    and u: "rip (u :: xstate) = 0x3D + base" "saved u = saved t" "emit_allocated lay data tp q i t u"
  shows "\<exists>v. reaches lay code u v \<and> emit_filled lay q 0xC0 (0x287 + base) i j (le_bytes 8 (rsi s)) u v
    \<and> ld 8 (q + 0x50) (mm v) = frame_at 0 i \<and> ld 8 (q + 0x60) (mm v) = shadow (frame_at 0 i) \<and> ld 8 (q + 0x68) (mm v) = frame_at 0 i"
proof -
  note fb = emit_ready_frames(1,2) [OF E disjI2 [OF refl]]
  note W = emit_ready_frames(3) [OF E disjI2 [OF refl], folded q, unfolded emit_blocks_def]
  define fr fh where "fr = frame_at 0 i" and "fh = frame_at 1 j"
  note sep = scattered_spread [OF W, folded fr_def fh_def, unfolded spread.simps list.pred_inject split_conv]
  note loc = clear_def sep apart_offsets inside_offsets word_offsets
  note ua = u(3) [unfolded emit_allocated_def, folded fr_def]
  have "scattered [(q - 0x70, 0x130), (data, 0x140), (fr, 0x40), (shadow fr, 8)]"
    by (rule scattered_of [OF W, of "[1, 2, 8, 10]"]) (simp_all add: fr_def)
  moreover have high: "fr \<noteq> 0" "fr + 0x20 \<noteq> 0" "8 \<le> - (fr + 0x20)" "fh + 0x40 \<noteq> 0" "(fh + 0x40) AND 7 = 0"
    using frame_addresses [OF fb(1), of "0x20"] frame_addresses [OF fb(2), of "0x40"] in_frame(2) [OF fb(2), of "0x40" 0]
      frame_end [OF fb(1)] by (simp_all add: fr_def fh_def)
  moreover have "drop_bit 3 fr = shadow fr - 0x7FFF8000" by (simp add: shadow_def)
  moreover have "runtime lay data (gs u) tp (mm u)" "rbx u = q" "rsp u = q" "rax u = fr" using ua by simp_all
  ultimately obtain a where a: "run lay code 25 u = Some a" "rip a = 0xD0 + base" "rbx a = q" "rsp a = q" "saved a = saved u"
      "ld 8 (q + 0x50) (mm a) = fr" "ld 8 (q + 0x58) (mm a) = fr + 0x20" "ld 8 (q + 0x60) (mm a) = shadow fr" "ld 8 (q + 0x68) (mm a) = fr"
      "ld 4 (q + 0x94) (mm a) = 0" "ld 8 (q + 0x98) (mm a) = ld 8 (q + 0x98) (mm u)" "ld 8 (q + 0xA0) (mm a) = ld 8 (q + 0xA0) (mm u)"
      "ld 1 (shadow fr + 4) (mm a) = 0" "ld 8 (fr + 0x38) (mm a) = flag_at 0 i"
    and ka: "keeps [(q, 0xC0), (fr, 0x40), (shadow fr, 8)] (mm u) (mm a)"
    using emit_u64_marks [OF p u(1), of lay data "gs u" tp q fr "shadow fr"] ua by metis
  have ku: "keeps [(q - 0x70, 0x68), (fake_stack, 8), (flag_at 0 i, 1), (fr, 0x40), (shadow fr, 8)] (mm t) (mm u)" using ua by simp
  have args: "ld 8 (q + 0x98) (mm a) = rsi s" "ld 8 (q + 0xA0) (mm a) = fh + 0x40"
    using a(11,12) t E keeps_ld [OF ku, of _ 8] by (simp_all add: loc fh_def emit_ready_def)
  have "emit_u64_inv base q (fr + 0x20) (rsi s) 0 a a" using a by (simp add: emit_u64_inv_def keeps_refl)
  moreover have "scattered [(q, 0xC0), (fr + 0x20, 8)]"
    by (rule scattered_of [OF W, of "[1, 8]"]) (simp_all add: fr_def inside_offsets)
  ultimately obtain b where b: "reaches lay code a b" "emit_u64_inv base q (fr + 0x20) (rsi s) 8 a b"
    using emit_u64_loop [OF p _ a(7) args(1) high(2,3), of 8 lay] by blast
  note b' = b(2) [unfolded emit_u64_inv_def]
  have kb: "keeps [(q + 0x10, 0x40), (q + 0x94, 4), (fr + 0x20, 8)] (mm a) (mm b)" using b' by simp
  obtain w where w: "run lay code 17 b = Some w" "rip w = lay (Fn 11)" "rdi w = fh + 0x40" "rsi w = fr + 0x20" "rdx w = 8"
      "rbx w = q" "rsp w = q - 8" "saved w = saved b" "ld 8 (q - 8) (mm w) = 0x287 + base"
    and kw: "keeps [(q - 8, 0x18)] (mm b) (mm w)"
    using emit_u64_passes [OF p, of b q "fr + 0x20" "fh + 0x40" lay] b' a(7) args(2) high(4,5)
      keeps_ld [OF kb, of "q + 0x58" 8] keeps_ld [OF kb, of "q + 0xA0" 8] by (auto simp: loc)
  have "keeps [(q - 8, 0xC8), (fr, 0x40), (shadow fr, 8)] (mm u) (mm w)"
    by (rule keeps_trans [OF keeps_mono [OF ka] keeps_trans [OF keeps_mono [OF kb] keeps_mono [OF kw]]])
      (simp_all add: covers_def inside_offsets)
  moreover have "map (\<lambda>d. mm w (fr + 0x20 + of_nat d)) [0..<8] = le_bytes 8 (rsi s)"
  proof -
    have "mm w (fr + 0x20 + of_nat d) = ucast (drop_bit (8 * d) (rsi s))" if d: "d < 8" for d
    proof -
      have "(of_nat d :: u64) < 8" using d by (simp add: word_less_nat_alt unat_of_nat)
      from inside_trans [OF inside_byte [OF this], of "fr + 0x20" fr "0x40"]
      have "mm w (fr + 0x20 + of_nat d) = mm b (fr + 0x20 + of_nat d)"
        by (intro keeps_byte [OF kw]) (simp add: loc)
      then show ?thesis using b' d by simp
    qed
    then show ?thesis by (simp add: le_bytes_def)
  qed
  moreover have "mm w (shadow fr + 4) = 0"
    using ucast_byte [of "mm a (shadow fr + 4)"] a(13) [unfolded ld_1] keeps_byte [OF kw, of "shadow fr + 4"]
      keeps_byte [OF kb, of "shadow fr + 4"] by (simp add: loc)
  moreover have "ld 8 (fr + 0x38) (mm w) = flag_at 0 i"
    "ld 8 (q + 0x50) (mm w) = fr" "ld 8 (q + 0x60) (mm w) = shadow fr" "ld 8 (q + 0x68) (mm w) = fr"
    using a(6,8,9,14) keeps_ld [OF kw, of _ 8] keeps_ld [OF kb, of _ 8] by (simp_all add: loc)
  ultimately have "emit_filled lay q 0xC0 (0x287 + base) i j (le_bytes 8 (rsi s)) u w
    \<and> ld 8 (q + 0x50) (mm w) = frame_at 0 i \<and> ld 8 (q + 0x60) (mm w) = shadow (frame_at 0 i) \<and> ld 8 (q + 0x68) (mm w) = frame_at 0 i"
    unfolding emit_filled_def fr_def [symmetric] fh_def [symmetric] using w a(5) b' by (simp add: le_bytes_def)
  then show ?thesis using reaches_trans [OF reaches_run [OF a(1)] reaches_trans [OF b(1) reaches_run [OF w(1)]]] by blast
qed

lemma emit_u64_runs:
  assumes m: "machine lay code" and p: "placed code base emit_u64_code" "placed code (lay (Fn 11)) hash_lambda_code"
    and "rip s = base" and E: "emit_ready lay data tp i j s"
  shows "\<exists>t. emitted lay code i j (le_bytes 8 (rsi s)) s t"
proof -
  define q where "q = frame_base (rsp s) 0xC0"
  note W = emit_ready_frames(3) [OF E disjI2 [OF refl], folded q_def, unfolded emit_blocks_def]
  have run: "runtime lay data (gs s) tp (mm s)" using E by (simp add: emit_ready_def)
  have "scattered [(rsp s - 0x10, 0x18), (q - 0x70, 0x130), (data, 0x140)]"
    by (rule scattered_of [OF W, of "[0, 1, 2]"]) simp_all
  from emit_u64_opens [OF p(1) assms(4) run q_def this] obtain t where
    t: "reaches lay code s t" "emit_opened lay q 0xC0 (0x3D + base) s t"
      "ld 8 (q + 0xA0) (mm t) = rdi s" "ld 8 (q + 0x98) (mm t) = rsi s" by blast
  have gs: "gs t = gs s" using t(2) by (simp add: emit_opened_def saved_simps)
  show ?thesis
  proof (rule emit_assembly [OF m p(2) E disjI2 [OF refl] q_def t(1,2), where ret' = "0x287 + base"
      and R = "\<lambda>m. ld 8 (q + 0x50) m = frame_at 0 i \<and> ld 8 (q + 0x60) m = shadow (frame_at 0 i) \<and> ld 8 (q + 0x68) m = frame_at 0 i"])
    fix u :: xstate
    assume "rip u = 0x3D + base" "saved u = saved t" "emit_allocated lay data tp q i t u"
    then show "\<exists>v. reaches lay code u v \<and> emit_filled lay q 0xC0 (0x287 + base) i j (le_bytes 8 (rsi s)) u v
        \<and> ld 8 (q + 0x50) (mm v) = frame_at 0 i \<and> ld 8 (q + 0x60) (mm v) = shadow (frame_at 0 i) \<and> ld 8 (q + 0x68) (mm v) = frame_at 0 i"
      by (rule emit_u64_fills [OF p(1) E q_def t(3,4) gs])
  next
    fix v w :: xstate
    assume R: "ld 8 (q + 0x50) (mm v) = frame_at 0 i \<and> ld 8 (q + 0x60) (mm v) = shadow (frame_at 0 i) \<and> ld 8 (q + 0x68) (mm v) = frame_at 0 i"
      "ld 8 (frame_at 0 i + 0x38) (mm v) = flag_at 0 i"
      and w: "rip w = 0x287 + base" "rsp w = q" "rbx w = q" "rbp w = rsp s - 8"
      and k: "keeps [(q - 0x70, 0x68), (frame_at 1 j + 0x20, 8)] (mm v) (mm w)"
    note sep = scattered_spread [OF W, unfolded spread.simps list.pred_inject split_conv]
    have same: "ld 8 (q + 0x50) (mm w) = frame_at 0 i" "ld 8 (q + 0x60) (mm w) = shadow (frame_at 0 i)" "ld 8 (q + 0x68) (mm w) = frame_at 0 i"
      "ld 8 (frame_at 0 i + 0x38) (mm w) = flag_at 0 i"
      using R keeps_ld [OF k, of _ 8] by (simp_all add: clear_def sep apart_offsets inside_offsets)
    have "scattered [(rsp s - 0x10, 0x18), (q - 0x70, 0x130), (flag_at 0 i, 1), (frame_at 0 i, 0x40), (shadow (frame_at 0 i), 8)]"
      by (rule scattered_of [OF W, of "[0, 1, 7, 8, 10]"]) simp_all
    moreover have "frame_at 0 i \<noteq> 0" by (rule frame_addresses [OF emit_ready_frames(1) [OF E disjI2 [OF refl]], of 0]) simp
    ultimately show "\<exists>x. reaches lay code w x \<and> emit_closed i (rsp s) w x"
      using emit_u64_closes [OF p(1) w(1) _ w(3,2,4) same] unfolding emit_closed_def by (blast intro: reaches_run)
  qed
qed

end
