(* ===== verification/Payload_Source.thy ===== *)
theory Payload_Source
  imports Payload_U64 Repro
begin

text \<open>
  The machine code of \<open>emit_i16\<close> and \<open>emit_u64\<close> against repro.cpp, the source it was compiled from, and
  a concrete machine on which the statements apply.
\<close>

section \<open>Refinement\<close>

lemma emit_i16_hashes: "emit_i16 (\<lambda>bs h. foldl fnv_step h bs) (ucast (v :: u64)) h = foldl fnv_step h [ucast v, ucast (drop_bit 8 v)]"
proof -
  have "ucast ((ucast v :: u16) AND 0xFF) = (ucast v :: u8)" "ucast (drop_bit 8 (ucast v :: u16) AND 0xFF) = (ucast (drop_bit 8 v) :: u8)"
    using mask_eq_exp_minus_1 [of 8, where 'a = "16 word"] by (auto simp: bit_eq_iff bit_simps dest: bit_imp_le_length simp flip: mask_eq_exp_minus_1)
  then show ?thesis by (simp add: emit_i16_def)
qed

text \<open>
  Property C26: the machine code of emit\_i16 does what emit\_i16 of repro.cpp does. Called on a processor
  that executes its instructions, with a free frame in the fake stack, it returns with the callee-saved
  registers as they were, the hash has been continued with the bytes that emit\_i16 of the source
  passes to its callback, the frame it took is free again, and nothing has changed but its part of
  the stack, the frame with its flag, number and shadow, and the hash.
\<close>

theorem emit_i16_refines_source:
  assumes "machine lay code" and "placed code (lay (Fn 10)) emit_i16_code" and "placed code (lay (Fn 11)) hash_lambda_code"
    and "rip s = lay (Fn 10)" and "emit_ready lay data tp i j s"
  shows "\<exists>t. returns lay code s t
    \<and> ld 8 (frame_at 1 j + 0x20) (mm t)
        = emit_i16 (\<lambda>bs h. foldl fnv_step h bs) (ucast (rsi s)) (ld 8 (frame_at 1 j + 0x20) (mm s))
    \<and> mm t (flag_at 0 i) = 0
    \<and> keeps [(rsp s - 0x160, 0x160), (fake_stack, 8), (flag_at 0 i, 1), (frame_at 0 i, 0x40), (shadow (frame_at 0 i), 8),
         (frame_at 1 j + 0x20, 8)] (mm s) (mm t)"
  using emit_i16_runs [OF assms] unfolding emitted_def emit_i16_hashes .

text \<open>
  Property C29: the machine code of emit\_u64 does what emit\_u64 of repro.cpp does, in the same sense: its
  loop stores the eight bytes in a buffer of the frame it took and has the lambda hash them.
\<close>

theorem emit_u64_refines_source:
  assumes "machine lay code" and "placed code (lay (Fn 6)) emit_u64_code" and "placed code (lay (Fn 11)) hash_lambda_code"
    and "rip s = lay (Fn 6)" and "emit_ready lay data tp i j s"
  shows "\<exists>t. returns lay code s t
    \<and> ld 8 (frame_at 1 j + 0x20) (mm t)
        = emit_u64 (\<lambda>bs h. foldl fnv_step h bs) (rsi s) (ld 8 (frame_at 1 j + 0x20) (mm s))
    \<and> mm t (flag_at 0 i) = 0
    \<and> keeps [(rsp s - 0x160, 0x160), (fake_stack, 8), (flag_at 0 i, 1), (frame_at 0 i, 0x40), (shadow (frame_at 0 i), 8),
         (frame_at 1 j + 0x20, 8)] (mm s) (mm t)"
  using emit_u64_runs [OF assms] unfolding emitted_def emit_u64_bytes .

section \<open>Code on pages\<close>

definition load_pages :: "(u64 \<times> symbol listing) list \<Rightarrow> symbol program" where
  "load_pages ps = (\<lambda>a. case map_of ps (a AND NOT (mask 12)) of None \<Rightarrow> None | Some xs \<Rightarrow> map_of xs (a AND mask 12))"

lemma placed_load_pages:
  assumes "map_of ps base = Some xs" and "base AND mask 12 = 0" and "successively (<) (map fst xs)"
    and "list_all (\<lambda>x. fst x < 0x1000) xs"
  shows "placed (load_pages ps) base xs"
proof -
  have "distinct (map fst xs)" using assms(3) by (simp add: successively_conv_sorted_wrt strict_sorted_iff)
  moreover have "(off + base) AND mask 12 = off" "(off + base) AND NOT (mask 12) = base" if "off < 0x1000" for off
    using aligned_offset [OF assms(2), of off] that by (simp_all add: add.commute)
  ultimately show ?thesis
    using assms(1,4) by (fastforce simp: placed_def load_pages_def list_all_iff intro: map_of_is_SomeI)
qed

definition example_lay :: "symbol \<Rightarrow> u64" where
  "example_lay y = (case y of Fn n \<Rightarrow> 0x100000 + push_bit 12 (of_nat n) | Trap n \<Rightarrow> 0x200000 | Emit_I16_End \<Rightarrow> 0x10A240 | Memset \<Rightarrow> 0x80000
     | Saved_Rsp \<Rightarrow> 0x5000 | Inject_Countdown \<Rightarrow> 0x5008 | D_Real_Memset \<Rightarrow> 0x5010 | D_Mid_Beg \<Rightarrow> 0x5018 | D_Mid_End \<Rightarrow> 0x5020
     | D_High_End \<Rightarrow> 0x5028 | D_Detect_Uar \<Rightarrow> 0x5030 | D_Can_Poison \<Rightarrow> 0x5034 | D_Dummy \<Rightarrow> 0x5040)"

definition example_pages :: "(u64 \<times> symbol listing) list" where
  "example_pages = [(0x80000, sdc_rbx_memset_code), (0x100000, asan_stack_malloc_0_code), (0x101000, asan_stack_malloc_1_code),
     (0x102000, asan_stack_malloc_2_code), (0x103000, poison_shadow_code), (0x106000, emit_u64_code), (0x10A000, emit_i16_code), (0x10B000, hash_lambda_code)]"

lemma example_listings: "list_all (\<lambda>xs. successively (<) (map fst xs) \<and> list_all (\<lambda>x. fst x < 0x1000) xs) (map snd example_pages)"
  by (simp add: example_pages_def sdc_rbx_memset_code_def asan_stack_malloc_0_code_def asan_stack_malloc_1_code_def
    asan_stack_malloc_2_code_def poison_shadow_code_def emit_u64_code_def emit_i16_code_def hash_lambda_code_def)

lemma example_placed: "list_all (\<lambda>(base, xs). placed (load_pages example_pages) base xs) example_pages"
proof -
  have "distinct (map fst example_pages)" "list_all (\<lambda>base. base AND mask 12 = 0) (map fst example_pages)"
    by (simp_all add: example_pages_def mask_eq_exp_minus_1)
  then show ?thesis
    using example_listings by (auto simp: list_all_iff intro!: placed_load_pages map_of_is_SomeI)
qed

section \<open>Memory\<close>

definition example_memory :: "u64 \<Rightarrow> u8" where
  "example_memory = st 8 0x1028 0x3000 (st 8 0x2FB8 0x600000000000 (st 8 0x600000000058 20
     (st 8 0x5010 0x80000 (st 8 0x5028 0x00007FFFFFFFFFFF (st 4 0x5030 1 (st 1 0x5034 1
     (st 8 0x600000109040 0x600000109020 (st 8 0x600000109020 0xCBF29CE484222325 (\<lambda>_. 0)))))))))"

lemma example_zero: "clear [(0x1028, 8), (0x2FB8, 8), (0x600000000058, 8), (0x5010, 0x30), (0x600000109020, 0x28)] a 1 \<Longrightarrow> example_memory a = 0"
proof -
  have "keeps [(0x1028, 8), (0x2FB8, 8), (0x600000000058, 8), (0x5010, 0x30), (0x600000109020, 0x28)] (\<lambda>_. 0) example_memory"
    unfolding example_memory_def by (simp add: keeps_refl keeps_st covers_def numeral_blocks)
  then show "clear [(0x1028, 8), (0x2FB8, 8), (0x600000000058, 8), (0x5010, 0x30), (0x600000109020, 0x28)] a 1 \<Longrightarrow> example_memory a = 0"
    using keeps_byte by fastforce
qed

lemma example_words:
  "ld 8 0x1028 example_memory = 0x3000" "ld 8 0x2FB8 example_memory = 0x600000000000" "ld 8 0x600000000058 example_memory = 20"
  "ld 8 0x5010 example_memory = 0x80000" "ld 8 0x5028 example_memory = 0x00007FFFFFFFFFFF" "ld 4 0x5030 example_memory = 1"
  "ld 1 0x5034 example_memory = 1" "ld 8 0x600000109040 example_memory = 0x600000109020"
  "ld 8 0x600000109020 example_memory = 0xCBF29CE484222325"
  "ld 8 0x600000000000 example_memory = 0" "ld 1 0x600000000060 example_memory = 0" "ld 8 0x5018 example_memory = 0" "ld 8 0x5020 example_memory = 0"
  unfolding example_memory_def by (simp_all add: ld_st_same ld_st_apart numeral_blocks one_le_word) (simp_all add: ld_def upt_rec)

lemma example_runtime: "runtime example_lay 0x5000 0x1000 0x3000 example_memory"
proof -
  have "example_memory (0x5040 + i) = 0" if "i < 256" for i
  proof -
    have i: "inside (0x5040 + i) 1 0x5040 0x100" by (rule inside_byte) (use that in simp)
    show ?thesis by (intro example_zero clear_within [OF _ i]) (simp add: clear_def numeral_blocks)
  qed
  then show ?thesis
    by (simp add: runtime_def data_block_def data_values_def example_lay_def example_words example_words [unfolded One_nat_def] fake_stack_def)
qed

lemma example_machine: "machine example_lay (load_pages example_pages)"
  using example_placed by (subst (asm) (2) example_pages_def) (simp add: machine_def example_lay_def)

lemma example_code:
  "machine example_lay (load_pages example_pages)" "placed (load_pages example_pages) (example_lay (Fn 6)) emit_u64_code"
  "placed (load_pages example_pages) (example_lay (Fn 10)) emit_i16_code" "placed (load_pages example_pages) (example_lay (Fn 11)) hash_lambda_code"
  using example_placed by (subst (asm) (2) example_pages_def; simp add: machine_def example_lay_def)+

definition example_state :: "u64 \<Rightarrow> u64 \<Rightarrow> xstate" where
  \<comment> \<open>a call, with a value, of the function at an address\<close>
  "example_state a v = (at_rest example_memory)\<lparr>gs := 0x1000, rsp := 0x9000, rip := a, rdi := 0x600000109040, rsi := v\<rparr>"

lemma example_ready: "emit_ready example_lay 0x5000 0x3000 0 0 (example_state a v)"
proof -
  have "scattered (world 0x5000 0x1000 0x3000 0x9000 0x160)"
    by (simp add: world_def arena_blocks_def clear_def numeral_blocks)
  moreover have "hash_object (frame_at 1 0) example_memory"
    by (simp add: hash_object_def frame_at_def shadow_def example_words) (auto intro!: example_zero simp: clear_def numeral_blocks one_le_word)
  moreover have "example_memory (flag_at 0 0) = 0"
    by (rule example_zero) (simp add: flag_at_def clear_def numeral_blocks one_le_word)
  ultimately show ?thesis
    using example_runtime example_words by (simp add: emit_ready_def example_state_def at_rest_def fake_stack_def frame_at_def)
qed

lemma example_values:
  "mm (example_state a v) = example_memory" "rsi (example_state a v) = v" "rip (example_state a v) = a"
  "frame_at 1 0 + 0x20 = 0x600000109020" "example_lay (Fn 6) = 0x106000" "example_lay (Fn 10) = 0x10A000"
  by (simp_all add: example_state_def at_rest_def frame_at_def example_lay_def)

lemma emit_i16_refines_source_witness:
  "\<exists>t. returns example_lay (load_pages example_pages) (example_state 0x10A000 0x1234) t
    \<and> ld 8 0x600000109020 (mm t) = fnv_step (fnv_step k_fnv_basis 0x34) 0x12"
proof -
  have "[ucast (0x1234 :: u64), ucast (drop_bit 8 (0x1234 :: u64))] = [0x34, 0x12 :: u8]" by simp
  then have "emit_i16 (\<lambda>bs h. foldl fnv_step h bs) (ucast (0x1234 :: u64)) h = fnv_step (fnv_step h 0x34) 0x12" for h
    unfolding emit_i16_hashes by (simp only: foldl.simps)
  then show ?thesis
    using emit_i16_refines_source [OF example_code(1,3,4) _ example_ready, of "0x10A000" "0x1234"]
    unfolding example_values example_words k_fnv_basis_def by auto
qed

lemma emit_u64_refines_source_witness:
  "\<exists>t. returns example_lay (load_pages example_pages) (example_state 0x106000 0x8877665544332211) t
    \<and> ld 8 0x600000109020 (mm t) = foldl fnv_step k_fnv_basis [0x11, 0x22, 0x33, 0x44, 0x55, 0x66, 0x77, 0x88]"
proof -
  have "map (\<lambda>i. ucast (drop_bit (8 * i) (0x8877665544332211 :: u64) AND 0xFF)) [0..<8] = [0x11, 0x22, 0x33, 0x44, 0x55, 0x66, 0x77, 0x88 :: u8]"
    by (simp add: upt_rec)
  then have "emit_u64 (\<lambda>bs h. foldl fnv_step h bs) (0x8877665544332211 :: u64) h
      = foldl fnv_step h [0x11, 0x22, 0x33, 0x44, 0x55, 0x66, 0x77, 0x88]" for h
    by (simp only: emit_u64_def)
  then show ?thesis
    using emit_u64_refines_source [OF example_code(1,2,4) _ example_ready, of "0x106000" "0x8877665544332211"]
    unfolding example_values example_words k_fnv_basis_def by auto
qed

end
