(* ===== verification/Spec2Isabelle.thy ===== *)
theory Spec2Isabelle
  imports Main_Prog Payload_Source
begin

text \<open>
  A verification development for sdcprobe, a detector of two CPU faults on x86-64.

  \<^bold>\<open>The program\<close> (src/src). One process tests the selected cores one at a time with up to two probes.
  The ch probe (sdcprobe.cpp, load.cpp) computes a value-noise load over a grid of 100000 samples,
  hashes every value from registers (through CL, CH and shifts) while storing it to memory, hashes
  the memory again, and on a difference inverts the hash to name the byte that was misread. The rbx
  probe (rbx.cpp, rbx_payload.S) fills an arena at a fixed address, calls a piece of machine code on
  it, and looks for hardware exceptions and wrong hashes. platform.cpp enumerates and pins cores and
  captures exceptions; logger.cpp writes screen and report file; rbx-repro/repro.cpp is the program
  the rbx payload was taken from.

  \<^bold>\<open>Theories\<close>, in the order of their imports:
  \<^item> Prelude: fallible loops in the option monad, vectors with checked indices, lemma collections.
  \<^item> Fnv: FNV-1a steps on 64-bit words, their inverse (\<open>k_fnv_prime_inverse\<close>), little-endian bytes.
  \<^item> Ieee: binary32 and binary64 as bit patterns, with exact add, multiply, divide, round to nearest
    even, comparisons and casts; a cast that C++ leaves undefined is None.
  \<^item> Load: load.cpp from \<open>splitmix64\<close> to \<open>sdc_load_sample\<close>, and \<open>sdc_set_load_layers\<close>.
  \<^item> Hotloop: \<open>compute_rows\<close> with its instruction sequence executed on registers, \<open>replay_hash\<close>. How a
    byte is read out of a register is a parameter (\<open>cpu\<close>): it is what the program tests.
  \<^item> Reverse: \<open>popcount64\<close>, \<open>reverse_fnv\<close> with its two buffers.
  \<^item> Text: printf conversions, \<open>strtol\<close>, \<open>strtoul\<close> at the width of \<open>long\<close> of each platform, \<open>trim\<close>,
    \<open>equals_ignore_case\<close>.
  \<^item> Selection: \<open>parse_probe_selection\<close>, \<open>parse_cpu_selection\<close>, \<open>format_cpu_list\<close>.
  \<^item> Logger: \<open>Logger\<close> of logger.cpp, with a model of a terminal.
  \<^item> Probe_Loop: the timed loop both probes share, with the locale \<open>probe\<close> of what they inherit.
  \<^item> Run_Ch: \<open>run_on_current_cpu\<close>. Calibrate: \<open>probe_ns_per_sample\<close>, \<open>calibrate_layers\<close>.
  \<^item> Platform: platform.cpp, both halves: enumeration, pinning, fixed mappings, the thread pointer,
    the capture of exceptions.
  \<^item> Repro: repro.cpp. Rbx: rbx.cpp, over a memory of bytes. Rbx_Arena: what \<open>build_arena\<close> builds.
    Rbx_Pass: preparation, one pass, the self-test's passes. Run_Rbx: \<open>run_rbx_on_current_cpu\<close>.
  \<^item> Self_Test: \<open>self_test\<close> and \<open>rbx_self_test\<close>.
  \<^item> X86: registers, flags, memory and the instructions rbx_payload.S uses; Payload: its symbols, data,
    both memsets, the call wrapper and the landing; Payload_Lambda: the lambda that hashes;
    Payload_Shadow: PoisonShadow of the ASan runtime; Payload_Frames: its fake stack and the three
    functions that take frames of 64, 128 and 256 bytes; Payload_Emit, Payload_U64: \<open>emit_i16\<close> and
    \<open>emit_u64\<close>; Payload_Source: the two against repro.cpp. Each is the listing with its offsets.
  \<^item> Sweep, Verdict, Cli, Main_Prog: \<open>main\<close>, cut at its comments: the loop over the cores; totals,
    summary, verdict and exit code; command line and questions; the composition.

  \<^bold>\<open>State.\<close> A C++ struct is a record of the same fields; the vectors of \<open>Workspace\<close> are lists that keep
  their length; a global (\<open>g_layers\<close>, \<open>g_fault_record\<close>, the statics of rbx.cpp) is a field of the state
  that is passed on, or an argument where it is only read. Output is the text written so far.
  Everything from outside is an argument: the clock, the interrupt flag and the time of day are
  functions of the number of questions asked so far (\<open>env\<close>); the processor of each pass, the answers
  of the operating system (\<open>rbx_os\<close>, \<open>machine\<close>, \<open>host\<close>) and the payload (\<open>payload\<close>) are functions too.
  None is behaviour that C++ does not define, an exception that nobody takes, or a run that does
  not return. No function has a fuel bound: loops that always end are total functions with their
  measure, and only the timed loop is partial, since a clock may stand still.

  \<^bold>\<open>Interfaces\<close> are locales, each interpreted on the model: \<open>probe\<close> (a round keeps an invariant and
  counts itself) on both probes, for their invariants and on clean runs; \<open>sound_processor\<close> (right
  register reads, steady loads) on the reference processor; \<open>payload_contract\<close> (what the code relies
  on of the machine code it carries: it reads the arena, returns its hash, writes nowhere it
  matters) on the payload that does what repro.cpp does; \<open>sound_machine\<close> on a machine with both.

  \<^bold>\<open>What is shown.\<close>
  \<^item> The hash: the instruction sequence is FNV-1a of the stored bytes (\<open>hot_step_is_fnv\<close>), so a clean
    round agrees (\<open>clean_round_agrees\<close>); the load never runs into an undefined cast
    (\<open>load_sample_defined\<close>).
  \<^item> The analysis: a byte it names explains the hash (\<open>reverse_sound\<close>), a single misread is always
    found (\<open>reverse_complete\<close>), two in one sample are never blamed on one (\<open>two_misreads_not_blamed\<close>),
    and it reads one byte past its array in one exactly described case (\<open>reverse_overread\<close>).
  \<^item> Runs: a misread is counted once (\<open>misread_counted\<close>), a fault of the payload likewise
    (\<open>fault_counted\<close>), results add up (\<open>run_accounts\<close>, \<open>rbx_run_accounts\<close>), sound cores are not accused
    (\<open>sound_core_clean\<close>).
  \<^item> The arena is the data of the reproducer (\<open>arena_is_repro\<close>) and is rebuilt after a fault whatever the
    fault left (\<open>arena_rebuilt\<close>, \<open>pass_classified\<close>).
  \<^item> The machine code: the lambda's 113 instructions are FNV-1a of the bytes given
    (\<open>hash_lambda_is_fnv\<close>); the call wrapper restores its caller after a return or a fault with any
    registers (\<open>call_survives\<close>); \<open>emit_i16\<close> and \<open>emit_u64\<close>, with the allocator, PoisonShadow, memset and
    the lambda they call, hash what the functions of repro.cpp hash, and give back the frame they took
    (\<open>emit_i16_refines_source\<close>, \<open>emit_u64_refines_source\<close>).
  \<^item> The sweep refines the relation \<open>swept\<close> (\<open>sweep_refines\<close>); the summary adds up (\<open>totals_account\<close>); the exit
    code follows from the cores measured, skipped and left out, which \<open>sweep_account\<close> ties to pinning, counters
    and results (\<open>exit_code_means\<close>), also for the whole program (\<open>exit_codes_truthful\<close>); the report file gets
    exactly the concluding text (\<open>report_concluded\<close>). A handler takes exactly the exceptions it is
    meant for and records them completely (\<open>capture_one_shot\<close>). The program returns 0 on a sound machine (\<open>sound_host_exits_clean\<close>).
  \<^item> Text: printed core lists are read back (\<open>format_parse_roundtrip\<close>), options stay in range
    (\<open>accepted_options\<close>), a report line is never overwritten (\<open>screen_lines_intact\<close>), the file has every
    line (\<open>report_file_complete\<close>).
  \<^item> Faults of the program itself: \<open>reverse_overread\<close>, \<open>clamp_after_cast\<close>, \<open>interrupt_before_first_core\<close>,
    \<open>prepare_failure_leaves_mappings\<close>, \<open>misaligned_access_not_captured\<close>.

  \<^bold>\<open>Not modelled.\<close> The other functions inside rbx_payload.S (\<open>hash\<close>, \<open>emit_state\<close> and the accessors of
  the vectors), so that the payload is a parameter of the probe; the system's answer to the tty test (a field of the host); flushing and failing writes of streams; the allocator; the
  generator tools/gen_rbx_payload.py, the build files and the CI. \<open>strtoul\<close> is given as its value only,
  because the code passes no end pointer. Totals of detections are taken not to wrap around 2^64
  where a theorem says so (\<open>countable_detections\<close>).
\<close>

end
